(* ===== verification/DC_Prelude.thy ===== *)
theory DC_Prelude
  imports Main "HOL-Library.Word"
begin

text \<open>
  Shared vocabulary of the d-chat development: machine integers, bytes and strings, C++
  exceptions as values of a sum type, and the parts of the C++ standard library every
  component uses (decimal and hexadecimal conversion, C strings).
  A \<open>std::string\<close> is a \<open>string\<close>, one \<open>char\<close> per byte; \<open>crypto::Bytes\<close> is a list of 8-bit words.
\<close>

named_theorems res_simps \<open>rewriting of computations that may throw\<close>

type_synonym u8 = "8 word"
type_synonym u16 = "16 word"
type_synonym u32 = "32 word"
type_synonym u64 = "64 word"
type_synonym bytes = "8 word list"

subsection \<open>Machine integers\<close>

lemma unat_u8_bound: "unat (w :: u8) < 256"
  and unat_u16_bound: "unat (w16 :: u16) < 65536"
  and unat_u32_bound: "unat (w32 :: u32) < 4294967296"
  and unat_u64_bound: "unat (w64 :: u64) < 18446744073709551616"
proof -
  have "unat w < 2 ^ LENGTH(8)" "unat w16 < 2 ^ LENGTH(16)"
    "unat w32 < 2 ^ LENGTH(32)" "unat w64 < 2 ^ LENGTH(64)"
    by (rule unsigned_less)+
  then show "unat w < 256" "unat w16 < 65536" "unat w32 < 4294967296"
    "unat w64 < 18446744073709551616"
    by simp_all
qed

lemma unat_u16_of_nat: "n < 65536 \<Longrightarrow> unat (word_of_nat n :: u16) = n"
  and unat_u32_of_nat: "n < 4294967296 \<Longrightarrow> unat (word_of_nat n :: u32) = n"
  and unat_u64_of_nat: "n < 18446744073709551616 \<Longrightarrow> unat (word_of_nat n :: u64) = n"
  by (simp_all add: unat_of_nat)

subsection \<open>Exceptions\<close>

text \<open>
  The handlers of the program distinguish \<open>json::exception\<close>, \<open>std::out_of_range\<close> and any other
  \<open>std::exception\<close>. \<open>Undefined\<close> stands for undefined behaviour of the C++ code (a missing key
  under the const \<open>operator[]\<close> of the JSON library, locking a mutex the thread already owns): no
  handler of the program can catch it.
\<close>

datatype exc = Json_Exc string | Out_Of_Range string | Std_Exc string | Undefined

fun what :: "exc \<Rightarrow> string" where
  "what (Json_Exc s) = s"
| "what (Out_Of_Range s) = s"
| "what (Std_Exc s) = s"
| "what Undefined = ''''"

type_synonym 'a res = "exc + 'a"

definition bnd :: "'a res \<Rightarrow> ('a \<Rightarrow> 'b res) \<Rightarrow> 'b res" where
  "bnd r f = (case r of Inl e \<Rightarrow> Inl e | Inr x \<Rightarrow> f x)"

lemma bnd_simps [simp, res_simps]:
  "bnd (Inl e) f = Inl e" "bnd (Inr x) f = f x"
  by (simp_all add: bnd_def)

lemma bnd_eq_Inr [simp, res_simps]:
  "bnd r f = Inr y \<longleftrightarrow> (\<exists>x. r = Inr x \<and> f x = Inr y)"
  "Inr y = bnd r f \<longleftrightarrow> (\<exists>x. r = Inr x \<and> f x = Inr y)"
  by (cases r; auto simp: bnd_def)+

lemma bnd_eq_Inl:
  "bnd r f = Inl e \<longleftrightarrow> r = Inl e \<or> (\<exists>x. r = Inr x \<and> f x = Inl e)"
  by (cases r) (auto simp: bnd_def)

lemma bnd_cong [fundef_cong]:
  "r = r' \<Longrightarrow> (\<And>x. r' = Inr x \<Longrightarrow> f x = g x) \<Longrightarrow> bnd r f = bnd r' g"
  by (cases r') (auto simp: bnd_def)

text \<open>\<open>catch (const std::exception& e)\<close>: every exception but undefined behaviour.\<close>

definition catch_std :: "'a res \<Rightarrow> (exc \<Rightarrow> 'a res) \<Rightarrow> 'a res" where
  "catch_std r h =
     (case r of Inr x \<Rightarrow> Inr x | Inl e \<Rightarrow> (if e = Undefined then Inl Undefined else h e))"

lemma catch_std_simps [simp, res_simps]:
  "catch_std (Inr x) h = Inr x"
  "catch_std (Inl Undefined) h = Inl Undefined"
  "e \<noteq> Undefined \<Longrightarrow> catch_std (Inl e) h = h e"
  by (simp_all add: catch_std_def)

text \<open>A range-for loop whose body appends one element per iteration and may throw.\<close>

fun traverse :: "('a \<Rightarrow> 'b res) \<Rightarrow> 'a list \<Rightarrow> 'b list res" where
  "traverse f [] = Inr []"
| "traverse f (x # xs) = bnd (f x) (\<lambda>y. bnd (traverse f xs) (\<lambda>ys. Inr (y # ys)))"

lemma traverse_map:
  "(\<And>x. x \<in> set xs \<Longrightarrow> f (g x) = Inr (h x)) \<Longrightarrow> traverse f (map g xs) = Inr (map h xs)"
  by (induction xs) auto

lemma traverse_Inr_length: "traverse f xs = Inr ys \<Longrightarrow> length ys = length xs"
  by (induction xs arbitrary: ys) auto

text \<open>A loop that threads an accumulator through a body that may throw.\<close>

fun fold_res :: "('a \<Rightarrow> 's \<Rightarrow> 's res) \<Rightarrow> 'a list \<Rightarrow> 's \<Rightarrow> 's res" where
  "fold_res f [] s = Inr s"
| "fold_res f (x # xs) s = bnd (f x s) (fold_res f xs)"

lemma fold_res_append:
  "fold_res f (xs @ ys) s = bnd (fold_res f xs s) (fold_res f ys)"
  by (induction xs arbitrary: s) (auto simp: bnd_def split: sum.splits)

lemma fold_res_collect:
  "(\<And>x acc. x \<in> set xs \<Longrightarrow> f (h x) acc = Inr (acc @ [g x])) \<Longrightarrow>
   fold_res f (map h xs) acc = Inr (acc @ map g xs)"
  by (induction xs arbitrary: acc) auto

text \<open>The first match of a scan, the shape of every \<open>find_if\<close> and \<open>LIMIT 1\<close> of the program.\<close>

lemma find_append:
  "find P (xs @ ys) = (case find P xs of None \<Rightarrow> find P ys | Some x \<Rightarrow> Some x)"
  by (induction xs) auto

lemma find_map: "find P (map f xs) = map_option f (find (P \<circ> f) xs)"
  by (induction xs) auto

lemma find_SomeD: "find P xs = Some x \<Longrightarrow> x \<in> set xs \<and> P x"
  by (auto simp: find_Some_iff)

lemma find_key_distinct:
  assumes "distinct (map f xs)" "x \<in> set xs"
  shows "find (\<lambda>y. f y = f x) xs = Some x"
  using assms by (induction xs) auto

lemma take_1_filter: "take 1 (filter P xs) = (case find P xs of None \<Rightarrow> [] | Some x \<Rightarrow> [x])"
  by (induction xs) auto

lemmas take_Suc0_filter = take_1_filter [unfolded One_nat_def]

subsection \<open>Bytes and C strings\<close>

text \<open>
  \<open>c_str\<close> is what is left of a string that passes through a NUL-terminated \<open>const char*\<close>.
\<close>

definition c_str :: "string \<Rightarrow> string" where
  "c_str s = takeWhile (\<lambda>c. c \<noteq> CHR 0x00) s"

lemma c_str_id [simp]: "CHR 0x00 \<notin> set s \<Longrightarrow> c_str s = s"
  by (auto simp: c_str_def takeWhile_eq_all_conv)

lemma c_str_no_nul [simp]: "CHR 0x00 \<notin> set (c_str s)"
  by (auto simp: c_str_def dest: set_takeWhileD)

lemma c_str_idem [simp]: "c_str (c_str s) = c_str s"
  by simp

lemma c_str_Nil [simp]: "c_str [] = []"
  by (simp add: c_str_def)

lemma c_str_after_nul: "CHR 0x00 \<notin> set s \<Longrightarrow> c_str (s @ CHR 0x00 # t) = s"
  by (auto simp: c_str_def takeWhile_tail takeWhile_eq_all_conv)

definition bytes_of_string :: "string \<Rightarrow> bytes" where
  "bytes_of_string s = map (\<lambda>c. word_of_nat (of_char c)) s"

definition string_of_bytes :: "bytes \<Rightarrow> string" where
  "string_of_bytes bs = map (\<lambda>b. char_of (unat b)) bs"

lemma unat_of_char: "unat (word_of_nat (of_char c) :: u8) = of_char c"
  by (simp add: unat_of_nat)

lemma string_of_bytes_of_string [simp]: "string_of_bytes (bytes_of_string s) = s"
  by (induction s) (simp_all add: bytes_of_string_def string_of_bytes_def unat_of_char)

lemma bytes_of_string_of_bytes [simp]: "bytes_of_string (string_of_bytes bs) = bs"
proof -
  have "(word_of_nat (of_char (char_of (unat b) :: char)) :: u8) = b" for b :: u8
    using unat_u8_bound [of b] by simp
  then show ?thesis
    by (simp add: bytes_of_string_def string_of_bytes_def comp_def)
qed

lemma length_bytes_of_string [simp]: "length (bytes_of_string s) = length s"
  by (simp add: bytes_of_string_def)

lemma bytes_of_string_inj: "bytes_of_string s = bytes_of_string t \<longleftrightarrow> s = t"
  by (metis string_of_bytes_of_string)

end
