(* ===== verification/DC_Text.thy ===== *)
theory DC_Text
  imports DC_Prelude
begin

text \<open>
  The numeric conversions of the C++ standard library the program calls: \<open>std::to_string\<close>,
  \<open>std::stoull\<close>, \<open>std::stoul\<close>, \<open>std::stoi\<close>, and the string searches \<open>find\<close>,
  \<open>find_first_not_of\<close>, \<open>find_last_not_of\<close> and \<open>substr\<close>. The texts of the library's exceptions are
  those of libstdc++ (the MinGW toolchain of the build scripts); \<open>unsigned long\<close> is 32 bits wide,
  as on Windows.
\<close>

subsection \<open>Printing\<close>

definition digit_char :: "nat \<Rightarrow> char" where
  "digit_char d = (if d < 10 then char_of (48 + d) else char_of (87 + d))"

fun to_string :: "nat \<Rightarrow> string" where
  "to_string n =
     (if n < 10 then [digit_char n] else to_string (n div 10) @ [digit_char (n mod 10)])"

declare to_string.simps [simp del]

subsection \<open>Parsing\<close>

definition digit_val :: "char \<Rightarrow> nat option" where
  "digit_val c =
     (let n = (of_char c :: nat) in
      if 48 \<le> n \<and> n \<le> 57 then Some (n - 48)
      else if 97 \<le> n \<and> n \<le> 122 then Some (n - 87)
      else if 65 \<le> n \<and> n \<le> 90 then Some (n - 55)
      else None)"

definition is_digit_in :: "nat \<Rightarrow> char \<Rightarrow> bool" where
  "is_digit_in base c = (case digit_val c of None \<Rightarrow> False | Some d \<Rightarrow> d < base)"

definition c_isspace :: "char \<Rightarrow> bool" where
  "c_isspace c = (let n = (of_char c :: nat) in n = 32 \<or> (9 \<le> n \<and> n \<le> 13))"

fun eval_digits :: "nat \<Rightarrow> nat \<Rightarrow> string \<Rightarrow> nat" where
  "eval_digits base acc [] = acc"
| "eval_digits base acc (c # cs) =
     eval_digits base (base * acc + (case digit_val c of None \<Rightarrow> 0 | Some d \<Rightarrow> d)) cs"

text \<open>
  The subject sequence of \<open>strtoull\<close> and its kin: white space, an optional sign, for base 16 an
  optional \<open>0x\<close> that a digit follows, then the longest run of digits. \<open>None\<close> if there is no digit.
\<close>

fun skip_hex_prefix :: "nat \<Rightarrow> string \<Rightarrow> string" where
  "skip_hex_prefix base (z # x # d # cs) =
     (if base = 16 \<and> z = CHR ''0'' \<and> (x = CHR ''x'' \<or> x = CHR ''X'') \<and> is_digit_in 16 d
      then d # cs else z # x # d # cs)"
| "skip_hex_prefix base cs = cs"

definition split_sign :: "string \<Rightarrow> bool \<times> string" where
  "split_sign s =
     (case s of
        [] \<Rightarrow> (False, [])
      | c # cs \<Rightarrow> if c = CHR ''-'' then (True, cs)
                 else if c = CHR ''+'' then (False, cs) else (False, c # cs))"

definition strto :: "nat \<Rightarrow> string \<Rightarrow> (bool \<times> nat) option" where
  "strto base s =
     (let (neg, t) = split_sign (dropWhile c_isspace s);
          ds = takeWhile (is_digit_in base) (skip_hex_prefix base t)
      in if ds = [] then None else Some (neg, eval_digits base 0 ds))"

text \<open>
  The unsigned conversions accept a minus sign and return the wrapped value; a magnitude that does
  not fit the type is \<open>std::out_of_range\<close>, a string without digits \<open>std::invalid_argument\<close>.
\<close>

definition stou :: "nat \<Rightarrow> string \<Rightarrow> string \<Rightarrow> nat res" where
  "stou width name s =
     (case strto 10 (c_str s) of
        None \<Rightarrow> Inl (Std_Exc name)
      | Some (neg, n) \<Rightarrow>
          if n \<ge> 2 ^ width then Inl (Out_Of_Range name)
          else Inr (if neg then (2 ^ width - n) mod 2 ^ width else n))"

definition stoull :: "string \<Rightarrow> nat res" where
  "stoull = stou 64 ''stoull''"

definition stoul :: "string \<Rightarrow> nat res" where
  "stoul = stou 32 ''stoul''"

definition stoi_base :: "nat \<Rightarrow> string \<Rightarrow> int res" where
  "stoi_base base s =
     (case strto base (c_str s) of
        None \<Rightarrow> Inl (Std_Exc ''stoi'')
      | Some (neg, n) \<Rightarrow>
          let v = (if neg then - int n else int n)
          in if v < - (2 ^ 31) \<or> 2 ^ 31 \<le> v then Inl (Out_Of_Range ''stoi'') else Inr v)"

definition stoi :: "string \<Rightarrow> int res" where
  "stoi = stoi_base 10"

subsection \<open>Searching\<close>

text \<open>\<open>std::string::npos\<close> is \<open>None\<close>.\<close>

fun find_char :: "char \<Rightarrow> string \<Rightarrow> nat option" where
  "find_char c [] = None"
| "find_char c (x # xs) = (if x = c then Some 0 else map_option Suc (find_char c xs))"

definition find_from :: "char \<Rightarrow> nat \<Rightarrow> string \<Rightarrow> nat option" where
  "find_from c start s = map_option ((+) start) (find_char c (drop start s))"

fun find_first_not_of :: "string \<Rightarrow> string \<Rightarrow> nat option" where
  "find_first_not_of cs [] = None"
| "find_first_not_of cs (x # xs) =
     (if x \<in> set cs then map_option Suc (find_first_not_of cs xs) else Some 0)"

definition find_last_not_of :: "string \<Rightarrow> string \<Rightarrow> nat option" where
  "find_last_not_of cs s =
     map_option (\<lambda>i. length s - 1 - i) (find_first_not_of cs (rev s))"

definition substr :: "nat \<Rightarrow> nat \<Rightarrow> string \<Rightarrow> string" where
  "substr start len s = take len (drop start s)"

subsection \<open>Facts about digits\<close>

lemma digit_val_char: "d < 16 \<Longrightarrow> digit_val (digit_char d) = Some d"
  by (auto simp: digit_val_def digit_char_def Let_def)

lemma digit_char_props:
  assumes "d < 16"
  shows "is_digit_in 16 (digit_char d)" "d < 10 \<Longrightarrow> is_digit_in 10 (digit_char d)"
    "\<not> c_isspace (digit_char d)" "digit_char d \<noteq> CHR ''-''" "digit_char d \<noteq> CHR ''+''"
    "digit_char d \<noteq> CHR 0x00" "digit_char d \<noteq> CHR ''|''" "digit_char d \<noteq> CHR ''x''"
    "digit_char d \<noteq> CHR ''X''"
proof -
  have v: "(of_char (digit_char d) :: nat) = (if d < 10 then 48 + d else 87 + d)"
    using assms by (simp add: digit_char_def)
  show "is_digit_in 16 (digit_char d)" "d < 10 \<Longrightarrow> is_digit_in 10 (digit_char d)"
    using assms by (simp_all add: is_digit_in_def digit_val_char)
  show "\<not> c_isspace (digit_char d)"
    by (simp add: c_isspace_def Let_def v)
  show "digit_char d \<noteq> CHR ''-''" "digit_char d \<noteq> CHR ''+''"
    "digit_char d \<noteq> CHR 0x00" "digit_char d \<noteq> CHR ''|''" "digit_char d \<noteq> CHR ''x''"
    "digit_char d \<noteq> CHR ''X''"
    using assms v by (auto split: if_splits)
qed

lemma to_string_digits: "\<forall>c \<in> set (to_string n). \<exists>d < 10. c = digit_char d"
proof (induction n rule: to_string.induct)
  case (1 n)
  show ?case
  proof (cases "n < 10")
    case False
    have "\<exists>d < 10. digit_char (n mod 10) = digit_char d"
      by (rule exI [of _ "n mod 10"]) simp
    with 1 False show ?thesis by (auto simp: to_string.simps [of n])
  qed (auto simp: to_string.simps [of n])
qed

lemma to_string_nonempty [simp]: "to_string n \<noteq> []"
  by (subst to_string.simps) simp

lemma to_string_is_digits: "c \<in> set (to_string n) \<Longrightarrow> is_digit_in 10 c"
  using to_string_digits digit_char_props(2) by fastforce

lemma to_string_range: "c \<in> set (to_string n) \<Longrightarrow> 48 \<le> (of_char c :: nat) \<and> (of_char c :: nat) \<le> 57"
proof -
  assume "c \<in> set (to_string n)"
  then obtain d where "d < 10" "c = digit_char d"
    using to_string_digits by blast
  then show ?thesis by (simp add: digit_char_def)
qed

lemma to_string_chars [simp]:
  "CHR 0x00 \<notin> set (to_string n)" "CHR ''|'' \<notin> set (to_string n)"
  "CHR '':'' \<notin> set (to_string n)"
  by (auto dest: to_string_range)

lemma eval_digits_append:
  "eval_digits base acc (xs @ ys) = eval_digits base (eval_digits base acc xs) ys"
  by (induction xs arbitrary: acc) auto

lemma eval_to_string: "eval_digits 10 0 (to_string n) = n"
proof (induction n rule: to_string.induct)
  case (1 n)
  then show ?case
    by (cases "n < 10")
       (auto simp: to_string.simps [of n] eval_digits_append digit_val_char)
qed

lemma to_string_inj: "to_string m = to_string n \<longleftrightarrow> m = n"
  by (metis eval_to_string)

lemma skip_hex_prefix_10 [simp]: "skip_hex_prefix 10 s = s"
  by (induction "10::nat" s rule: skip_hex_prefix.induct) auto

lemma split_sign_to_string: "split_sign (dropWhile c_isspace (to_string n)) = (False, to_string n)"
proof -
  obtain c cs where c: "to_string n = c # cs"
    by (cases "to_string n") auto
  then obtain d where "d < 10" "c = digit_char d"
    using to_string_digits [of n] by auto
  then show ?thesis
    using digit_char_props(3,4,5) [of d] by (simp add: c split_sign_def)
qed

lemma strto_to_string: "strto 10 (to_string n) = Some (False, n)"
proof -
  have "takeWhile (is_digit_in 10) (to_string n) = to_string n"
    by (simp add: takeWhile_eq_all_conv to_string_is_digits)
  then show ?thesis
    by (simp only: strto_def split_sign_to_string eval_to_string Let_def prod.case skip_hex_prefix_10)
       simp
qed

lemma stoull_to_string [simp]: "n < 2 ^ 64 \<Longrightarrow> stoull (to_string n) = Inr n"
  by (simp add: stoull_def stou_def strto_to_string)

lemma stoul_to_string [simp]: "n < 2 ^ 32 \<Longrightarrow> stoul (to_string n) = Inr n"
  by (simp add: stoul_def stou_def strto_to_string)

lemma stoi_to_string [simp]: "n < 2 ^ 31 \<Longrightarrow> stoi (to_string n) = Inr (int n)"
  by (simp add: stoi_def stoi_base_def strto_to_string Let_def)

lemma find_char_Some:
  "find_char c s = Some i \<longleftrightarrow> i < length s \<and> s ! i = c \<and> c \<notin> set (take i s)"
proof (induction s arbitrary: i)
  case (Cons x xs)
  then show ?case by (cases i) auto
qed simp

lemma find_char_None: "find_char c s = None \<longleftrightarrow> c \<notin> set s"
  by (induction s) auto

lemma find_char_append: "c \<notin> set s \<Longrightarrow> find_char c (s @ c # t) = Some (length s)"
  by (induction s) auto

end
