(* ===== verification/DC_Json.thy ===== *)
theory DC_Json
  imports DC_Text "HOL-Library.AList"
begin

text \<open>
  The interface of the JSON library (nlohmann::json, a third-party package) as a record of the
  operations the program calls. Nothing is assumed of them in the definitions; \<open>json_laws\<close> states
  the documented behaviour the proofs rely on, and \<open>jv_lib\<close> is a concrete value that satisfies it.
\<close>

record 'j json_lib =
  json_null :: 'j                                   \<comment> \<open>\<open>json j;\<close>\<close>
  json_of_string :: "string \<Rightarrow> 'j"
  json_of_uint :: "nat \<Rightarrow> 'j"                       \<comment> \<open>from an unsigned integer\<close>
  json_array :: "'j list \<Rightarrow> 'j"                     \<comment> \<open>\<open>json::array()\<close> and \<open>push_back\<close> of each element\<close>
  json_set :: "'j \<Rightarrow> string \<Rightarrow> 'j \<Rightarrow> 'j"           \<comment> \<open>\<open>j[k] = v\<close>\<close>
  json_ref :: "'j \<Rightarrow> string \<Rightarrow> 'j"                 \<comment> \<open>\<open>j[k]\<close> on a non-const value: null if missing\<close>
  json_at :: "'j \<Rightarrow> string \<Rightarrow> 'j res"              \<comment> \<open>\<open>j[k]\<close> on a const value\<close>
  json_contains :: "'j \<Rightarrow> string \<Rightarrow> bool"
  json_is_object :: "'j \<Rightarrow> bool"
  json_is_array :: "'j \<Rightarrow> bool"
  json_is_string :: "'j \<Rightarrow> bool"
  json_elems :: "'j \<Rightarrow> 'j list"                     \<comment> \<open>iteration\<close>
  json_items :: "'j \<Rightarrow> (string \<times> 'j) list res"     \<comment> \<open>iteration with keys\<close>
  json_get_string :: "'j \<Rightarrow> string res"             \<comment> \<open>\<open>get<std::string>()\<close>\<close>
  json_get_uint :: "nat \<Rightarrow> 'j \<Rightarrow> nat res"           \<comment> \<open>\<open>get<T>()\<close>, \<open>T\<close> unsigned of that many bits\<close>
  json_eq_string :: "'j \<Rightarrow> string \<Rightarrow> bool"         \<comment> \<open>\<open>j == s\<close>\<close>
  json_dump :: "'j \<Rightarrow> string res"
  json_pretty :: "'j \<Rightarrow> string res"                \<comment> \<open>\<open>std::setw(4) << j\<close>\<close>
  json_parse :: "string \<Rightarrow> 'j res"

text \<open>The two shapes \<open>j[k].get<T>()\<close> of the code.\<close>

definition get_str :: "('j, 'x) json_lib_scheme \<Rightarrow> 'j \<Rightarrow> string \<Rightarrow> string res" where
  "get_str J j k = bnd (json_at J j k) (json_get_string J)"

definition get_uint :: "('j, 'x) json_lib_scheme \<Rightarrow> nat \<Rightarrow> 'j \<Rightarrow> string \<Rightarrow> nat res" where
  "get_uint J w j k = bnd (json_at J j k) (json_get_uint J w)"

subsection \<open>Documented behaviour\<close>

definition objlike :: "('j, 'x) json_lib_scheme \<Rightarrow> 'j \<Rightarrow> bool" where
  "objlike J j \<longleftrightarrow> j = json_null J \<or> json_is_object J j"

definition json_laws :: "('j, 'x) json_lib_scheme \<Rightarrow> bool" where
  "json_laws J \<longleftrightarrow>
     (\<forall>j k v. objlike J j \<longrightarrow> json_is_object J (json_set J j k v)) \<and>
     (\<forall>j k v. objlike J j \<longrightarrow> json_at J (json_set J j k v) k = Inr v) \<and>
     (\<forall>j k k' v. objlike J j \<longrightarrow> json_contains J j k' \<longrightarrow> k \<noteq> k' \<longrightarrow>
        json_at J (json_set J j k v) k' = json_at J j k') \<and>
     (\<forall>j k k' v. objlike J j \<longrightarrow>
        json_contains J (json_set J j k v) k' = (k = k' \<or> json_contains J j k')) \<and>
     (\<forall>k. \<not> json_contains J (json_null J) k) \<and>
     (\<forall>j k. json_contains J j k \<longrightarrow> json_at J j k = Inr (json_ref J j k)) \<and>
     (\<forall>j k. objlike J j \<longrightarrow> \<not> json_contains J j k \<longrightarrow> json_ref J j k = json_null J) \<and>
     (\<forall>j k. json_is_object J j \<longrightarrow> \<not> json_contains J j k \<longrightarrow> json_at J j k = Inl Undefined) \<and>
     (\<forall>s. json_get_string J (json_of_string J s) = Inr s) \<and>
     (\<forall>w n. n < 2 ^ 64 \<longrightarrow> json_get_uint J w (json_of_uint J n) = Inr (n mod 2 ^ w)) \<and>
     (\<forall>w j n. json_get_uint J w j = Inr n \<longrightarrow> n < 2 ^ w) \<and>
     (\<forall>js. json_is_array J (json_array J js) \<and> json_elems J (json_array J js) = js) \<and>
     (\<forall>s t. json_eq_string J (json_of_string J s) t = (s = t))"

text \<open>
  Text: what \<open>dump\<close> writes, \<open>parse\<close> reads back; control characters, the NUL among them, are written
  as escapes.
\<close>

definition json_text_laws :: "('j, 'x) json_lib_scheme \<Rightarrow> bool" where
  "json_text_laws J \<longleftrightarrow> 
     (\<forall>j s. json_dump J j = Inr s \<longrightarrow> json_parse J s = Inr j \<and> CHR 0x00 \<notin> set s) \<and>
     (\<forall>j s. json_pretty J j = Inr s \<longrightarrow> json_parse J s = Inr j)"

text \<open>
  Iteration with keys goes over the members of an object, each once; strings, and no arrays, are
  strings.
\<close>

definition json_item_laws :: "('j, 'x) json_lib_scheme \<Rightarrow> bool" where
  "json_item_laws J \<longleftrightarrow>
     (\<forall>j. json_is_object J j \<longrightarrow> (\<exists>its. json_items J j = Inr its \<and> distinct (map fst its) \<and>
        (\<forall>k v. (k, v) \<in> set its \<longleftrightarrow> json_contains J j k \<and> json_at J j k = Inr v))) \<and>
     (\<forall>s. json_is_string J (json_of_string J s)) \<and> (\<forall>js. \<not> json_is_string J (json_array J js))"

text \<open>Each law under its own name, with \<open>json_laws J\<close> as the first premise.\<close>

lemmas json_lawsD = json_laws_def [THEN iffD1]

lemmas json_set_object = json_lawsD
  [THEN conjunct1, rule_format]
lemmas json_at_set_same = json_lawsD
  [THEN conjunct2, THEN conjunct1, rule_format]
lemmas json_at_set_other = json_lawsD
  [THEN conjunct2, THEN conjunct2, THEN conjunct1, rule_format]
lemmas json_contains_set = json_lawsD
  [THEN conjunct2, THEN conjunct2, THEN conjunct2, THEN conjunct1, rule_format]
lemmas json_contains_null = json_lawsD
  [THEN conjunct2, THEN conjunct2, THEN conjunct2, THEN conjunct2, THEN conjunct1,
   rule_format]
lemmas json_at_ref = json_lawsD
  [THEN conjunct2, THEN conjunct2, THEN conjunct2, THEN conjunct2, THEN conjunct2, THEN
   conjunct1, rule_format]
lemmas json_ref_missing = json_lawsD
  [THEN conjunct2, THEN conjunct2, THEN conjunct2, THEN conjunct2, THEN conjunct2, THEN
   conjunct2, THEN conjunct1, rule_format]
lemmas json_at_missing = json_lawsD
  [THEN conjunct2, THEN conjunct2, THEN conjunct2, THEN conjunct2, THEN conjunct2, THEN
   conjunct2, THEN conjunct2, THEN conjunct1, rule_format]
lemmas json_get_string_of = json_lawsD
  [THEN conjunct2, THEN conjunct2, THEN conjunct2, THEN conjunct2, THEN conjunct2, THEN
   conjunct2, THEN conjunct2, THEN conjunct2, THEN conjunct1, rule_format]
lemmas json_get_uint_of = json_lawsD
  [THEN conjunct2, THEN conjunct2, THEN conjunct2, THEN conjunct2, THEN conjunct2, THEN
   conjunct2, THEN conjunct2, THEN conjunct2, THEN conjunct2, THEN conjunct1, rule_format]
lemmas json_get_uint_bound = json_lawsD
  [THEN conjunct2, THEN conjunct2, THEN conjunct2, THEN conjunct2, THEN conjunct2, THEN
   conjunct2, THEN conjunct2, THEN conjunct2, THEN conjunct2, THEN conjunct2, THEN
   conjunct1, rule_format]
lemmas json_array_of = json_lawsD
  [THEN conjunct2, THEN conjunct2, THEN conjunct2, THEN conjunct2, THEN conjunct2, THEN
   conjunct2, THEN conjunct2, THEN conjunct2, THEN conjunct2, THEN conjunct2, THEN
   conjunct2, THEN conjunct1, rule_format]
lemmas json_eq_string_of = json_lawsD
  [THEN conjunct2, THEN conjunct2, THEN conjunct2, THEN conjunct2, THEN conjunct2, THEN
   conjunct2, THEN conjunct2, THEN conjunct2, THEN conjunct2, THEN conjunct2, THEN
   conjunct2, THEN conjunct2, rule_format]

lemma json_null_objlike [simp]: "objlike J (json_null J)"
  by (simp add: objlike_def)

lemma json_set_objlike: "json_laws J \<Longrightarrow> objlike J j \<Longrightarrow> objlike J (json_set J j k v)"
  by (simp add: json_set_object objlike_def [of J "json_set J j k v"])

lemma json_is_array_of: "json_laws J \<Longrightarrow> json_is_array J (json_array J js)"
  and json_elems_of: "json_laws J \<Longrightarrow> json_elems J (json_array J js) = js"
  by (simp_all add: json_array_of)

lemma json_ref_set_same:
  assumes "json_laws J" "objlike J j"
  shows "json_ref J (json_set J j k v) k = v"
  using json_at_ref [OF assms(1)] json_at_set_same [OF assms] json_contains_set [OF assms]
  by (metis sum.inject(2))

lemma json_ref_set_other:
  assumes "json_laws J" "objlike J j" "k \<noteq> k'"
  shows "json_ref J (json_set J j k v) k' = json_ref J j k'"
proof (cases "json_contains J j k'")
  case True
  with assms have "Inr (json_ref J (json_set J j k v) k') = json_at J (json_set J j k v) k'"
    by (simp add: json_at_ref [OF assms(1)] json_contains_set [OF assms(1)])
  also have "\<dots> = Inr (json_ref J j k')"
    using True assms by (simp add: json_at_set_other [OF assms(1)] json_at_ref [OF assms(1)])
  finally show ?thesis by simp
next
  case False
  with assms show ?thesis
    by (simp add: json_ref_missing [OF assms(1)] json_contains_set [OF assms(1)]
        json_set_objlike [OF assms(1)])
qed

lemmas json_simps =
  json_set_object json_set_objlike json_at_set_same json_at_set_other
  json_contains_set json_contains_null json_ref_set_same json_ref_set_other json_ref_missing
  json_get_string_of json_get_uint_of json_is_array_of json_elems_of json_eq_string_of

subsection \<open>A concrete instance\<close>

text \<open>
  The JSON values the program builds, with objects as association lists; it shows that the laws
  can hold and is what the witnesses evaluate.
\<close>

datatype jv = JNull | JStr string | JNum nat | JArr "jv list" | JObj "(string \<times> jv) list"

fun jv_fields :: "jv \<Rightarrow> (string \<times> jv) list" where
  "jv_fields (JObj kvs) = kvs"
| "jv_fields _ = []"

fun jv_set :: "jv \<Rightarrow> string \<Rightarrow> jv \<Rightarrow> jv" where
  "jv_set (JObj kvs) k v = JObj ((k, v) # filter (\<lambda>p. fst p \<noteq> k) kvs)"
| "jv_set JNull k v = JObj [(k, v)]"
| "jv_set j k v = j"

fun jv_at :: "jv \<Rightarrow> string \<Rightarrow> jv res" where
  "jv_at (JObj kvs) k = (case map_of kvs k of Some v \<Rightarrow> Inr v | None \<Rightarrow> Inl Undefined)"
| "jv_at _ k = Inl (Json_Exc ''type_error.305'')"

definition jv_ref :: "jv \<Rightarrow> string \<Rightarrow> jv" where
  "jv_ref j k = (case map_of (jv_fields j) k of Some v \<Rightarrow> v | None \<Rightarrow> JNull)"

definition jv_contains :: "jv \<Rightarrow> string \<Rightarrow> bool" where
  "jv_contains j k = (map_of (jv_fields j) k \<noteq> None)"

fun jv_get_string :: "jv \<Rightarrow> string res" where
  "jv_get_string (JStr s) = Inr s"
| "jv_get_string _ = Inl (Json_Exc ''type_error.302'')"

fun jv_get_uint :: "nat \<Rightarrow> jv \<Rightarrow> nat res" where
  "jv_get_uint w (JNum n) = Inr (n mod 2 ^ w)"
| "jv_get_uint w _ = Inl (Json_Exc ''type_error.302'')"

fun jv_elems :: "jv \<Rightarrow> jv list" where
  "jv_elems (JArr js) = js"
| "jv_elems _ = []"

definition jv_lib :: "jv json_lib" where
  "jv_lib = \<lparr> json_null = JNull, json_of_string = JStr, json_of_uint = JNum, json_array = JArr,
     json_set = jv_set, json_ref = jv_ref, json_at = jv_at, json_contains = jv_contains,
     json_is_object = (\<lambda>j. case j of JObj _ \<Rightarrow> True | _ \<Rightarrow> False),
     json_is_array = (\<lambda>j. case j of JArr _ \<Rightarrow> True | _ \<Rightarrow> False),
     json_is_string = (\<lambda>j. case j of JStr _ \<Rightarrow> True | _ \<Rightarrow> False),
     json_elems = jv_elems, json_items = (\<lambda>j. Inr (AList.clearjunk (jv_fields j))),
     json_get_string = jv_get_string, json_get_uint = jv_get_uint,
     json_eq_string = (\<lambda>j s. j = JStr s),
     json_dump = (\<lambda>j. Inl (Json_Exc ''no text'')), json_pretty = (\<lambda>j. Inl (Json_Exc ''no text'')),
     json_parse = (\<lambda>s. Inl (Json_Exc ''no text'')) \<rparr>"

lemma map_of_filter_ne: "k \<noteq> k' \<Longrightarrow> map_of (filter (\<lambda>p. fst p \<noteq> k) kvs) k' = map_of kvs k'"
  by (induction kvs) auto

lemma jv_get_uint_bound: "jv_get_uint w j = Inr n \<Longrightarrow> n < 2 ^ w"
  by (cases j) auto

lemma jv_at_fields: "map_of (jv_fields j) k = Some v \<Longrightarrow> jv_at j k = Inr v"
  by (cases j) auto

lemma jv_laws: "json_laws jv_lib"
  unfolding json_laws_def objlike_def jv_lib_def
  by (auto simp: jv_contains_def jv_ref_def map_of_filter_ne jv_get_uint_bound jv_at_fields
      split: jv.splits option.splits)

lemma jv_text_laws: "json_text_laws jv_lib"
  by (simp add: json_text_laws_def jv_lib_def)

end
