(* ===== verification/DC_Peer.thy ===== *)
theory DC_Peer
  imports DC_Json
begin

text \<open>
  \<open>peer::UserHost\<close>, \<open>peer::UserPeer\<close> (src/domain/peer/UserPeer.hpp, UserPeer.cpp) and the in-memory
  half of \<open>peer::PeerService\<close> (src/domain/peer/PeerService.cpp): the trusted hosts of the
  configuration and the list of connected peers.
\<close>

record user_host =
  host :: string
  port :: u16

record user_peer = user_host +
  publicKey :: string

definition UserPeer :: "string \<Rightarrow> u16 \<Rightarrow> string \<Rightarrow> user_peer" where
  "UserPeer h p k = \<lparr> host = h, port = p, publicKey = k \<rparr>"

definition UserPeer_default :: user_peer where
  "UserPeer_default = UserPeer '''' 0 ''''"

definition UserPeer_of_json :: "('j, 'x) json_lib_scheme \<Rightarrow> 'j \<Rightarrow> user_peer res" where
  "UserPeer_of_json J jData =
     bnd (get_str J jData ''host'') (\<lambda>h.
     bnd (get_uint J 16 jData ''port'') (\<lambda>p.
     bnd (get_str J jData ''public_key'') (\<lambda>k.
       Inr (UserPeer h (word_of_nat p) k))))"

definition UserPeer_toJson :: "('j, 'x) json_lib_scheme \<Rightarrow> user_peer \<Rightarrow> 'j" where
  "UserPeer_toJson J p =
     (let jData = json_null J;
          jData = json_set J jData ''port'' (json_of_uint J (unat (port p)));
          jData = json_set J jData ''host'' (json_of_string J (host p));
          jData = json_set J jData ''public_key'' (json_of_string J (publicKey p))
      in jData)"

definition peer_eq :: "user_peer \<Rightarrow> user_peer \<Rightarrow> bool" where
  "peer_eq a b \<longleftrightarrow> port a = port b \<and> host a = host b \<and> publicKey a = publicKey b"

lemma peer_eq_iff [simp]: "peer_eq a b \<longleftrightarrow> a = b"
  by (cases a; cases b) (auto simp: peer_eq_def)

lemma UserPeer_json_roundtrip_aux:
  assumes "json_laws J"
  shows "UserPeer_of_json J (UserPeer_toJson J p) = Inr p"
  using unat_u16_bound [of "port p"]
  by (cases p) (simp add: UserPeer_of_json_def UserPeer_toJson_def get_str_def get_uint_def Let_def
      UserPeer_def json_simps [OF assms])

subsection \<open>PeerService\<close>

record peer_service =
  hosts :: "user_host list"
  peers :: "user_peer list"

text \<open>The body of the constructor's loop: \<open>host:port\<close>, the port narrowed to 16 bits.\<close>

definition parse_host :: "string \<Rightarrow> user_host res" where
  "parse_host trustedPeer =
     (case find_char (CHR '':'') trustedPeer of
        None \<Rightarrow> Inl (Std_Exc (''Invalid peer format: '' @ trustedPeer))
      | Some sepPos \<Rightarrow>
          bnd (stoul (drop (sepPos + 1) trustedPeer)) (\<lambda>p.
            Inr \<lparr> host = take sepPos trustedPeer, port = word_of_nat p \<rparr>))"

definition PeerService :: "string list \<Rightarrow> peer_service res" where
  "PeerService hs = bnd (traverse parse_host hs) (\<lambda>l. Inr \<lparr> hosts = l, peers = [] \<rparr>)"

definition getHosts :: "peer_service \<Rightarrow> user_host list" where
  "getHosts ps = hosts ps"

definition getPeers :: "peer_service \<Rightarrow> user_peer list" where
  "getPeers ps = peers ps"

text \<open>An \<open>int\<close>; every caller converts it to \<open>unsigned int\<close>.\<close>

definition getPeersCount :: "peer_service \<Rightarrow> u32" where
  "getPeersCount ps = word_of_nat (length (peers ps))"

definition getPeer :: "nat \<Rightarrow> peer_service \<Rightarrow> user_peer res" where
  "getPeer index ps =
     (if index < length (peers ps) then Inr (peers ps ! index) else Inl (Out_Of_Range ''vector::at''))"

definition findPeer :: "user_host \<Rightarrow> peer_service \<Rightarrow> user_peer res" where
  "findPeer h ps =
     (case find (\<lambda>p. host p = host h \<and> port p = port h) (peers ps) of
        Some p \<Rightarrow> Inr p
      | None \<Rightarrow> Inl (Std_Exc ''Peer not found''))"

definition addPeer :: "user_peer \<Rightarrow> peer_service \<Rightarrow> peer_service" where
  "addPeer p ps =
     (case find (peer_eq p) (peers ps) of
        None \<Rightarrow> ps\<lparr>peers := peers ps @ [p]\<rparr>
      | Some _ \<Rightarrow> ps)"

definition removePeer :: "user_peer \<Rightarrow> peer_service \<Rightarrow> peer_service" where
  "removePeer p ps = ps\<lparr>peers := remove1 p (peers ps)\<rparr>"

subsection \<open>The list is a set\<close>

definition peers_inv :: "peer_service \<Rightarrow> bool" where
  "peers_inv ps \<longleftrightarrow> distinct (peers ps)"

lemma find_peer_eq: "find (peer_eq p) xs = None \<longleftrightarrow> p \<notin> set xs"
  by (auto simp: find_None_iff)

lemma addPeer_peers: "peers (addPeer p ps) = (if p \<in> set (peers ps) then peers ps else peers ps @ [p])"
  by (auto simp: addPeer_def find_peer_eq split: option.splits)
     (metis find_peer_eq option.distinct(1))

lemma addPeer_inv [intro]: "peers_inv ps \<Longrightarrow> peers_inv (addPeer p ps)"
  by (simp add: peers_inv_def addPeer_peers)

lemma removePeer_inv [intro]: "peers_inv ps \<Longrightarrow> peers_inv (removePeer p ps)"
  by (simp add: peers_inv_def removePeer_def)

lemma PeerService_inv: "PeerService hs = Inr ps \<Longrightarrow> peers_inv ps \<and> peers ps = []"
  by (auto simp: PeerService_def peers_inv_def)

lemma set_addPeer [simp]: "set (peers (addPeer p ps)) = insert p (set (peers ps))"
  by (auto simp: addPeer_peers)

lemma set_removePeer: "peers_inv ps \<Longrightarrow> set (peers (removePeer p ps)) = set (peers ps) - {p}"
  by (simp add: peers_inv_def removePeer_def)

lemma hosts_frame [simp]:
  "hosts (addPeer p ps) = hosts ps" "hosts (removePeer p ps) = hosts ps"
  by (auto simp: addPeer_def removePeer_def split: option.splits)

lemma parse_host_text:
  "CHR '':'' \<notin> set h \<Longrightarrow>
   parse_host (h @ '':'' @ to_string (unat p)) = Inr \<lparr> host = h, port = p \<rparr>"
  using unat_u16_bound [of p]
  by (simp add: parse_host_def find_char_append)

lemma findPeer_Inr:
  "findPeer h ps = Inr p \<Longrightarrow> p \<in> set (peers ps) \<and> host p = host h \<and> port p = port h"
  by (auto simp: findPeer_def find_Some_iff split: option.splits)

end
