(* ===== verification/DC_Hex.thy ===== *)
theory DC_Hex
  imports DC_Text
begin

text \<open>
  \<open>utils::toHex\<close>, \<open>utils::fromHex\<close> (src/utils/hex.hpp) and \<open>utils::sha256\<close> (src/utils/sha256.hpp).
  The digest function of OpenSSL is the parameter \<open>SHA256\<close>; where its documented digest size of 32
  bytes matters it is the hypothesis \<open>sha_len\<close>.
\<close>

text \<open>\<open>std::hex\<close> with \<open>setw(2)\<close> and \<open>setfill('0')\<close>: two lower-case digits per byte.\<close>

definition hex_byte :: "u8 \<Rightarrow> string" where
  "hex_byte b = [digit_char (unat b div 16), digit_char (unat b mod 16)]"

definition toHex :: "bytes \<Rightarrow> string" where
  "toHex data = concat (map hex_byte data)"

fun fromHex :: "string \<Rightarrow> bytes res" where
  "fromHex (a # b # rest) =
     bnd (stoi_base 16 [a, b]) (\<lambda>v. bnd (fromHex rest) (\<lambda>out. Inr (word_of_int v # out)))"
| "fromHex [a] = Inr []"
| "fromHex [] = Inr []"

definition sha256 :: "(bytes \<Rightarrow> bytes) \<Rightarrow> string \<Rightarrow> string" where
  "sha256 SHA256 data = toHex (SHA256 (bytes_of_string data))"

definition sha_len :: "(bytes \<Rightarrow> bytes) \<Rightarrow> bool" where
  "sha_len SHA256 \<longleftrightarrow> (\<forall>d. length (SHA256 d) = 32)"

subsection \<open>Round trip\<close>

lemma unat_u8_nibbles: "unat (b :: u8) div 16 < 16" "unat b mod 16 < 16"
proof -
  have "unat b < 2 ^ LENGTH(8)" by (rule unsigned_less)
  then show "unat b div 16 < 16" by simp
qed simp

lemma stoi_hex_digits:
  assumes "h < 16" "l < 16"
  shows "stoi_base 16 [digit_char h, digit_char l] = Inr (int (16 * h + l))"
proof -
  have "strto 16 [digit_char h, digit_char l] = Some (False, 16 * h + l)"
    using assms digit_char_props [of h] digit_char_props [of l]
    by (simp add: strto_def split_sign_def digit_val_char)
  then show ?thesis
    using assms digit_char_props(6) [of h] digit_char_props(6) [of l]
    by (simp add: stoi_base_def Let_def)
qed

lemma fromHex_hex_byte:
  "fromHex (hex_byte b @ s) = bnd (fromHex s) (\<lambda>out. Inr (b # out))"
proof -
  have "word_of_int (int (16 * (unat b div 16) + unat b mod 16)) = b"
    by simp
  then show ?thesis
    by (simp add: hex_byte_def stoi_hex_digits unat_u8_nibbles)
qed

lemma length_toHex [simp]: "length (toHex data) = 2 * length data"
  by (induction data) (auto simp: toHex_def hex_byte_def)

lemma toHex_chars:
  assumes "c \<in> set (toHex data)"
  shows "is_digit_in 16 c" "c \<noteq> CHR 0x00" "c \<noteq> CHR ''|''"
proof -
  from assms obtain b where "c \<in> set (hex_byte b)"
    by (auto simp: toHex_def)
  then have "c = digit_char (unat b div 16) \<or> c = digit_char (unat b mod 16)"
    by (simp add: hex_byte_def)
  then obtain d where "d < 16" "c = digit_char d"
    using unat_u8_nibbles [of b] by blast
  then show "is_digit_in 16 c" "c \<noteq> CHR 0x00" "c \<noteq> CHR ''|''"
    using digit_char_props [of d] by auto
qed

lemma toHex_no_nul [simp]: "CHR 0x00 \<notin> set (toHex data)" "CHR ''|'' \<notin> set (toHex data)"
  using toHex_chars by blast+

lemma sha256_facts [simp]:
  "CHR 0x00 \<notin> set (sha256 S d)" "CHR ''|'' \<notin> set (sha256 S d)"
  by (simp_all add: sha256_def)

lemma fromHex_toHex [simp]: "fromHex (toHex data) = Inr data"
proof (induction data)
  case (Cons b bs)
  have "toHex (b # bs) = hex_byte b @ toHex bs" by (simp add: toHex_def)
  with Cons show ?case by (simp add: fromHex_hex_byte)
qed (simp add: toHex_def)

lemma toHex_inj: "toHex a = toHex b \<longleftrightarrow> a = b"
  by (metis fromHex_toHex sum.inject(2))

lemma sha256_length: "sha_len S \<Longrightarrow> length (sha256 S d) = 64"
  by (simp add: sha256_def sha_len_def)

lemma sha256_not_genesis [simp]: "sha_len S \<Longrightarrow> sha256 S d \<noteq> ''0''"
  using sha256_length [of S d] by auto

end
