(* ===== verification/DC_Block.thy ===== *)
theory DC_Block
  imports DC_Hex DC_Json
begin

text \<open>
  \<open>blockchain::Block\<close> (src/domain/blockchain/Block.hpp, Block.cpp): the record, its canonical text,
  its hash and its JSON form.
\<close>

record block =
  hash :: string
  previousHash :: string
  payloadHash :: string
  authorPublicKey :: string
  signature :: string
  timestamp :: u64

text \<open>The default constructor; the hash \<open>"0"\<close> also stands for "before the first block".\<close>

definition Block :: block where
  "Block = \<lparr> hash = ''0'', previousHash = ''0'', payloadHash = ''0'', authorPublicKey = ''0'',
     signature = ''0'', timestamp = 0 \<rparr>"

definition Block_of_fields ::
  "string \<Rightarrow> string \<Rightarrow> string \<Rightarrow> string \<Rightarrow> string \<Rightarrow> u64 \<Rightarrow> block" where [simp]:
  "Block_of_fields h p ph a s t =
     \<lparr> hash = h, previousHash = p, payloadHash = ph, authorPublicKey = a, signature = s, timestamp = t \<rparr>"

definition Block_of_json :: "('j, 'x) json_lib_scheme \<Rightarrow> 'j \<Rightarrow> block res" where
  "Block_of_json J jData =
     bnd (get_str J jData ''hash'') (\<lambda>h.
     bnd (get_str J jData ''previousHash'') (\<lambda>p.
     bnd (get_str J jData ''payloadHash'') (\<lambda>ph.
     bnd (get_str J jData ''authorPubKey'') (\<lambda>a.
     bnd (get_str J jData ''signature'') (\<lambda>s.
     bnd (get_uint J 64 jData ''timestamp'') (\<lambda>t.
       Inr \<lparr> hash = h, previousHash = p, payloadHash = ph, authorPublicKey = a, signature = s,
             timestamp = word_of_nat t \<rparr>))))))"

definition toStringForHash :: "block \<Rightarrow> string" where
  "toStringForHash b =
     previousHash b @ ''|'' @ payloadHash b @ ''|'' @ authorPublicKey b @ ''|'' @
     to_string (unat (timestamp b))"

definition computeHash :: "(bytes \<Rightarrow> bytes) \<Rightarrow> block \<Rightarrow> block" where
  "computeHash SHA256 b = b\<lparr>hash := sha256 SHA256 (toStringForHash b)\<rparr>"

definition Block_toJson :: "('j, 'x) json_lib_scheme \<Rightarrow> block \<Rightarrow> 'j" where
  "Block_toJson J b =
     (let jData = json_null J;
          jData = json_set J jData ''previousHash'' (json_of_string J (previousHash b));
          jData = json_set J jData ''payloadHash'' (json_of_string J (payloadHash b));
          jData = json_set J jData ''authorPubKey'' (json_of_string J (authorPublicKey b));
          jData = json_set J jData ''signature'' (json_of_string J (signature b));
          jData = json_set J jData ''timestamp'' (json_of_uint J (unat (timestamp b)));
          jData = json_set J jData ''hash'' (json_of_string J (hash b))
      in jData)"

subsection \<open>Round trip and injectivity\<close>

lemma Block_json_roundtrip_aux:
  assumes "json_laws J"
  shows "Block_of_json J (Block_toJson J b) = Inr b"
  using unat_u64_bound [of "timestamp b"]
  by (simp add: Block_of_json_def Block_toJson_def get_str_def get_uint_def Let_def
      json_simps [OF assms])

lemma append_bar_inj:
  assumes "CHR ''|'' \<notin> set a" "CHR ''|'' \<notin> set c"
  shows "a @ ''|'' @ b = c @ ''|'' @ d \<longleftrightarrow> a = c \<and> b = d"
proof
  assume eq: "a @ ''|'' @ b = c @ ''|'' @ d"
  have "takeWhile (\<lambda>x. x \<noteq> CHR ''|'') (a @ ''|'' @ b) = a"
    "takeWhile (\<lambda>x. x \<noteq> CHR ''|'') (c @ ''|'' @ d) = c"
    using assms by (subst takeWhile_append2; auto)+
  with eq have "a = c" by simp
  with eq show "a = c \<and> b = d" by simp
qed simp

text \<open>Fields without the separator, as hexadecimal and base64 texts are.\<close>

definition bar_free :: "block \<Rightarrow> bool" where
  "bar_free b \<longleftrightarrow> CHR ''|'' \<notin> set (previousHash b) \<and> CHR ''|'' \<notin> set (payloadHash b) \<and>
     CHR ''|'' \<notin> set (authorPublicKey b)"

lemma toStringForHash_inj_aux:
  assumes "bar_free a" "bar_free b"
  shows "toStringForHash a = toStringForHash b \<longleftrightarrow>
    previousHash a = previousHash b \<and> payloadHash a = payloadHash b \<and>
    authorPublicKey a = authorPublicKey b \<and> timestamp a = timestamp b"
  using assms append_bar_inj
  by (simp add: toStringForHash_def bar_free_def to_string_inj word_unat_eq_iff)

lemma computeHash_fields [simp]:
  "previousHash (computeHash S b) = previousHash b" "payloadHash (computeHash S b) = payloadHash b"
  "authorPublicKey (computeHash S b) = authorPublicKey b"
  "signature (computeHash S b) = signature b" "timestamp (computeHash S b) = timestamp b"
  "hash (computeHash S b) = sha256 S (toStringForHash b)"
  by (simp_all add: computeHash_def)

lemma toStringForHash_update [simp]:
  "toStringForHash (b\<lparr>hash := h\<rparr>) = toStringForHash b"
  "toStringForHash (b\<lparr>signature := s\<rparr>) = toStringForHash b"
  by (simp_all add: toStringForHash_def)

end
