(* ===== verification/DC_Message.thy ===== *)
theory DC_Message
  imports DC_Peer DC_Block
begin

text \<open>
  The message classes: \<open>message::Message\<close> and \<open>MessageType\<close> (src/domain/message/Message.hpp, Message.cpp)
  and its plain subclasses (src/infra/message/*.cpp). A class is a record that extends \<open>message\<close>; its
  JSON constructor is \<open>X_of_json\<close>, its \<open>serialize\<close> is \<open>X_serialize\<close>, its static \<open>create\<close> is
  \<open>X_create\<close>, which takes the fresh \<open>uuidv4()\<close> and \<open>getTimestamp()\<close> as its first arguments.
\<close>

datatype MessageType =
    NONE | ERROR_RESPONSE | BLOCKCHAIN_ERROR_RESPONSE | CONNECT | CONNECT_RESPONSE | PEER_LIST
  | PEER_LIST_RESPONSE | BLOCK_RANGE_REQUEST | BLOCK_RANGE_RESPONSE | TEXT_MESSAGE
  | TEXT_MESSAGE_RESPONSE | DISCONNECT | DISCONNECT_RESPONSE

fun fromMessageTypeToString :: "MessageType \<Rightarrow> string" where
  "fromMessageTypeToString NONE = ''NONE''"
| "fromMessageTypeToString ERROR_RESPONSE = ''ERROR_RESPONSE''"
| "fromMessageTypeToString BLOCKCHAIN_ERROR_RESPONSE = ''BLOCKCHAIN_ERROR_RESPONSE''"
| "fromMessageTypeToString CONNECT = ''CONNECT''"
| "fromMessageTypeToString CONNECT_RESPONSE = ''CONNECT_RESPONSE''"
| "fromMessageTypeToString PEER_LIST = ''PEER_LIST''"
| "fromMessageTypeToString PEER_LIST_RESPONSE = ''PEER_LIST_RESPONSE''"
| "fromMessageTypeToString BLOCK_RANGE_REQUEST = ''BLOCK_RANGE_REQUEST''"
| "fromMessageTypeToString BLOCK_RANGE_RESPONSE = ''BLOCK_RANGE_RESPONSE''"
| "fromMessageTypeToString TEXT_MESSAGE = ''TEXT_MESSAGE''"
| "fromMessageTypeToString TEXT_MESSAGE_RESPONSE = ''TEXT_MESSAGE_RESPONSE''"
| "fromMessageTypeToString DISCONNECT = ''DISCONNECT''"
| "fromMessageTypeToString DISCONNECT_RESPONSE = ''DISCONNECT_RESPONSE''"

definition fromStringToMessageType :: "string \<Rightarrow> MessageType res" where
  "fromStringToMessageType type =
     (if type = ''NONE'' then Inr NONE
      else if type = ''ERROR_RESPONSE'' then Inr ERROR_RESPONSE
      else if type = ''BLOCKCHAIN_ERROR_RESPONSE'' then Inr BLOCKCHAIN_ERROR_RESPONSE
      else if type = ''CONNECT'' then Inr CONNECT
      else if type = ''CONNECT_RESPONSE'' then Inr CONNECT_RESPONSE
      else if type = ''PEER_LIST'' then Inr PEER_LIST
      else if type = ''PEER_LIST_RESPONSE'' then Inr PEER_LIST_RESPONSE
      else if type = ''BLOCK_RANGE_REQUEST'' then Inr BLOCK_RANGE_REQUEST
      else if type = ''BLOCK_RANGE_RESPONSE'' then Inr BLOCK_RANGE_RESPONSE
      else if type = ''TEXT_MESSAGE'' then Inr TEXT_MESSAGE
      else if type = ''TEXT_MESSAGE_RESPONSE'' then Inr TEXT_MESSAGE_RESPONSE
      else if type = ''DISCONNECT'' then Inr DISCONNECT
      else if type = ''DISCONNECT_RESPONSE'' then Inr DISCONNECT_RESPONSE
      else Inl (Std_Exc ''Unknown message type''))"

lemma message_type_roundtrip_aux [simp]:
  "fromStringToMessageType (fromMessageTypeToString t) = Inr t"
  by (cases t) (simp_all add: fromStringToMessageType_def)

lemma fromMessageTypeToString_inj [simp]:
  "fromMessageTypeToString a = fromMessageTypeToString b \<longleftrightarrow> a = b"
  by (metis message_type_roundtrip_aux sum.inject(2))

subsection \<open>Message\<close>

record message =
  m_id :: string
  m_type :: MessageType
  m_from :: user_peer
  m_to :: user_peer
  m_timestamp :: u64

definition Message :: "string \<Rightarrow> MessageType \<Rightarrow> user_peer \<Rightarrow> user_peer \<Rightarrow> u64 \<Rightarrow> message" where
  "Message i t f r ts = \<lparr> m_id = i, m_type = t, m_from = f, m_to = r, m_timestamp = ts \<rparr>"

definition getBasicSerialization :: "('j, 'x) json_lib_scheme \<Rightarrow> 'm message_scheme \<Rightarrow> 'j" where
  "getBasicSerialization J m =
     (let jData = json_null J;
          jData = json_set J jData ''id'' (json_of_string J (m_id m));
          jData = json_set J jData ''type'' (json_of_string J (fromMessageTypeToString (m_type m)));
          jData = json_set J jData ''from'' (UserPeer_toJson J (m_from m));
          jData = json_set J jData ''to'' (UserPeer_toJson J (m_to m));
          jData = json_set J jData ''timestamp'' (json_of_uint J (unat (m_timestamp m)))
      in jData)"

definition Message_of_json :: "('j, 'x) json_lib_scheme \<Rightarrow> 'j \<Rightarrow> message res" where
  "Message_of_json J jData =
     bnd (get_str J jData ''id'') (\<lambda>i.
     bnd (bnd (json_at J jData ''from'') (UserPeer_of_json J)) (\<lambda>f.
     bnd (bnd (json_at J jData ''to'') (UserPeer_of_json J)) (\<lambda>r.
     bnd (get_uint J 64 jData ''timestamp'') (\<lambda>ts.
     bnd (bnd (get_str J jData ''type'') fromStringToMessageType) (\<lambda>t.
       Inr (Message i t f r (word_of_nat ts)))))))"

text \<open>\<open>jData["payload"][k] = v\<close>\<close>

definition set_payload :: "('j, 'x) json_lib_scheme \<Rightarrow> 'j \<Rightarrow> string \<Rightarrow> 'j \<Rightarrow> 'j" where
  "set_payload J j k v = json_set J j ''payload'' (json_set J (json_ref J j ''payload'') k v)"

text \<open>The type check that opens every subclass constructor.\<close>

definition expect_type :: "MessageType \<Rightarrow> message \<Rightarrow> (message \<Rightarrow> 'a res) \<Rightarrow> 'a res" where
  "expect_type t m f = (if m_type m \<noteq> t then Inl (Std_Exc ''Invalid message type'') else f m)"

lemma expect_type_simps [simp]:
  "m_type m = t \<Longrightarrow> expect_type t m f = f m"
  "m_type m \<noteq> t \<Longrightarrow> expect_type t m f = Inl (Std_Exc ''Invalid message type'')"
  by (simp_all add: expect_type_def)

subsection \<open>ConnectionMessage and ConnectionMessageResponse\<close>

record connection_message = message +
  lastBlockHash :: string

definition ConnectionMessage_of_json :: "('j, 'x) json_lib_scheme \<Rightarrow> 'j \<Rightarrow> connection_message res" where
  "ConnectionMessage_of_json J jData =
     bnd (Message_of_json J jData) (\<lambda>m. expect_type CONNECT m (\<lambda>m.
     bnd (json_at J jData ''payload'') (\<lambda>p.
     bnd (get_str J p ''lastBlockHash'') (\<lambda>h.
       Inr (message.extend m (connection_message.fields h))))))"

definition ConnectionMessage_serialize :: "('j, 'x) json_lib_scheme \<Rightarrow> connection_message \<Rightarrow> 'j" where
  "ConnectionMessage_serialize J m =
     set_payload J (getBasicSerialization J m) ''lastBlockHash'' (json_of_string J (lastBlockHash m))"

definition ConnectionMessage ::
  "string \<Rightarrow> user_peer \<Rightarrow> user_peer \<Rightarrow> u64 \<Rightarrow> string \<Rightarrow> connection_message" where [simp]:
  "ConnectionMessage i f r ts h =
     message.extend (Message i CONNECT f r ts) (connection_message.fields h)"

definition ConnectionMessage_create ::
  "string \<Rightarrow> u64 \<Rightarrow> user_peer \<Rightarrow> user_peer \<Rightarrow> string \<Rightarrow> connection_message" where
  "ConnectionMessage_create uuid now f r h =
     ConnectionMessage uuid f r now h"

record connection_response = message +
  peersToReceive :: u32
  missingBlocksCount :: u32

definition ConnectionMessageResponse_of_json ::
  "('j, 'x) json_lib_scheme \<Rightarrow> 'j \<Rightarrow> connection_response res" where
  "ConnectionMessageResponse_of_json J jData =
     bnd (Message_of_json J jData) (\<lambda>m. expect_type CONNECT_RESPONSE m (\<lambda>m.
     bnd (json_at J jData ''payload'') (\<lambda>p.
     bnd (get_uint J 32 p ''peersToReceive'') (\<lambda>n.
     bnd (get_uint J 32 p ''missingBlocksCount'') (\<lambda>k.
       Inr (message.extend m (connection_response.fields (word_of_nat n) (word_of_nat k))))))))"

definition ConnectionMessageResponse_serialize ::
  "('j, 'x) json_lib_scheme \<Rightarrow> connection_response \<Rightarrow> 'j" where
  "ConnectionMessageResponse_serialize J m =
     (let jData = getBasicSerialization J m;
          jData = set_payload J jData ''peersToReceive'' (json_of_uint J (unat (peersToReceive m)));
          jData = set_payload J jData ''missingBlocksCount''
                    (json_of_uint J (unat (missingBlocksCount m)))
      in jData)"

definition ConnectionMessageResponse ::
  "string \<Rightarrow> user_peer \<Rightarrow> user_peer \<Rightarrow> u64 \<Rightarrow> u32 \<Rightarrow> u32 \<Rightarrow> connection_response" where [simp]:
  "ConnectionMessageResponse i f r ts n k =
     message.extend (Message i CONNECT_RESPONSE f r ts) (connection_response.fields n k)"

definition ConnectionMessageResponse_create ::
  "string \<Rightarrow> u64 \<Rightarrow> user_peer \<Rightarrow> user_peer \<Rightarrow> u32 \<Rightarrow> u32 \<Rightarrow> connection_response" where
  "ConnectionMessageResponse_create uuid now f r n k =
     ConnectionMessageResponse uuid f r now n k"

subsection \<open>PeerListMessage and PeerListMessageResponse\<close>

record peer_list_message = message +
  pl_start :: u32
  pl_count :: u32

definition PeerListMessage_of_json :: "('j, 'x) json_lib_scheme \<Rightarrow> 'j \<Rightarrow> peer_list_message res" where
  "PeerListMessage_of_json J jData =
     bnd (Message_of_json J jData) (\<lambda>m. expect_type PEER_LIST m (\<lambda>m.
     bnd (json_at J jData ''payload'') (\<lambda>p.
     bnd (get_uint J 32 p ''start'') (\<lambda>n.
     bnd (get_uint J 32 p ''count'') (\<lambda>k.
       Inr (message.extend m (peer_list_message.fields (word_of_nat n) (word_of_nat k))))))))"

definition PeerListMessage_serialize :: "('j, 'x) json_lib_scheme \<Rightarrow> peer_list_message \<Rightarrow> 'j" where
  "PeerListMessage_serialize J m =
     (let jData = getBasicSerialization J m;
          jData = set_payload J jData ''start'' (json_of_uint J (unat (pl_start m)));
          jData = set_payload J jData ''count'' (json_of_uint J (unat (pl_count m)))
      in jData)"

definition PeerListMessage ::
  "string \<Rightarrow> user_peer \<Rightarrow> user_peer \<Rightarrow> u64 \<Rightarrow> u32 \<Rightarrow> u32 \<Rightarrow> peer_list_message" where [simp]:
  "PeerListMessage i f r ts n k =
     message.extend (Message i PEER_LIST f r ts) (peer_list_message.fields n k)"

definition PeerListMessage_create ::
  "string \<Rightarrow> u64 \<Rightarrow> user_peer \<Rightarrow> user_peer \<Rightarrow> u32 \<Rightarrow> u32 \<Rightarrow> peer_list_message" where
  "PeerListMessage_create uuid now f r n k =
     PeerListMessage uuid f r now n k"

record peer_list_response = message +
  pl_peers :: "user_peer list"

definition PeerListMessageResponse_of_json ::
  "('j, 'x) json_lib_scheme \<Rightarrow> 'j \<Rightarrow> peer_list_response res" where
  "PeerListMessageResponse_of_json J jData =
     bnd (Message_of_json J jData) (\<lambda>m. expect_type PEER_LIST_RESPONSE m (\<lambda>m.
     bnd (json_at J jData ''payload'') (\<lambda>p.
     bnd (json_at J p ''peers'') (\<lambda>peersJson.
       if \<not> json_is_array J peersJson then Inl (Std_Exc ''Peers field must be an array'')
       else bnd (traverse (UserPeer_of_json J) (json_elems J peersJson)) (\<lambda>ps.
         Inr (message.extend m (peer_list_response.fields ps)))))))"

definition PeerListMessageResponse_serialize ::
  "('j, 'x) json_lib_scheme \<Rightarrow> peer_list_response \<Rightarrow> 'j" where
  "PeerListMessageResponse_serialize J m =
     set_payload J (getBasicSerialization J m) ''peers''
       (json_array J (map (UserPeer_toJson J) (pl_peers m)))"

text \<open>As written: \<open>create(from, to, peers)\<close> passes \<open>to\<close> and \<open>from\<close> to the constructor in that order.\<close>

definition PeerListMessageResponse ::
  "string \<Rightarrow> user_peer \<Rightarrow> user_peer \<Rightarrow> u64 \<Rightarrow> user_peer list \<Rightarrow> peer_list_response" where [simp]:
  "PeerListMessageResponse i f r ts ps =
     message.extend (Message i PEER_LIST_RESPONSE f r ts) (peer_list_response.fields ps)"

definition PeerListMessageResponse_create ::
  "string \<Rightarrow> u64 \<Rightarrow> user_peer \<Rightarrow> user_peer \<Rightarrow> user_peer list \<Rightarrow> peer_list_response" where
  "PeerListMessageResponse_create uuid now f r ps =
     PeerListMessageResponse uuid r f now ps"

subsection \<open>BlockRangeMessage and BlockRangeMessageResponse\<close>

record block_range_message = message +
  rg_start :: u32
  rg_count :: u32
  rg_lastHash :: string

text \<open>\<open>start\<close> is read as 64 bits and narrowed to 32.\<close>

definition BlockRangeMessage_of_json ::
  "('j, 'x) json_lib_scheme \<Rightarrow> 'j \<Rightarrow> block_range_message res" where
  "BlockRangeMessage_of_json J jData =
     bnd (Message_of_json J jData) (\<lambda>m. expect_type BLOCK_RANGE_REQUEST m (\<lambda>m.
     bnd (json_at J jData ''payload'') (\<lambda>p.
     bnd (get_uint J 64 p ''start'') (\<lambda>n.
     bnd (get_uint J 32 p ''count'') (\<lambda>k.
     bnd (get_str J p ''lastHash'') (\<lambda>h.
       Inr (message.extend m (block_range_message.fields (word_of_nat n) (word_of_nat k) h))))))))"

definition BlockRangeMessage_serialize ::
  "('j, 'x) json_lib_scheme \<Rightarrow> block_range_message \<Rightarrow> 'j" where
  "BlockRangeMessage_serialize J m =
     (let jData = getBasicSerialization J m;
          jData = set_payload J jData ''start'' (json_of_uint J (unat (rg_start m)));
          jData = set_payload J jData ''count'' (json_of_uint J (unat (rg_count m)));
          jData = set_payload J jData ''lastHash'' (json_of_string J (rg_lastHash m))
      in jData)"

definition BlockRangeMessage ::
  "string \<Rightarrow> user_peer \<Rightarrow> user_peer \<Rightarrow> u64 \<Rightarrow> u32 \<Rightarrow> u32 \<Rightarrow> string \<Rightarrow> block_range_message" where [simp]:
  "BlockRangeMessage i f r ts n k h =
     message.extend (Message i BLOCK_RANGE_REQUEST f r ts) (block_range_message.fields n k h)"

definition BlockRangeMessage_create ::
  "string \<Rightarrow> u64 \<Rightarrow> user_peer \<Rightarrow> user_peer \<Rightarrow> u32 \<Rightarrow> u32 \<Rightarrow> string \<Rightarrow> block_range_message" where
  "BlockRangeMessage_create uuid now f r n k h =
     BlockRangeMessage uuid f r now n k h"

record block_range_response = message +
  rg_blocks :: "block list"

definition BlockRangeMessageResponse_of_json ::
  "('j, 'x) json_lib_scheme \<Rightarrow> 'j \<Rightarrow> block_range_response res" where
  "BlockRangeMessageResponse_of_json J jData =
     bnd (Message_of_json J jData) (\<lambda>m. expect_type BLOCK_RANGE_RESPONSE m (\<lambda>m.
     bnd (json_at J jData ''payload'') (\<lambda>p.
     bnd (json_at J p ''blocks'') (\<lambda>blocksJson.
       if \<not> json_is_array J blocksJson then Inl (Std_Exc ''Peers field must be an array'')
       else bnd (traverse (Block_of_json J) (json_elems J blocksJson)) (\<lambda>bs.
         Inr (message.extend m (block_range_response.fields bs)))))))"

definition BlockRangeMessageResponse_serialize ::
  "('j, 'x) json_lib_scheme \<Rightarrow> block_range_response \<Rightarrow> 'j" where
  "BlockRangeMessageResponse_serialize J m =
     set_payload J (getBasicSerialization J m) ''blocks''
       (json_array J (map (Block_toJson J) (rg_blocks m)))"

definition BlockRangeMessageResponse ::
  "string \<Rightarrow> user_peer \<Rightarrow> user_peer \<Rightarrow> u64 \<Rightarrow> block list \<Rightarrow> block_range_response" where [simp]:
  "BlockRangeMessageResponse i f r ts bs =
     message.extend (Message i BLOCK_RANGE_RESPONSE f r ts) (block_range_response.fields bs)"

definition BlockRangeMessageResponse_create ::
  "string \<Rightarrow> u64 \<Rightarrow> user_peer \<Rightarrow> user_peer \<Rightarrow> block list \<Rightarrow> block_range_response" where
  "BlockRangeMessageResponse_create uuid now f r bs =
     BlockRangeMessageResponse uuid f r now bs"

subsection \<open>DisconnectionMessage and DisconnectionMessageResponse\<close>

definition DisconnectionMessage_of_json :: "('j, 'x) json_lib_scheme \<Rightarrow> 'j \<Rightarrow> message res" where
  "DisconnectionMessage_of_json J jData =
     bnd (Message_of_json J jData) (\<lambda>m. expect_type DISCONNECT m Inr)"

definition DisconnectionMessage_serialize :: "('j, 'x) json_lib_scheme \<Rightarrow> message \<Rightarrow> 'j" where
  "DisconnectionMessage_serialize J m = getBasicSerialization J m"

definition DisconnectionMessage ::
  "string \<Rightarrow> user_peer \<Rightarrow> user_peer \<Rightarrow> u64 \<Rightarrow> message" where [simp]:
  "DisconnectionMessage i f r ts = Message i DISCONNECT f r ts"

definition DisconnectionMessage_create ::
  "string \<Rightarrow> u64 \<Rightarrow> user_peer \<Rightarrow> user_peer \<Rightarrow> message" where
  "DisconnectionMessage_create uuid now f r = DisconnectionMessage uuid f r now"

definition DisconnectionMessageResponse_of_json ::
  "('j, 'x) json_lib_scheme \<Rightarrow> 'j \<Rightarrow> message res" where
  "DisconnectionMessageResponse_of_json J jData =
     bnd (Message_of_json J jData) (\<lambda>m. expect_type DISCONNECT_RESPONSE m Inr)"

definition DisconnectionMessageResponse_serialize ::
  "('j, 'x) json_lib_scheme \<Rightarrow> message \<Rightarrow> 'j" where
  "DisconnectionMessageResponse_serialize J m = getBasicSerialization J m"

definition DisconnectionMessageResponse ::
  "string \<Rightarrow> user_peer \<Rightarrow> user_peer \<Rightarrow> u64 \<Rightarrow> message" where [simp]:
  "DisconnectionMessageResponse i f r ts = Message i DISCONNECT_RESPONSE f r ts"

definition DisconnectionMessageResponse_create ::
  "string \<Rightarrow> u64 \<Rightarrow> user_peer \<Rightarrow> user_peer \<Rightarrow> message" where
  "DisconnectionMessageResponse_create uuid now f r = DisconnectionMessageResponse uuid f r now"

subsection \<open>ErrorMessageResponse and BlockchainErrorMessageResponse\<close>

record error_response = message +
  er_error :: string

definition ErrorMessageResponse_of_json :: "('j, 'x) json_lib_scheme \<Rightarrow> 'j \<Rightarrow> error_response res" where
  "ErrorMessageResponse_of_json J jData =
     bnd (Message_of_json J jData) (\<lambda>m. expect_type ERROR_RESPONSE m (\<lambda>m.
     bnd (json_at J jData ''payload'') (\<lambda>p.
     bnd (get_str J p ''error'') (\<lambda>e.
       Inr (message.extend m (error_response.fields e))))))"

definition ErrorMessageResponse_serialize :: "('j, 'x) json_lib_scheme \<Rightarrow> error_response \<Rightarrow> 'j" where
  "ErrorMessageResponse_serialize J m =
     set_payload J (getBasicSerialization J m) ''error'' (json_of_string J (er_error m))"

definition ErrorMessageResponse ::
  "string \<Rightarrow> user_peer \<Rightarrow> user_peer \<Rightarrow> u64 \<Rightarrow> string \<Rightarrow> error_response" where [simp]:
  "ErrorMessageResponse i f r ts e =
     message.extend (Message i ERROR_RESPONSE f r ts) (error_response.fields e)"

definition ErrorMessageResponse_create ::
  "string \<Rightarrow> u64 \<Rightarrow> user_peer \<Rightarrow> user_peer \<Rightarrow> string \<Rightarrow> error_response" where
  "ErrorMessageResponse_create uuid now f r e =
     ErrorMessageResponse uuid f r now e"

record blockchain_error = message +
  be_error :: string
  be_blockHash :: string
  be_messageId :: string

definition BlockchainErrorMessageResponse_of_json ::
  "('j, 'x) json_lib_scheme \<Rightarrow> 'j \<Rightarrow> blockchain_error res" where
  "BlockchainErrorMessageResponse_of_json J jData =
     bnd (Message_of_json J jData) (\<lambda>m. expect_type BLOCKCHAIN_ERROR_RESPONSE m (\<lambda>m.
     bnd (json_at J jData ''payload'') (\<lambda>p.
     bnd (get_str J p ''error'') (\<lambda>e.
     bnd (get_str J p ''blockHash'') (\<lambda>h.
     bnd (get_str J p ''messageId'') (\<lambda>i.
       Inr (message.extend m (blockchain_error.fields e h i))))))))"

definition BlockchainErrorMessageResponse_serialize ::
  "('j, 'x) json_lib_scheme \<Rightarrow> blockchain_error \<Rightarrow> 'j" where
  "BlockchainErrorMessageResponse_serialize J m =
     (let jData = getBasicSerialization J m;
          jData = set_payload J jData ''error'' (json_of_string J (be_error m));
          jData = set_payload J jData ''blockHash'' (json_of_string J (be_blockHash m));
          jData = set_payload J jData ''messageId'' (json_of_string J (be_messageId m))
      in jData)"

text \<open>The receiver is the default peer: the constructor passes \<open>{}\<close> for \<open>to\<close>.\<close>

definition BlockchainErrorMessageResponse ::
  "string \<Rightarrow> user_peer \<Rightarrow> u64 \<Rightarrow> string \<Rightarrow> string \<Rightarrow> string \<Rightarrow> blockchain_error" where [simp]:
  "BlockchainErrorMessageResponse i f ts e h m =
     message.extend (Message i BLOCKCHAIN_ERROR_RESPONSE f UserPeer_default ts)
       (blockchain_error.fields e h m)"

definition BlockchainErrorMessageResponse_create ::
  "string \<Rightarrow> u64 \<Rightarrow> user_peer \<Rightarrow> string \<Rightarrow> string \<Rightarrow> string \<Rightarrow> blockchain_error" where
  "BlockchainErrorMessageResponse_create uuid now f e h i =
     BlockchainErrorMessageResponse uuid f now e h i"

subsection \<open>Reading back what was serialized\<close>

text \<open>
  \<open>has_base J m j\<close>: the object \<open>j\<close> carries the five fields every message has, with the values of \<open>m\<close>.
\<close>

definition has_field :: "('j, 'x) json_lib_scheme \<Rightarrow> 'j \<Rightarrow> string \<Rightarrow> 'j \<Rightarrow> bool" where
  "has_field J j k v \<longleftrightarrow> json_contains J j k \<and> json_at J j k = Inr v"

definition has_base :: "('j, 'x) json_lib_scheme \<Rightarrow> 'm message_scheme \<Rightarrow> 'j \<Rightarrow> bool" where
  "has_base J m j \<longleftrightarrow> objlike J j \<and>
     has_field J j ''id'' (json_of_string J (m_id m)) \<and>
     has_field J j ''type'' (json_of_string J (fromMessageTypeToString (m_type m))) \<and>
     has_field J j ''from'' (UserPeer_toJson J (m_from m)) \<and>
     has_field J j ''to'' (UserPeer_toJson J (m_to m)) \<and>
     has_field J j ''timestamp'' (json_of_uint J (unat (m_timestamp m)))"

lemma has_base_basic:
  assumes "json_laws J"
  shows "has_base J m (getBasicSerialization J m)"
  by (simp add: has_base_def has_field_def getBasicSerialization_def Let_def json_simps [OF assms])

lemma has_base_payload:
  assumes "json_laws J" "has_base J m j"
  shows "has_base J m (set_payload J j k v)"
  using assms(2)
  by (simp add: has_base_def has_field_def set_payload_def json_simps [OF assms(1)])

lemma basic_no_payload:
  assumes "json_laws J"
  shows "json_ref J (getBasicSerialization J m) ''payload'' = json_null J"
  by (simp add: getBasicSerialization_def Let_def json_simps [OF assms])

lemma objlike_serialized:
  assumes "json_laws J"
  shows "objlike J (getBasicSerialization J m)" "objlike J j \<Longrightarrow> objlike J (set_payload J j k v)"
  by (simp_all add: getBasicSerialization_def set_payload_def Let_def json_simps [OF assms])

lemma payload_ref:
  assumes "json_laws J" "objlike J j"
  shows "json_ref J (set_payload J j k v) ''payload'' = json_set J (json_ref J j ''payload'') k v"
    and "json_at J (set_payload J j k v) ''payload'' = Inr (json_set J (json_ref J j ''payload'') k v)"
  using assms(2) by (auto simp: set_payload_def json_simps [OF assms(1)])

lemma Message_of_base:
  assumes "json_laws J" "has_base J m j"
  shows "Message_of_json J j = Inr (message.truncate m)"
  using assms(2) unat_u64_bound [of "m_timestamp m"]
  by (cases m) (simp add: has_base_def has_field_def Message_of_json_def get_str_def get_uint_def
      Message_def UserPeer_json_roundtrip_aux [OF assms(1)] json_simps [OF assms(1)]
      message.truncate_def)

text \<open>A message with up to three payload fields.\<close>

lemma Message_of_serialized:
  assumes "json_laws J"
  shows "Message_of_json J (getBasicSerialization J m) = Inr (message.truncate m)"
    and "Message_of_json J (set_payload J (getBasicSerialization J m) k v) = Inr (message.truncate m)"
    and "Message_of_json J (set_payload J (set_payload J (getBasicSerialization J m) k v) k' v') =
      Inr (message.truncate m)"
    and "Message_of_json J (set_payload J (set_payload J (set_payload J
      (getBasicSerialization J m) k v) k' v') k'' v'') = Inr (message.truncate m)"
  by (intro Message_of_base has_base_payload has_base_basic assms)+

lemmas message_json_simps =
  basic_no_payload objlike_serialized payload_ref Message_of_serialized json_simps

lemmas message_ext_defs =
  message.defs connection_message.defs connection_response.defs peer_list_message.defs
  peer_list_response.defs block_range_message.defs block_range_response.defs error_response.defs
  blockchain_error.defs

lemma ConnectionMessage_roundtrip_aux:
  assumes "json_laws J" "m_type m = CONNECT"
  shows "ConnectionMessage_of_json J (ConnectionMessage_serialize J m) = Inr m"
  using assms(2)
  by (cases m) (simp add: ConnectionMessage_of_json_def ConnectionMessage_serialize_def get_str_def get_uint_def Let_def
      message_json_simps [OF assms(1)] message_ext_defs)

lemma ConnectionMessageResponse_roundtrip_aux:
  assumes "json_laws J" "m_type m = CONNECT_RESPONSE"
  shows "ConnectionMessageResponse_of_json J (ConnectionMessageResponse_serialize J m) = Inr m"
  using assms(2) unat_u32_bound [of "peersToReceive m"] unat_u32_bound [of "missingBlocksCount m"]
  by (cases m) (simp add: ConnectionMessageResponse_of_json_def ConnectionMessageResponse_serialize_def get_str_def get_uint_def Let_def
      message_json_simps [OF assms(1)] message_ext_defs)

lemma PeerListMessage_roundtrip_aux:
  assumes "json_laws J" "m_type m = PEER_LIST"
  shows "PeerListMessage_of_json J (PeerListMessage_serialize J m) = Inr m"
  using assms(2) unat_u32_bound [of "pl_start m"] unat_u32_bound [of "pl_count m"]
  by (cases m) (simp add: PeerListMessage_of_json_def PeerListMessage_serialize_def get_str_def get_uint_def Let_def
      message_json_simps [OF assms(1)] message_ext_defs)

lemma PeerListMessageResponse_roundtrip_aux:
  assumes "json_laws J" "m_type m = PEER_LIST_RESPONSE"
  shows "PeerListMessageResponse_of_json J (PeerListMessageResponse_serialize J m) = Inr m"
  using assms(2)
  by (cases m) (simp add: PeerListMessageResponse_of_json_def PeerListMessageResponse_serialize_def get_str_def get_uint_def Let_def
      message_json_simps [OF assms(1)] message_ext_defs
      traverse_map [where h = id] UserPeer_json_roundtrip_aux [OF assms(1)])

lemma BlockRangeMessage_roundtrip_aux:
  assumes "json_laws J" "m_type m = BLOCK_RANGE_REQUEST"
  shows "BlockRangeMessage_of_json J (BlockRangeMessage_serialize J m) = Inr m"
  using assms(2) unat_u32_bound [of "rg_start m"] unat_u32_bound [of "rg_count m"]
  by (cases m) (simp add: BlockRangeMessage_of_json_def BlockRangeMessage_serialize_def get_str_def get_uint_def Let_def
      message_json_simps [OF assms(1)] message_ext_defs)

lemma BlockRangeMessageResponse_roundtrip_aux:
  assumes "json_laws J" "m_type m = BLOCK_RANGE_RESPONSE"
  shows "BlockRangeMessageResponse_of_json J (BlockRangeMessageResponse_serialize J m) = Inr m"
  using assms(2)
  by (cases m) (simp add: BlockRangeMessageResponse_of_json_def BlockRangeMessageResponse_serialize_def get_str_def get_uint_def Let_def
      message_json_simps [OF assms(1)] message_ext_defs
      traverse_map [where h = id] Block_json_roundtrip_aux [OF assms(1)])

lemma DisconnectionMessage_roundtrip_aux:
  assumes "json_laws J" "m_type m = DISCONNECT"
  shows "DisconnectionMessage_of_json J (DisconnectionMessage_serialize J m) = Inr m"
  using assms(2)
  by (cases m) (simp add: DisconnectionMessage_of_json_def DisconnectionMessage_serialize_def get_str_def get_uint_def Let_def
      message_json_simps [OF assms(1)] message_ext_defs)

lemma DisconnectionMessageResponse_roundtrip_aux:
  assumes "json_laws J" "m_type m = DISCONNECT_RESPONSE"
  shows "DisconnectionMessageResponse_of_json J (DisconnectionMessageResponse_serialize J m) = Inr m"
  using assms(2)
  by (cases m) (simp add: DisconnectionMessageResponse_of_json_def DisconnectionMessageResponse_serialize_def get_str_def get_uint_def Let_def
      message_json_simps [OF assms(1)] message_ext_defs)

lemma ErrorMessageResponse_roundtrip_aux:
  assumes "json_laws J" "m_type m = ERROR_RESPONSE"
  shows "ErrorMessageResponse_of_json J (ErrorMessageResponse_serialize J m) = Inr m"
  using assms(2)
  by (cases m) (simp add: ErrorMessageResponse_of_json_def ErrorMessageResponse_serialize_def get_str_def get_uint_def Let_def
      message_json_simps [OF assms(1)] message_ext_defs)

lemma BlockchainErrorMessageResponse_roundtrip_aux:
  assumes "json_laws J" "m_type m = BLOCKCHAIN_ERROR_RESPONSE"
  shows "BlockchainErrorMessageResponse_of_json J (BlockchainErrorMessageResponse_serialize J m) = Inr m"
  using assms(2)
  by (cases m) (simp add: BlockchainErrorMessageResponse_of_json_def BlockchainErrorMessageResponse_serialize_def get_str_def get_uint_def Let_def
      message_json_simps [OF assms(1)] message_ext_defs)

end
