(* ===== verification/DC_Crypto.thy ===== *)
theory DC_Crypto
  imports DC_Hex
begin

text \<open>
  The interface \<open>crypto::ICrypto\<close> (src/service/crypto/ICrypto.hpp) as a record of its methods, and the
  contract its users rely on as a locale. A method that may throw returns a \<open>res\<close>. The source of
  randomness of an implementation is fixed when the record is built.
\<close>

record ICrypto =
  generateSecret :: "nat \<Rightarrow> bytes res"
  generateKeyPair :: "(bytes \<times> bytes) res"     \<comment> \<open>\<open>KeyPair\<close>: public key, private key\<close>
  keyToString :: "bytes \<Rightarrow> string"
  stringToKey :: "string \<Rightarrow> bytes res"
  createSessionKey :: "bytes \<Rightarrow> bytes \<Rightarrow> bytes res"
  encrypt :: "bytes \<Rightarrow> bytes \<Rightarrow> bytes res"
  decrypt :: "bytes \<Rightarrow> bytes \<Rightarrow> bytes res"
  sign :: "bytes \<Rightarrow> bytes \<Rightarrow> bytes res"
  verify :: "bytes \<Rightarrow> bytes \<Rightarrow> bytes \<Rightarrow> bool"

text \<open>
  \<open>key_pair a A\<close>: \<open>a\<close> is a private key with public key \<open>A\<close>; \<open>session_key k\<close>: a key
  \<open>createSessionKey\<close> can return.
\<close>

locale icrypto =
  fixes C :: ICrypto
    and key_pair :: "bytes \<Rightarrow> bytes \<Rightarrow> bool"
    and session_key :: "bytes \<Rightarrow> bool"
  assumes sign_total: "key_pair a A \<Longrightarrow> \<exists>s. sign C m a = Inr s"
    and verify_sign: "key_pair a A \<Longrightarrow> sign C m a = Inr s \<Longrightarrow> verify C m s A"
    and session: "key_pair a A \<Longrightarrow> key_pair b B \<Longrightarrow>
      \<exists>k. createSessionKey C a B = Inr k \<and> createSessionKey C b A = Inr k \<and> session_key k"
    and decrypt_encrypt: "session_key k \<Longrightarrow> \<exists>c. encrypt C m k = Inr c \<and> decrypt C c k = Inr m"
    and key_text: "stringToKey C (keyToString C b) = Inr b"
    and key_text_clean: "CHR 0x00 \<notin> set (keyToString C b)" "CHR ''|'' \<notin> set (keyToString C b)"
begin

lemma sign_verifies:
  assumes "key_pair a A"
  obtains s where "sign C m a = Inr s" "verify C m s A"
  using sign_total [OF assms] verify_sign [OF assms] by blast

text \<open>A text encrypted by one side of a session is read by the other side, and by the sender.\<close>

lemma sealed:
  assumes "key_pair a A" "key_pair b B"
  obtains k c where "createSessionKey C a B = Inr k" "createSessionKey C b A = Inr k"
    "encrypt C m k = Inr c" "decrypt C c k = Inr m"
  using session [OF assms] decrypt_encrypt by blast

lemma key_text_id: "c_str (keyToString C b) = keyToString C b"
  using key_text_clean(1) by simp

end

end
