(* ===== verification/DC_TextMessage.thy ===== *)
theory DC_TextMessage
  imports DC_Message DC_Crypto
begin

text \<open>
  \<open>message::SecretMessage\<close> (src/domain/message/Message.cpp) and \<open>message::TextMessage\<close>,
  \<open>TextMessageResponse\<close> (src/infra/message/TextMessage.cpp): the encrypted and signed chat message.
\<close>

record secret_message = message +
  m_signature :: bytes
  m_blockHash :: string

record text_message = secret_message +
  m_text :: string      \<comment> \<open>\<open>payload.message\<close>\<close>

definition SecretMessage_serialize :: "'m secret_message_scheme \<Rightarrow> 'j res" where
  "SecretMessage_serialize m = Inl (Std_Exc
     ''This method is not accessible. SecretMessage requires session key for serialization'')"

definition SecretMessage_getBasicSerialization ::
  "('j, 'x) json_lib_scheme \<Rightarrow> 'm secret_message_scheme \<Rightarrow> 'j" where
  "SecretMessage_getBasicSerialization J m =
     json_set J (getBasicSerialization J m) ''blockHash'' (json_of_string J (m_blockHash m))"

definition SecretMessage_of_json ::
  "('j, 'x) json_lib_scheme \<Rightarrow> ICrypto \<Rightarrow> 'j \<Rightarrow> secret_message res" where
  "SecretMessage_of_json J C jData =
     bnd (Message_of_json J jData) (\<lambda>m.
     bnd (bnd (get_str J jData ''signature'') (stringToKey C)) (\<lambda>s.
     bnd (get_str J jData ''blockHash'') (\<lambda>h.
       Inr (message.extend m (secret_message.fields s h)))))"

subsection \<open>TextMessage\<close>

definition TextMessage_createSessionKey :: "ICrypto \<Rightarrow> string \<Rightarrow> string \<Rightarrow> bytes res" where
  "TextMessage_createSessionKey C privateKey pubKey =
     bnd (stringToKey C privateKey) (\<lambda>a.
     bnd (stringToKey C pubKey) (\<lambda>b. createSessionKey C a b))"

definition SecretMessage ::
  "string \<Rightarrow> MessageType \<Rightarrow> user_peer \<Rightarrow> user_peer \<Rightarrow> u64 \<Rightarrow> bytes \<Rightarrow> string \<Rightarrow> secret_message" where [simp]:
  "SecretMessage i t f r ts s h = message.extend (Message i t f r ts) (secret_message.fields s h)"

definition TextMessage ::
  "string \<Rightarrow> user_peer \<Rightarrow> user_peer \<Rightarrow> u64 \<Rightarrow> string \<Rightarrow> string \<Rightarrow> text_message" where
  "TextMessage i f r ts msg h =
     secret_message.extend
       (SecretMessage i TEXT_MESSAGE f r ts [] h)
       (text_message.fields msg)"

text \<open>The body of the \<open>try\<close> block of the JSON constructor: the decrypted and verified text.\<close>

definition open_text ::
  "('j, 'x) json_lib_scheme \<Rightarrow> ICrypto \<Rightarrow> 'j \<Rightarrow> string \<Rightarrow> bool \<Rightarrow> secret_message \<Rightarrow> string res" where
  "open_text J C jData privateKey invertFromTo m =
     (if m_type m \<noteq> TEXT_MESSAGE then Inl (Std_Exc ''Invalid message type'')
      else
        bnd (TextMessage_createSessionKey C privateKey
               (publicKey (if invertFromTo then m_to m else m_from m))) (\<lambda>sessionKey.
        bnd (bnd (bnd (json_at J jData ''payload'') (\<lambda>p. get_str J p ''message''))
               (stringToKey C)) (\<lambda>cipher.
        bnd (decrypt C cipher sessionKey) (\<lambda>plain.
        bnd (stringToKey C (publicKey (m_from m))) (\<lambda>publicKeyBytes.
          if \<not> verify C plain (m_signature m) publicKeyBytes
          then Inl (Std_Exc ''Invalid signature'')
          else Inr (string_of_bytes plain))))))"

text \<open>
  The handler rethrows with \<open>throw error;\<close> of a \<open>const std::exception&\<close>: the exception that leaves
  is a copy of the base class, whatever was caught.
\<close>

definition TextMessage_of_json ::
  "('j, 'x) json_lib_scheme \<Rightarrow> ICrypto \<Rightarrow> 'j \<Rightarrow> string \<Rightarrow> bool \<Rightarrow> bool \<Rightarrow> text_message res" where
  "TextMessage_of_json J C jData privateKey invertFromTo createObjectIfError =
     bnd (SecretMessage_of_json J C jData) (\<lambda>m.
     bnd (catch_std (open_text J C jData privateKey invertFromTo m) (\<lambda>e.
            if \<not> createObjectIfError then Inl (Std_Exc ''std::exception'')
            else Inr ''CRASHED MESSAGE'')) (\<lambda>t.
       Inr (secret_message.extend m (text_message.fields t))))"

definition TextMessage_serialize ::
  "('j, 'x) json_lib_scheme \<Rightarrow> ICrypto \<Rightarrow> text_message \<Rightarrow> string \<Rightarrow> 'j res" where
  "TextMessage_serialize J C m privateKey =
     (let plain = bytes_of_string (m_text m) in
      bnd (TextMessage_createSessionKey C privateKey (publicKey (m_to m))) (\<lambda>sessionKey.
      bnd (encrypt C plain sessionKey) (\<lambda>encryptedMessage.
      bnd (stringToKey C privateKey) (\<lambda>privateKeyBytes.
      bnd (sign C plain privateKeyBytes) (\<lambda>signatureBytes.
        let jData = SecretMessage_getBasicSerialization J m;
            jData = set_payload J jData ''message'' (json_of_string J (keyToString C encryptedMessage));
            jData = json_set J jData ''signature'' (json_of_string J (keyToString C signatureBytes))
        in Inr jData)))))"

definition TextMessage_setBlockHash :: "string \<Rightarrow> text_message \<Rightarrow> text_message" where
  "TextMessage_setBlockHash h m = m\<lparr>m_blockHash := h\<rparr>"

definition TextMessage_create ::
  "string \<Rightarrow> u64 \<Rightarrow> user_peer \<Rightarrow> user_peer \<Rightarrow> string \<Rightarrow> text_message" where
  "TextMessage_create uuid now f r msg = TextMessage uuid f r now msg ''0''"

definition TextMessageResponse_of_json :: "('j, 'x) json_lib_scheme \<Rightarrow> 'j \<Rightarrow> message res" where
  "TextMessageResponse_of_json J jData = Message_of_json J jData"

definition TextMessageResponse_serialize :: "('j, 'x) json_lib_scheme \<Rightarrow> message \<Rightarrow> 'j" where
  "TextMessageResponse_serialize J m = getBasicSerialization J m"

definition TextMessageResponse ::
  "string \<Rightarrow> user_peer \<Rightarrow> user_peer \<Rightarrow> u64 \<Rightarrow> message" where [simp]:
  "TextMessageResponse i f r ts = Message i TEXT_MESSAGE_RESPONSE f r ts"

definition TextMessageResponse_create ::
  "string \<Rightarrow> u64 \<Rightarrow> user_peer \<Rightarrow> user_peer \<Rightarrow> message" where
  "TextMessageResponse_create uuid now f r = TextMessageResponse uuid f r now"

subsection \<open>What the receiver reads\<close>

text \<open>Two texts that decode to the two halves of a key pair.\<close>

definition text_keys :: "ICrypto \<Rightarrow> (bytes \<Rightarrow> bytes \<Rightarrow> bool) \<Rightarrow> string \<Rightarrow> string \<Rightarrow> bool" where
  "text_keys C key_pair priv pub \<longleftrightarrow>
     (\<exists>a A. stringToKey C priv = Inr a \<and> stringToKey C pub = Inr A \<and> key_pair a A)"

text \<open>The JSON object \<open>TextMessage::serialize\<close> builds from a ciphertext and a signature.\<close>

definition text_json ::
  "('j, 'x) json_lib_scheme \<Rightarrow> 'm secret_message_scheme \<Rightarrow> string \<Rightarrow> string \<Rightarrow> 'j" where
  "text_json J m c s =
     json_set J (set_payload J (SecretMessage_getBasicSerialization J m) ''message''
       (json_of_string J c)) ''signature'' (json_of_string J s)"

lemma has_base_set:
  assumes "json_laws J" "has_base J m j" "k \<notin> {''id'', ''type'', ''from'', ''to'', ''timestamp''}"
  shows "has_base J m (json_set J j k v)"
  using assms(2,3) by (simp add: has_base_def has_field_def json_simps [OF assms(1)])

lemma text_json_fields:
  assumes "json_laws J"
  shows "Message_of_json J (text_json J m c s) = Inr (message.truncate m)"
    and "json_at J (text_json J m c s) ''signature'' = Inr (json_of_string J s)"
    and "json_at J (text_json J m c s) ''blockHash'' = Inr (json_of_string J (m_blockHash m))"
    and "json_at J (text_json J m c s) ''payload'' =
      Inr (json_set J (json_null J) ''message'' (json_of_string J c))"
proof -
  show "Message_of_json J (text_json J m c s) = Inr (message.truncate m)"
    unfolding text_json_def SecretMessage_getBasicSerialization_def
    by (intro Message_of_base has_base_set has_base_payload has_base_basic assms) auto
qed (simp_all add: text_json_def SecretMessage_getBasicSerialization_def set_payload_def
      getBasicSerialization_def Let_def json_simps [OF assms])

lemma SecretMessage_of_text_json:
  assumes "json_laws J" "stringToKey C s = Inr sb"
  shows "SecretMessage_of_json J C (text_json J m c s) =
    Inr (message.extend (message.truncate m) (secret_message.fields sb (m_blockHash m)))"
  using assms(2)
  by (simp add: SecretMessage_of_json_def get_str_def text_json_fields [OF assms(1)]
      json_get_string_of [OF assms(1)])

context icrypto
begin

text \<open>
  \<open>serialize\<close> succeeds, and both the receiver (its private key and the sender's public key) and the
  sender reading its own copy (\<open>invertFromTo\<close>) get the message back, with the signature filled in.
\<close>

lemma text_roundtrip:
  assumes J: "json_laws J"
    and A: "text_keys C key_pair privA (publicKey (m_from m))"
    and B: "text_keys C key_pair privB (publicKey (m_to m))"
    and type: "m_type m = TEXT_MESSAGE"
  shows "\<exists>j s. TextMessage_serialize J C m privA = Inr j \<and>
    (\<forall>crashed. TextMessage_of_json J C j privB False crashed = Inr (m\<lparr>m_signature := s\<rparr>) \<and>
      TextMessage_of_json J C j privA True crashed = Inr (m\<lparr>m_signature := s\<rparr>))"
proof -
  obtain a Ak where a: "stringToKey C privA = Inr a" "stringToKey C (publicKey (m_from m)) = Inr Ak"
    "key_pair a Ak" using A by (auto simp: text_keys_def)
  obtain b Bk where b: "stringToKey C privB = Inr b" "stringToKey C (publicKey (m_to m)) = Inr Bk"
    "key_pair b Bk" using B by (auto simp: text_keys_def)
  let ?plain = "bytes_of_string (m_text m)"
  obtain k c where k: "createSessionKey C a Bk = Inr k" "createSessionKey C b Ak = Inr k"
    "encrypt C ?plain k = Inr c" "decrypt C c k = Inr ?plain"
    using sealed [OF a(3) b(3)] by blast
  obtain s where s: "sign C ?plain a = Inr s" "verify C ?plain s Ak"
    using sign_verifies [OF a(3)] by blast
  let ?j = "text_json J m (keyToString C c) (keyToString C s)"
  have ser: "TextMessage_serialize J C m privA = Inr ?j"
    by (simp add: TextMessage_serialize_def TextMessage_createSessionKey_def a b k s Let_def
        text_json_def)
  have "TextMessage_of_json J C ?j privB False crashed = Inr (m\<lparr>m_signature := s\<rparr>)"
    "TextMessage_of_json J C ?j privA True crashed = Inr (m\<lparr>m_signature := s\<rparr>)" for crashed
    using type a b k s
    by (cases m; simp add: TextMessage_of_json_def SecretMessage_of_text_json [OF J key_text]
        open_text_def TextMessage_createSessionKey_def text_json_fields [OF J] get_str_def
        json_simps [OF J] key_text message_ext_defs secret_message.defs text_message.defs)+
  with ser show ?thesis by blast
qed

end

end
