(* ===== verification/DC_MessageRepo.thy ===== *)
theory DC_MessageRepo
  imports DC_TextMessage
begin

text \<open>
  The interface \<open>message::IMessageRepo\<close> (src/domain/message/IMessageRepo.hpp) as a record of its
  methods over a repository state \<open>'s\<close>, and the contract of a message store as a locale.
  \<open>findChatMessages\<close> may fill its out-parameter and then throw, so it returns both.
\<close>

record 's IMessageRepo =
  findChatMessages :: "string \<Rightarrow> string \<Rightarrow> 's \<Rightarrow> text_message list \<Rightarrow> text_message list \<times> exc option"
  findBlockHashByMessageId :: "string \<Rightarrow> string \<Rightarrow> 's \<Rightarrow> (bool \<times> string) res"
  insertSecretMessage :: "text_message \<Rightarrow> string \<Rightarrow> string \<Rightarrow> 's \<Rightarrow> (bool \<times> 's) res"
  removeMessageByBlockHash :: "string \<Rightarrow> 's \<Rightarrow> (bool \<times> 's) res"
  removeMessageById :: "string \<Rightarrow> 's \<Rightarrow> (bool \<times> 's) res"

text \<open>What a store keeps of a message.\<close>

record stored_message =
  st_id :: string
  st_to :: string
  st_from :: string
  st_json :: string
  st_block :: string

definition stored :: "text_message \<Rightarrow> string \<Rightarrow> string \<Rightarrow> stored_message" where
  "stored m dump h = \<lparr> st_id = c_str (m_id m), st_to = c_str (publicKey (m_to m)),
     st_from = c_str (publicKey (m_from m)), st_json = c_str dump, st_block = c_str h \<rparr>"

text \<open>
  Message identifiers are unique keys; a lookup sees the insertions and removals before it. The
  contract promises no more of a removal by identifier than that it removes at most that message.
\<close>

locale message_repo =
  fixes M :: "'s IMessageRepo"
    and msgs :: "'s \<Rightarrow> stored_message list"
    and inv :: "'s \<Rightarrow> bool"
  assumes insert: "inv s \<Longrightarrow>
      \<exists>s'. insertSecretMessage M m dump h s = Inr (c_str (m_id m) \<notin> st_id ` set (msgs s), s') \<and>
        inv s' \<and>
        msgs s' = (if c_str (m_id m) \<in> st_id ` set (msgs s) then msgs s
                   else msgs s @ [stored m dump h])"
    and block_of: "inv s \<Longrightarrow>
      findBlockHashByMessageId M i h s =
        Inr (case find (\<lambda>e. st_id e = c_str i) (msgs s) of
               None \<Rightarrow> (False, h) | Some e \<Rightarrow> (True, st_block e))"
    and remove_block: "inv s \<Longrightarrow>
      \<exists>s'. removeMessageByBlockHash M h s = Inr (True, s') \<and> inv s' \<and>
        msgs s' = filter (\<lambda>e. st_block e \<noteq> c_str h) (msgs s)"
    and remove_id: "inv s \<Longrightarrow>
      \<exists>s' l. removeMessageById M i s = Inr (True, s') \<and> inv s' \<and> msgs s' = filter l (msgs s)"
    and distinct_ids: "inv s \<Longrightarrow> distinct (map st_id (msgs s))"
begin

lemma message_ops_keep:
  assumes "inv s"
  shows "insertSecretMessage M m dump h s = Inr (ok, s') \<Longrightarrow> inv s'"
    and "removeMessageByBlockHash M h s = Inr (ok, s') \<Longrightarrow> inv s'"
    and "removeMessageById M i s = Inr (ok, s') \<Longrightarrow> inv s'"
  using insert [OF assms, of m dump h] remove_block [OF assms, of h] remove_id [OF assms, of i] by auto

lemma block_of_inserted:
  assumes s: "inv s" and i: "insertSecretMessage M m dump h s = Inr (True, s')"
  shows "findBlockHashByMessageId M (m_id m) h0 s' = Inr (True, c_str h)"
proof -
  have n: "c_str (m_id m) \<notin> st_id ` set (msgs s)" and s': "inv s'"
    "msgs s' = msgs s @ [stored m dump h]"
    using insert [OF s, of m dump h] i by auto
  have "find (\<lambda>e. st_id e = c_str (m_id m)) (msgs s) = None"
    using n by (force simp: find_None_iff)
  then have "find (\<lambda>e. st_id e = c_str (m_id m)) (msgs s @ [stored m dump h]) = Some (stored m dump h)"
    by (simp add: stored_def find_append)
  then show ?thesis by (simp add: block_of [OF s'(1)] s'(2) stored_def)
qed

text \<open>After a removal by block no message of that block is left.\<close>

lemma block_removed:
  assumes "inv s" "removeMessageByBlockHash M h s = Inr (ok, s')"
  shows "ok \<and> inv s' \<and> h' \<in> st_block ` set (msgs s') \<longrightarrow> h' \<noteq> c_str h"
  using remove_block [OF assms(1), of h] assms(2) by auto

end

end
