(* ===== verification/DC_Config.thy ===== *)
theory DC_Config
  imports DC_Json DC_Crypto
begin

text \<open>
  The configuration: \<open>config::ConfigField\<close> and its names (src/domain/config/IConfig.hpp, IConfig.cpp),
  \<open>json::JsonFile\<close> (src/service/json/JsonFile.hpp), \<open>config::JsonConfig\<close>
  (src/infra/config/JsonConfig.cpp), and the \<open>config::GlobalState\<close> singleton
  (src/domain/config/GlobalState.cpp).
\<close>

datatype ConfigField = HOST | PORT | PUBLIC_KEY | PRIVATE_KEY

definition CONFIG_FIELDS :: "ConfigField list" where
  "CONFIG_FIELDS = [HOST, PORT, PUBLIC_KEY, PRIVATE_KEY]"

text \<open>The order of the enumerators, which is that of the keys of \<open>std::map<ConfigField, std::string>\<close>.\<close>

fun field_index :: "ConfigField \<Rightarrow> nat" where
  "field_index HOST = 0"
| "field_index PORT = 1"
| "field_index PUBLIC_KEY = 2"
| "field_index PRIVATE_KEY = 3"

lemma field_index_inj: "field_index a = field_index b \<Longrightarrow> a = b"
  by (cases a; cases b) simp_all

instantiation ConfigField :: linorder
begin

definition less_eq_ConfigField :: "ConfigField \<Rightarrow> ConfigField \<Rightarrow> bool" where
  "less_eq_ConfigField a b \<longleftrightarrow> field_index a \<le> field_index b"

definition less_ConfigField :: "ConfigField \<Rightarrow> ConfigField \<Rightarrow> bool" where
  "less_ConfigField a b \<longleftrightarrow> field_index a < field_index b"

instance
  by standard (auto simp: less_eq_ConfigField_def less_ConfigField_def intro: field_index_inj)

end

lemma CONFIG_FIELDS_all: "set CONFIG_FIELDS = UNIV"
proof -
  have "k \<in> set CONFIG_FIELDS" for k by (cases k) (simp_all add: CONFIG_FIELDS_def)
  then show ?thesis by blast
qed

lemma CONFIG_FIELDS_sorted: "sorted CONFIG_FIELDS" "distinct CONFIG_FIELDS"
  by (simp_all add: CONFIG_FIELDS_def less_eq_ConfigField_def)

lemma CONFIG_FIELDS_eq: "sorted_list_of_set UNIV = CONFIG_FIELDS"
  using sorted_list_of_set.idem_if_sorted_distinct [of CONFIG_FIELDS] CONFIG_FIELDS_sorted
  by (simp add: CONFIG_FIELDS_all)

fun configFieldToString :: "ConfigField \<Rightarrow> string" where
  "configFieldToString HOST = ''host''"
| "configFieldToString PORT = ''port''"
| "configFieldToString PUBLIC_KEY = ''public_key''"
| "configFieldToString PRIVATE_KEY = ''private_key''"

definition stringToConfigField :: "string \<Rightarrow> ConfigField res" where
  "stringToConfigField key =
     (if key = ''host'' then Inr HOST
      else if key = ''port'' then Inr PORT
      else if key = ''public_key'' then Inr PUBLIC_KEY
      else if key = ''private_key'' then Inr PRIVATE_KEY
      else Inl (Std_Exc ''Unknown config field''))"

lemma config_field_roundtrip_aux [simp]: "stringToConfigField (configFieldToString k) = Inr k"
  by (cases k) (simp_all add: stringToConfigField_def)

subsection \<open>JsonFile\<close>

text \<open>A file: whether it can be opened for reading and writing, and its text.\<close>

record disk_file =
  f_readable :: bool
  f_writable :: bool
  f_text :: string

definition JsonFile_read :: "('j, 'x) json_lib_scheme \<Rightarrow> disk_file \<Rightarrow> 'j res" where
  "JsonFile_read J f =
     (if \<not> f_readable f then Inl (Std_Exc ''Cannot open file'')
      else catch_std (json_parse J (f_text f)) (\<lambda>e.
             Inl (Std_Exc (''Error reading JSON file: '' @ what e))))"

text \<open>Opening a file for writing creates it; the path of the error text is left out.\<close>

definition JsonFile_writeJson :: "('j, 'x) json_lib_scheme \<Rightarrow> 'j \<Rightarrow> disk_file \<Rightarrow> disk_file res" where
  "JsonFile_writeJson J jData f =
     (if \<not> f_writable f then Inl (Std_Exc ''Cannot open file for writing: '')
      else catch_std (bnd (json_pretty J jData) (\<lambda>t. Inr (f\<lparr>f_readable := True, f_text := t\<rparr>)))
             (\<lambda>e. Inl (Std_Exc (''Error writing JSON file: '' @ what e))))"

text \<open>\<open>write\<close> of a map, given in the order of its keys.\<close>

definition JsonFile_write ::
  "('j, 'x) json_lib_scheme \<Rightarrow> (string \<times> 'j) list \<Rightarrow> disk_file \<Rightarrow> disk_file res" where
  "JsonFile_write J data f =
     JsonFile_writeJson J (fold (\<lambda>(key, value) jData. json_set J jData key value) data (json_null J)) f"

subsection \<open>JsonConfig\<close>

type_synonym config_data = "ConfigField \<Rightarrow> string option"

definition config_get :: "config_data \<Rightarrow> ConfigField \<Rightarrow> string res" where
  "config_get data key =
     (case data key of None \<Rightarrow> Inl (Out_Of_Range ''map::at'') | Some v \<Rightarrow> Inr v)"

record json_config =
  cfg_file :: disk_file
  cfg_data :: config_data

text \<open>
  The default file. The argument \<open>freePort\<close> of the functions below is what \<open>SocketClient::findFreePort()\<close>
  returns or throws.
\<close>

definition default_json ::
  "('j, 'x) json_lib_scheme \<Rightarrow> ICrypto \<Rightarrow> u16 \<Rightarrow> bytes \<Rightarrow> bytes \<Rightarrow> 'j" where
  "default_json J C freePort pub priv =
     (let jData = json_null J;
          jData = json_set J jData ''host'' (json_of_string J ''127.0.0.1'');
          jData = json_set J jData ''port'' (json_of_string J (to_string (unat freePort)));
          jData = json_set J jData ''public_key'' (json_of_string J (keyToString C pub));
          jData = json_set J jData ''private_key'' (json_of_string J (keyToString C priv));
          jData = json_set J jData ''trustedPeerList'' (json_array J [])
      in jData)"

definition generatedDefaultConfig ::
  "('j, 'x) json_lib_scheme \<Rightarrow> ICrypto \<Rightarrow> u16 res \<Rightarrow> disk_file \<Rightarrow> disk_file res" where
  "generatedDefaultConfig J C freePort f =
     bnd (generateKeyPair C) (\<lambda>(pub, priv).
     bnd freePort (\<lambda>port.
       JsonFile_writeJson J (default_json J C port pub priv) f))"

text \<open>The loop of the constructor: string members become entries, an unknown name throws.\<close>

definition load_item ::
  "('j, 'x) json_lib_scheme \<Rightarrow> string \<times> 'j \<Rightarrow> config_data \<Rightarrow> config_data res" where
  "load_item J item data =
     (if json_is_string J (snd item)
      then bnd (stringToConfigField (fst item)) (\<lambda>k.
           bnd (json_get_string J (snd item)) (\<lambda>v. Inr (data(k \<mapsto> v))))
      else Inr data)"

definition JsonConfig ::
  "('j, 'x) json_lib_scheme \<Rightarrow> ICrypto \<Rightarrow> u16 res \<Rightarrow> disk_file \<Rightarrow> json_config res" where
  "JsonConfig J C freePort f =
     bnd (case JsonFile_read J f of
            Inr jData \<Rightarrow> Inr (f, jData)
          | Inl Undefined \<Rightarrow> Inl Undefined
          | Inl e \<Rightarrow>
              bnd (if what e = ''Cannot open file'' then generatedDefaultConfig J C freePort f else Inr f)
                (\<lambda>f'. bnd (JsonFile_read J f') (\<lambda>jData. Inr (f', jData)))) (\<lambda>(f', jData).
     bnd (json_items J jData) (\<lambda>items.
     bnd (fold_res (load_item J) items Map.empty) (\<lambda>data.
       Inr \<lparr> cfg_file = f', cfg_data = data \<rparr>)))"

definition trusted_list :: "('j, 'x) json_lib_scheme \<Rightarrow> 'j \<Rightarrow> 'j list option res" where
  "trusted_list J jData =
     (if json_contains J jData ''trustedPeerList''
      then bnd (json_at J jData ''trustedPeerList'') (\<lambda>l.
             Inr (if json_is_array J l then Some (json_elems J l) else None))
      else Inr None)"

definition loadTrustedPeerList :: "('j, 'x) json_lib_scheme \<Rightarrow> json_config \<Rightarrow> string list res" where
  "loadTrustedPeerList J c =
     bnd (JsonFile_read J (cfg_file c)) (\<lambda>jData.
     bnd (trusted_list J jData) (\<lambda>l.
       case l of
         None \<Rightarrow> Inl (Std_Exc ''Missing 'trustedPeerList' in configuration'')
       | Some js \<Rightarrow>
           traverse (\<lambda>p. if json_is_string J p then json_get_string J p
             else Inl (Std_Exc ''Invalid 'trustedPeerList' found in configuration'')) js))"

definition config_isValid :: "('j, 'x) json_lib_scheme \<Rightarrow> json_config \<Rightarrow> bool res" where
  "config_isValid J c =
     (if \<not> list_all (\<lambda>k. cfg_data c k \<noteq> None) CONFIG_FIELDS then Inr False
      else
        bnd (JsonFile_read J (cfg_file c)) (\<lambda>jData.
        bnd (trusted_list J jData) (\<lambda>l. Inr (l \<noteq> None))))"

text \<open>Of a valid configuration every field can be read.\<close>

lemma config_complete:
  assumes "config_isValid J c = Inr True"
  shows "\<exists>v. config_get (cfg_data c) k = Inr v"
proof -
  have "list_all (\<lambda>k. cfg_data c k \<noteq> None) CONFIG_FIELDS"
    using assms by (simp add: config_isValid_def split: if_splits)
  then have "cfg_data c k \<noteq> None" by (simp add: list_all_iff CONFIG_FIELDS_all)
  then show ?thesis by (auto simp: config_get_def)
qed

subsection \<open>GlobalState\<close>

text \<open>A static object: both counters start at zero.\<close>

record global_state =
  gs_peersToReceive :: u32
  gs_missingBlocksCount :: u32

definition GlobalState :: global_state where
  "GlobalState = \<lparr> gs_peersToReceive = 0, gs_missingBlocksCount = 0 \<rparr>"

definition getPeersToReceive :: "global_state \<Rightarrow> u32" where [simp]:
  "getPeersToReceive g = gs_peersToReceive g"

definition getMissingBlocksCount :: "global_state \<Rightarrow> u32" where [simp]:
  "getMissingBlocksCount g = gs_missingBlocksCount g"

definition setPeersToReceive :: "u32 \<Rightarrow> global_state \<Rightarrow> global_state" where
  "setPeersToReceive v g = g\<lparr>gs_peersToReceive := v\<rparr>"

definition setMissingBlocksCount :: "u32 \<Rightarrow> global_state \<Rightarrow> global_state" where
  "setMissingBlocksCount v g = g\<lparr>gs_missingBlocksCount := v\<rparr>"

end
