(* ===== verification/DC_Db.thy ===== *)
theory DC_Db
  imports DC_Text
begin

text \<open>
  \<open>db::DBFile\<close> (src/service/db/DBFile.hpp, DBFile.cpp), the wrapper of one SQLite connection, and the
  schema of the database file. SQLite itself is third-party: what it answers to \<open>sqlite3_open\<close>, the
  text of its error messages and the text an INTEGER column gives back for a text bound to it are the
  fields of the parameter \<open>sqlite\<close>. An SQL statement of the source is the HOL function on the tables
  that it denotes; \<open>None\<close> is a statement that does not prepare (its table does not exist).
  Run-time failures of SQLite other than a violated constraint (a full disk, a busy file) are not
  modelled.
\<close>

record sqlite =
  sq_open :: "string \<Rightarrow> bool"
  sq_errmsg :: string
  sq_int :: "string \<Rightarrow> string"

record 't dbfile =
  db_path :: string
  db_handle :: bool        \<comment> \<open>\<open>db != nullptr\<close>\<close>
  db_locked :: bool        \<comment> \<open>the mutex is held by the running thread\<close>
  db_data :: 't

definition DBFile :: "string \<Rightarrow> 't \<Rightarrow> 't dbfile" where
  "DBFile p t = \<lparr> db_path = p, db_handle = False, db_locked = False, db_data = t \<rparr>"

text \<open>
  \<open>std::lock_guard\<close> on a non-recursive mutex: locking it again on the same thread is undefined
  behaviour. Another thread's call waits, so the calls of the model are atomic.
\<close>

definition lock_guard :: "'t dbfile \<Rightarrow> 't dbfile res" where
  "lock_guard d = (if db_locked d then Inl Undefined else Inr (d\<lparr>db_locked := True\<rparr>))"

definition unlock :: "'t dbfile \<Rightarrow> 't dbfile" where
  "unlock d = d\<lparr>db_locked := False\<rparr>"

definition DBFile_open :: "sqlite \<Rightarrow> 't dbfile \<Rightarrow> 't dbfile res" where
  "DBFile_open Q d =
     bnd (lock_guard d) (\<lambda>d.
       if db_handle d then Inr (unlock d)
       else if sq_open Q (db_path d) then Inr (unlock (d\<lparr>db_handle := True\<rparr>))
       else Inl (Std_Exc (''DBFile: failed to open database: '' @ sq_errmsg Q)))"

definition DBFile_close :: "'t dbfile \<Rightarrow> 't dbfile res" where
  "DBFile_close d = bnd (lock_guard d) (\<lambda>d. Inr (unlock (d\<lparr>db_handle := False\<rparr>)))"

text \<open>\<open>if (!db) open();\<close>, reached with the lock held.\<close>

definition ensure_open :: "sqlite \<Rightarrow> 't dbfile \<Rightarrow> 't dbfile res" where
  "ensure_open Q d = (if db_handle d then Inr d else DBFile_open Q d)"

definition DBFile_exec :: "sqlite \<Rightarrow> ('t \<Rightarrow> 't option) \<Rightarrow> 't dbfile \<Rightarrow> 't dbfile res" where
  "DBFile_exec Q sql d =
     bnd (lock_guard d) (\<lambda>d. bnd (ensure_open Q d) (\<lambda>d.
       case sql (db_data d) of
         None \<Rightarrow> Inl (Std_Exc (''DBFile exec failed: '' @ sq_errmsg Q))
       | Some t \<Rightarrow> Inr (unlock (d\<lparr>db_data := t\<rparr>))))"

text \<open>The text of a column: NULL is the empty string, a value is read up to its first NUL.\<close>

definition column_text :: "string option \<Rightarrow> string" where
  "column_text c = (case c of None \<Rightarrow> '''' | Some s \<Rightarrow> c_str s)"

definition DBFile_select ::
  "sqlite \<Rightarrow> ('t \<Rightarrow> string option list list option) \<Rightarrow> (string list \<Rightarrow> 'a \<Rightarrow> 'a res) \<Rightarrow>
   't dbfile \<Rightarrow> 'a \<Rightarrow> 'a res" where
  "DBFile_select Q sql callback d acc =
     bnd (lock_guard d) (\<lambda>d. bnd (ensure_open Q d) (\<lambda>d.
       case sql (db_data d) of
         None \<Rightarrow> Inl (Std_Exc (''DBFile select prepare failed: '' @ sq_errmsg Q))
       | Some rows \<Rightarrow> fold_res callback (map (map column_text) rows) acc))"

text \<open>\<open>bindParams\<close> binds \<open>c_str()\<close> with length -1: a parameter ends at its first NUL.\<close>

definition bindParams :: "string list \<Rightarrow> string list" where
  "bindParams params = map c_str params"

definition DBFile_selectPrepared ::
  "sqlite \<Rightarrow> (string list \<Rightarrow> 't \<Rightarrow> string option list list option) \<Rightarrow> string list \<Rightarrow>
   (string list \<Rightarrow> 'a \<Rightarrow> 'a res) \<Rightarrow> 't dbfile \<Rightarrow> 'a \<Rightarrow> 'a res" where
  "DBFile_selectPrepared Q sql params callback d acc =
     bnd (lock_guard d) (\<lambda>d. bnd (ensure_open Q d) (\<lambda>d.
       case sql (bindParams params) (db_data d) of
         None \<Rightarrow> Inl (Std_Exc (''DBFile selectPrepared prepare failed: '' @ sq_errmsg Q))
       | Some rows \<Rightarrow> fold_res callback (map (map column_text) rows) acc))"

text \<open>
  \<open>executePrepared\<close>: a statement that does not prepare is \<open>false\<close>, and so is one whose step is not
  \<open>SQLITE_DONE\<close> (a violated constraint); the statement yields the flag and the new tables.
\<close>

definition DBFile_executePrepared ::
  "sqlite \<Rightarrow> (string list \<Rightarrow> 't \<Rightarrow> (bool \<times> 't) option) \<Rightarrow> string list \<Rightarrow> 't dbfile \<Rightarrow>
   (bool \<times> 't dbfile) res" where
  "DBFile_executePrepared Q sql params d =
     bnd (lock_guard d) (\<lambda>d. bnd (ensure_open Q d) (\<lambda>d.
       case sql (bindParams params) (db_data d) of
         None \<Rightarrow> Inr (False, unlock d)
       | Some (ok, t) \<Rightarrow> Inr (ok, unlock (d\<lparr>db_data := t\<rparr>))))"

definition DBFile_isOpen :: "'t dbfile \<Rightarrow> bool res" where
  "DBFile_isOpen d = bnd (lock_guard d) (\<lambda>d. Inr (db_handle d))"

subsection \<open>A usable connection\<close>

definition db_ready :: "'t dbfile \<Rightarrow> bool" where
  "db_ready d \<longleftrightarrow> db_handle d \<and> \<not> db_locked d"

lemma db_ready_update [simp]: "db_ready (d\<lparr>db_data := t\<rparr>) = db_ready d"
  by (simp add: db_ready_def)

lemma DBFile_open_ready: "\<not> db_locked d \<Longrightarrow> DBFile_open Q d = Inr d' \<Longrightarrow>
    db_ready d' \<and> db_data d' = db_data d"
  by (auto simp: DBFile_open_def lock_guard_def unlock_def db_ready_def split: if_splits)

lemma select_ready:
  "db_ready d \<Longrightarrow> sql (db_data d) = Some rows \<Longrightarrow>
   DBFile_select Q sql callback d acc = fold_res callback (map (map column_text) rows) acc"
  by (simp add: DBFile_select_def lock_guard_def ensure_open_def db_ready_def)

lemma selectPrepared_ready:
  "db_ready d \<Longrightarrow> sql (map c_str params) (db_data d) = Some rows \<Longrightarrow>
   DBFile_selectPrepared Q sql params callback d acc =
     fold_res callback (map (map column_text) rows) acc"
  by (simp add: DBFile_selectPrepared_def lock_guard_def ensure_open_def db_ready_def bindParams_def)

lemma executePrepared_ready:
  "db_ready d \<Longrightarrow> sql (map c_str params) (db_data d) = Some (ok, t) \<Longrightarrow>
   DBFile_executePrepared Q sql params d = Inr (ok, d\<lparr>db_data := t\<rparr>)"
  by (simp add: DBFile_executePrepared_def lock_guard_def ensure_open_def db_ready_def bindParams_def
      unlock_def)

lemma executePrepared_Inr:
  assumes "DBFile_executePrepared Q sql params d = Inr (ok, d')"
  shows "d' = d \<or> (\<exists>t. sql (map c_str params) (db_data d) = Some (ok, t) \<and> d' = d\<lparr>db_data := t\<rparr>)"
  using assms
  by (cases d) (auto simp: DBFile_executePrepared_def lock_guard_def ensure_open_def DBFile_open_def
      bindParams_def unlock_def split: if_splits option.splits)

lemma exec_ready:
  "db_ready d \<Longrightarrow> sql (db_data d) = Some t \<Longrightarrow> DBFile_exec Q sql d = Inr (d\<lparr>db_data := t\<rparr>)"
  by (simp add: DBFile_exec_def lock_guard_def ensure_open_def db_ready_def unlock_def)

lemmas db_ready_simps = select_ready selectPrepared_ready executePrepared_ready exec_ready

text \<open>The connection is closed: every statement relocks the mutex it holds.\<close>

lemma closed_statements_undefined:
  assumes "\<not> db_handle d"
  shows "DBFile_exec Q sql d = Inl Undefined"
    and "DBFile_select Q sel callback d acc = Inl Undefined"
    and "DBFile_selectPrepared Q selp params callback d acc = Inl Undefined"
    and "DBFile_executePrepared Q stm params d = Inl Undefined"
  using assms
  by (auto simp: DBFile_exec_def DBFile_select_def DBFile_selectPrepared_def
      DBFile_executePrepared_def lock_guard_def ensure_open_def DBFile_open_def)

subsection \<open>The schema of d-chat.db\<close>

text \<open>
  A table with an \<open>INTEGER PRIMARY KEY AUTOINCREMENT\<close>: its rows in the order of their keys, and the
  last key handed out. A table is \<open>None\<close> before its \<open>CREATE TABLE\<close>.
\<close>

record 'r table =
  trows :: "'r list"
  tseq :: nat

definition empty_table :: "'r table" where
  "empty_table = \<lparr> trows = [], tseq = 0 \<rparr>"

record block_row =
  br_id :: nat
  br_hash :: string
  br_previous_hash :: string
  br_payload_hash :: string
  br_author_public_key :: string
  br_signature :: string
  br_timestamp :: string

record message_row =
  mr_id :: nat
  mr_message_id :: string
  mr_to_public_key :: string
  mr_from_public_key :: string
  mr_timestamp :: string
  mr_message_json :: string
  mr_block_hash :: string

record peer_row =
  pr_id :: nat
  pr_host :: string
  pr_port :: string
  pr_public_key :: string

record tables =
  blocks_t :: "block_row table option"
  messages_t :: "message_row table option"
  peers_t :: "peer_row table option"

definition no_tables :: tables where
  "no_tables = \<lparr> blocks_t = None, messages_t = None, peers_t = None \<rparr>"

type_synonym db = "tables dbfile"

definition create_if_missing :: "'r table option \<Rightarrow> 'r table option" where
  "create_if_missing t = (case t of None \<Rightarrow> Some empty_table | Some x \<Rightarrow> Some x)"

end
