(* ===== verification/DC_MessageDB.thy ===== *)
theory DC_MessageDB
  imports DC_MessageRepo DC_Config DC_Db "HOL-Library.Multiset"
begin

text \<open>
  \<open>message::MessageDB\<close> (src/infra/message/MessageDB.cpp), the SQLite message store, and the proof that
  it meets the contract \<open>message_repo\<close>. \<open>std::sort\<close> is not stable: the order it gives to messages of
  the same timestamp is the parameter \<open>srt\<close>.
\<close>

subsection \<open>The statements\<close>

definition with_messages :: "(message_row table \<Rightarrow> 'a) \<Rightarrow> tables \<Rightarrow> 'a option" where
  "with_messages f t = map_option f (messages_t t)"

text \<open>\<open>SELECT message_json FROM messages WHERE to_public_key=? AND from_public_key=?\<close>\<close>

definition sql_chat :: "string list \<Rightarrow> tables \<Rightarrow> string option list list option" where
  "sql_chat ps =
     with_messages (\<lambda>tab. map (\<lambda>r. [Some (mr_message_json r)])
       (filter (\<lambda>r. mr_to_public_key r = ps ! 0 \<and> mr_from_public_key r = ps ! 1) (trows tab)))"

text \<open>\<open>SELECT block_hash FROM messages WHERE message_id=? LIMIT 1\<close>\<close>

definition sql_block_hash :: "string list \<Rightarrow> tables \<Rightarrow> string option list list option" where
  "sql_block_hash ps =
     with_messages (\<lambda>tab. map (\<lambda>r. [Some (mr_block_hash r)])
       (take 1 (filter (\<lambda>r. mr_message_id r = ps ! 0) (trows tab))))"

text \<open>\<open>INSERT INTO messages(...) VALUES (?,?,?,?,?,?)\<close> under \<open>UNIQUE\<close> of \<open>message_id\<close>\<close>

definition sql_insert_message :: "sqlite \<Rightarrow> string list \<Rightarrow> tables \<Rightarrow> (bool \<times> tables) option" where
  "sql_insert_message Q ps t =
     map_option (\<lambda>tab.
       if \<exists>r \<in> set (trows tab). mr_message_id r = ps ! 0 then (False, t)
       else (True, t\<lparr>messages_t := Some \<lparr>
              trows = trows tab @ [\<lparr> mr_id = Suc (tseq tab), mr_message_id = ps ! 0,
                mr_to_public_key = ps ! 1, mr_from_public_key = ps ! 2,
                mr_timestamp = sq_int Q (ps ! 3), mr_message_json = ps ! 4,
                mr_block_hash = ps ! 5 \<rparr>],
              tseq = Suc (tseq tab) \<rparr>\<rparr>)) (messages_t t)"

text \<open>\<open>DELETE FROM messages WHERE ...\<close>: it succeeds whether or not a row matches.\<close>

definition sql_delete_messages :: "(message_row \<Rightarrow> bool) \<Rightarrow> tables \<Rightarrow> (bool \<times> tables) option" where
  "sql_delete_messages P t =
     map_option (\<lambda>tab.
       (True, t\<lparr>messages_t := Some (tab\<lparr>trows := filter (\<lambda>r. \<not> P r) (trows tab)\<rparr>)\<rparr>)) (messages_t t)"

subsection \<open>The methods\<close>

definition MessageDB_init :: "sqlite \<Rightarrow> db \<Rightarrow> db res" where
  "MessageDB_init Q d =
     bnd (DBFile_open Q d) (\<lambda>d.
     bnd (DBFile_exec Q (\<lambda>t. Some (t\<lparr>messages_t := create_if_missing (messages_t t)\<rparr>)) d) (\<lambda>d.
       DBFile_exec Q (\<lambda>t. map_option (\<lambda>_. t) (messages_t t)) d))"

text \<open>
  The callback: a text that does not parse throws out of the query (third component), a message that
  cannot be rebuilt sets \<open>error\<close>. Once it has thrown, no further row is read.
\<close>

definition emplace_message ::
  "('j, 'x) json_lib_scheme \<Rightarrow> ICrypto \<Rightarrow> config_data \<Rightarrow> bool \<Rightarrow> string list \<Rightarrow>
   text_message list \<times> bool \<times> exc option \<Rightarrow> (text_message list \<times> bool \<times> exc option) res" where
  "emplace_message J C cfg invert row = (\<lambda>(ms, error, thrown).
     if thrown \<noteq> None \<or> length row < 1 then Inr (ms, error, thrown)
     else case json_parse J (row ! 0) of
            Inl e \<Rightarrow> Inr (ms, error, Some e)
          | Inr jData \<Rightarrow>
              (case bnd (config_get cfg PRIVATE_KEY)
                      (\<lambda>k. TextMessage_of_json J C jData k invert True) of
                 Inr m \<Rightarrow> Inr (ms @ [m], error, None)
               | Inl Undefined \<Rightarrow> Inr (ms, error, Some Undefined)
               | Inl e \<Rightarrow> Inr (ms, True, None)))"

definition MessageDB_findChatMessages ::
  "('j, 'x) json_lib_scheme \<Rightarrow> ICrypto \<Rightarrow> config_data \<Rightarrow> (text_message list \<Rightarrow> text_message list) \<Rightarrow>
   sqlite \<Rightarrow> string \<Rightarrow> string \<Rightarrow> db \<Rightarrow> text_message list \<Rightarrow> text_message list \<times> exc option" where
  "MessageDB_findChatMessages J C cfg srt Q peerA peerB d messages =
     (case DBFile_selectPrepared Q sql_chat [peerA, peerB] (emplace_message J C cfg False) d
             (messages, False, None) of
        Inl e \<Rightarrow> (messages, Some e)
      | Inr (ms, error, Some e) \<Rightarrow> (ms, Some e)
      | Inr (ms, error, None) \<Rightarrow>
          (case DBFile_selectPrepared Q sql_chat [peerB, peerA] (emplace_message J C cfg True) d
                  (ms, error, None) of
             Inl e \<Rightarrow> (ms, Some e)
           | Inr (ms', error', Some e) \<Rightarrow> (ms', Some e)
           | Inr (ms', error', None) \<Rightarrow>
               (srt ms', if error' then Some (Std_Exc ''std::exception'') else None)))"

definition set_block_hash :: "string list \<Rightarrow> bool \<times> string \<Rightarrow> (bool \<times> string) res" where
  "set_block_hash row acc = Inr (if row \<noteq> [] then (True, row ! 0) else acc)"

definition MessageDB_findBlockHashByMessageId ::
  "sqlite \<Rightarrow> string \<Rightarrow> string \<Rightarrow> db \<Rightarrow> (bool \<times> string) res" where
  "MessageDB_findBlockHashByMessageId Q messageId blockHash d =
     DBFile_selectPrepared Q sql_block_hash [messageId] set_block_hash d (False, blockHash)"

definition MessageDB_insertSecretMessage ::
  "sqlite \<Rightarrow> text_message \<Rightarrow> string \<Rightarrow> string \<Rightarrow> db \<Rightarrow> (bool \<times> db) res" where
  "MessageDB_insertSecretMessage Q m messageDump blockHash d =
     DBFile_executePrepared Q (sql_insert_message Q)
       [m_id m, publicKey (m_to m), publicKey (m_from m), to_string (unat (m_timestamp m)),
        messageDump, blockHash] d"

definition MessageDB_removeMessageByBlockHash :: "sqlite \<Rightarrow> string \<Rightarrow> db \<Rightarrow> (bool \<times> db) res" where
  "MessageDB_removeMessageByBlockHash Q blockHash d =
     DBFile_executePrepared Q (\<lambda>ps. sql_delete_messages (\<lambda>r. mr_block_hash r = ps ! 0)) [blockHash] d"

text \<open>The text of the statement is \<open>WHERE id=?\<close>: the integer key, not the \<open>message_id\<close>.\<close>

definition MessageDB_removeMessageById :: "sqlite \<Rightarrow> string \<Rightarrow> db \<Rightarrow> (bool \<times> db) res" where
  "MessageDB_removeMessageById Q messageId d =
     DBFile_executePrepared Q
       (\<lambda>ps. sql_delete_messages (\<lambda>r. to_string (mr_id r) = sq_int Q (ps ! 0))) [messageId] d"

definition MessageDB ::
  "('j, 'x) json_lib_scheme \<Rightarrow> ICrypto \<Rightarrow> config_data \<Rightarrow> (text_message list \<Rightarrow> text_message list) \<Rightarrow>
   sqlite \<Rightarrow> db IMessageRepo" where
  "MessageDB J C cfg srt Q = \<lparr> findChatMessages = MessageDB_findChatMessages J C cfg srt Q,
     findBlockHashByMessageId = MessageDB_findBlockHashByMessageId Q,
     insertSecretMessage = MessageDB_insertSecretMessage Q,
     removeMessageByBlockHash = MessageDB_removeMessageByBlockHash Q,
     removeMessageById = MessageDB_removeMessageById Q \<rparr>"

subsection \<open>Abstraction and invariant\<close>

definition row_stored :: "message_row \<Rightarrow> stored_message" where
  "row_stored r = \<lparr> st_id = mr_message_id r, st_to = mr_to_public_key r,
     st_from = mr_from_public_key r, st_json = mr_message_json r, st_block = mr_block_hash r \<rparr>"

definition message_rows :: "db \<Rightarrow> message_row list" where
  "message_rows d = (case messages_t (db_data d) of None \<Rightarrow> [] | Some tab \<Rightarrow> trows tab)"

definition db_messages :: "db \<Rightarrow> stored_message list" where
  "db_messages d = map row_stored (message_rows d)"

text \<open>
  The table exists, its keys rise and are at most the sequence number, message identifiers are unique
  and what the columns give back is what they hold.
\<close>

definition message_db_inv :: "db \<Rightarrow> bool" where
  "message_db_inv d \<longleftrightarrow> db_ready d \<and>
     (\<exists>tab. messages_t (db_data d) = Some tab \<and>
        sorted_wrt (<) (map mr_id (trows tab)) \<and> (\<forall>r \<in> set (trows tab). mr_id r \<le> tseq tab) \<and>
        distinct (map mr_message_id (trows tab)) \<and>
        (\<forall>r \<in> set (trows tab). CHR 0x00 \<notin> set (mr_message_json r) \<and>
           CHR 0x00 \<notin> set (mr_block_hash r)))"

lemma row_stored_fields [simp]:
  "st_id (row_stored r) = mr_message_id r" "st_to (row_stored r) = mr_to_public_key r"
  "st_from (row_stored r) = mr_from_public_key r" "st_json (row_stored r) = mr_message_json r"
  "st_block (row_stored r) = mr_block_hash r"
  by (simp_all add: row_stored_def)

lemma message_db_invE:
  assumes "message_db_inv d"
  obtains tab where "db_ready d" "messages_t (db_data d) = Some tab"
    "sorted_wrt (<) (map mr_id (trows tab))" "\<forall>r \<in> set (trows tab). mr_id r \<le> tseq tab"
    "distinct (map mr_message_id (trows tab))"
    "\<forall>r \<in> set (trows tab). CHR 0x00 \<notin> set (mr_message_json r) \<and> CHR 0x00 \<notin> set (mr_block_hash r)"
    "db_messages d = map row_stored (trows tab)"
  using assms by (auto simp: message_db_inv_def db_messages_def message_rows_def)

lemma MessageDB_insert:
  assumes "message_db_inv d"
  shows "\<exists>d'. MessageDB_insertSecretMessage Q m dump h d =
      Inr (c_str (m_id m) \<notin> st_id ` set (db_messages d), d') \<and> message_db_inv d' \<and>
    db_messages d' = (if c_str (m_id m) \<in> st_id ` set (db_messages d) then db_messages d
      else db_messages d @ [stored m dump h])"
proof -
  obtain tab where tab: "db_ready d" "messages_t (db_data d) = Some tab"
    "sorted_wrt (<) (map mr_id (trows tab))" "\<forall>r \<in> set (trows tab). mr_id r \<le> tseq tab"
    "distinct (map mr_message_id (trows tab))"
    "\<forall>r \<in> set (trows tab). CHR 0x00 \<notin> set (mr_message_json r) \<and> CHR 0x00 \<notin> set (mr_block_hash r)"
    "db_messages d = map row_stored (trows tab)"
    using assms by (rule message_db_invE)
  let ?row = "\<lparr> mr_id = Suc (tseq tab), mr_message_id = c_str (m_id m),
     mr_to_public_key = c_str (publicKey (m_to m)), mr_from_public_key = c_str (publicKey (m_from m)),
     mr_timestamp = sq_int Q (to_string (unat (m_timestamp m))), mr_message_json = c_str dump,
     mr_block_hash = c_str h \<rparr>"
  let ?d' = "d\<lparr>db_data := (db_data d)\<lparr>messages_t :=
    Some \<lparr> trows = trows tab @ [?row], tseq = Suc (tseq tab) \<rparr>\<rparr>\<rparr>"
  have ids: "st_id ` set (db_messages d) = mr_message_id ` set (trows tab)"
    by (simp add: tab(7) image_image)
  show ?thesis
  proof (cases "c_str (m_id m) \<in> mr_message_id ` set (trows tab)")
    case True
    then have "MessageDB_insertSecretMessage Q m dump h d = Inr (False, d)"
      unfolding MessageDB_insertSecretMessage_def
      by (subst executePrepared_ready [OF tab(1), where ok = False and t = "db_data d"])
        (auto simp: sql_insert_message_def tab(2))
    with True assms show ?thesis by (simp add: ids)
  next
    case False
    then have "\<forall>r \<in> set (trows tab). mr_message_id r \<noteq> c_str (m_id m)" by force
    then have "MessageDB_insertSecretMessage Q m dump h d = Inr (True, ?d')"
      unfolding MessageDB_insertSecretMessage_def
      by (subst executePrepared_ready [OF tab(1), where ok = True and t = "db_data ?d'"])
        (auto simp: sql_insert_message_def tab(2))
    moreover have "message_db_inv ?d'"
      using tab False by (auto simp: message_db_inv_def sorted_wrt_append le_Suc_eq less_Suc_eq_le)
    moreover have "db_messages ?d' = db_messages d @ [stored m dump h]"
      by (simp add: tab(7)) (simp add: db_messages_def message_rows_def row_stored_def stored_def)
    ultimately show ?thesis using False by (auto simp: ids)
  qed
qed

lemma MessageDB_delete:
  assumes "message_db_inv d"
  shows "\<exists>d'. DBFile_executePrepared Q (\<lambda>ps. sql_delete_messages (P ps)) ps d = Inr (True, d') \<and>
    message_db_inv d' \<and> message_rows d' = filter (\<lambda>r. \<not> P (map c_str ps) r) (message_rows d)"
proof -
  obtain tab where tab: "db_ready d" "messages_t (db_data d) = Some tab"
    "sorted_wrt (<) (map mr_id (trows tab))" "\<forall>r \<in> set (trows tab). mr_id r \<le> tseq tab"
    "distinct (map mr_message_id (trows tab))"
    "\<forall>r \<in> set (trows tab). CHR 0x00 \<notin> set (mr_message_json r) \<and> CHR 0x00 \<notin> set (mr_block_hash r)"
    using assms by (rule message_db_invE)
  let ?rows = "filter (\<lambda>r. \<not> P (map c_str ps) r) (trows tab)"
  let ?d' = "d\<lparr>db_data := (db_data d)\<lparr>messages_t := Some (tab\<lparr>trows := ?rows\<rparr>)\<rparr>\<rparr>"
  have "DBFile_executePrepared Q (\<lambda>ps. sql_delete_messages (P ps)) ps d = Inr (True, ?d')"
    by (subst executePrepared_ready [OF tab(1), where ok = True and t = "db_data ?d'"])
      (auto simp: sql_delete_messages_def tab(2))
  moreover have "message_db_inv ?d'"
    using tab by (auto simp: message_db_inv_def distinct_map_filter sorted_wrt_filter sorted_wrt_map)
  ultimately show ?thesis by (simp add: message_rows_def tab(2))
qed

lemma MessageDB_remove_block:
  assumes "message_db_inv d"
  shows "\<exists>d'. MessageDB_removeMessageByBlockHash Q h d = Inr (True, d') \<and> message_db_inv d' \<and>
    db_messages d' = filter (\<lambda>e. st_block e \<noteq> c_str h) (db_messages d)"
  using MessageDB_delete [OF assms, of Q "\<lambda>ps r. mr_block_hash r = ps ! 0" "[h]"]
  by (auto simp: MessageDB_removeMessageByBlockHash_def db_messages_def filter_map comp_def)

text \<open>The removal by \<open>id\<close>: the rows whose integer key the text denotes.\<close>

lemma MessageDB_remove_id:
  assumes "message_db_inv d"
  shows "\<exists>d'. MessageDB_removeMessageById Q i d = Inr (True, d') \<and> message_db_inv d' \<and>
    message_rows d' = filter (\<lambda>r. to_string (mr_id r) \<noteq> sq_int Q (c_str i)) (message_rows d)"
  using MessageDB_delete [OF assms, of Q "\<lambda>ps r. to_string (mr_id r) = sq_int Q (ps ! 0)" "[i]"]
  by (auto simp: MessageDB_removeMessageById_def)

lemma filter_map_distinct:
  assumes "distinct (map f xs)"
  shows "\<exists>l. map f (filter P xs) = filter l (map f xs)"
proof
  have "P x \<longleftrightarrow> f x \<in> f ` set (filter P xs)" if "x \<in> set xs" for x
    using assms that by (auto simp: distinct_map inj_on_def)
  then have "filter P xs = filter (\<lambda>x. f x \<in> f ` set (filter P xs)) xs"
    by (rule filter_cong [OF refl])
  then have "map f (filter P xs) = map f (filter (\<lambda>x. f x \<in> f ` set (filter P xs)) xs)"
    by (rule arg_cong)
  then show "map f (filter P xs) = filter (\<lambda>y. y \<in> f ` set (filter P xs)) (map f xs)"
    by (simp only: filter_map comp_def)
qed

lemma MessageDB_ids: "message_db_inv d \<Longrightarrow> distinct (map st_id (db_messages d))"
  by (auto simp: message_db_inv_def db_messages_def message_rows_def comp_def)

lemma MessageDB_block_of:
  assumes "message_db_inv d"
  shows "MessageDB_findBlockHashByMessageId Q i h d =
    Inr (case find (\<lambda>e. st_id e = c_str i) (db_messages d) of
           None \<Rightarrow> (False, h) | Some e \<Rightarrow> (True, st_block e))"
proof -
  obtain tab where tab: "db_ready d" "messages_t (db_data d) = Some tab"
    "\<forall>r \<in> set (trows tab). CHR 0x00 \<notin> set (mr_message_json r) \<and> CHR 0x00 \<notin> set (mr_block_hash r)"
    "db_messages d = map row_stored (trows tab)"
    using assms by (rule message_db_invE)
  have "MessageDB_findBlockHashByMessageId Q i h d =
    fold_res set_block_hash (map (map column_text) (map (\<lambda>r. [Some (mr_block_hash r)])
      (take 1 (filter (\<lambda>r. mr_message_id r = c_str i) (trows tab))))) (False, h)"
    unfolding MessageDB_findBlockHashByMessageId_def
    by (subst selectPrepared_ready [OF tab(1)])
      (auto simp: sql_block_hash_def with_messages_def tab(2))
  then show ?thesis
    using tab(3) unfolding take_1_filter tab(4)
    by (cases "find (\<lambda>r. mr_message_id r = c_str i) (trows tab)")
      (auto simp: find_map comp_def set_block_hash_def column_text_def dest: find_SomeD)
qed

interpretation mdb: message_repo "MessageDB J C cfg srt Q" db_messages message_db_inv
  for J C cfg srt Q
proof unfold_locales
  fix d m dump h i
  assume d: "message_db_inv d"
  show "\<exists>s'. insertSecretMessage (MessageDB J C cfg srt Q) m dump h d =
      Inr (c_str (m_id m) \<notin> st_id ` set (db_messages d), s') \<and> message_db_inv s' \<and>
      db_messages s' = (if c_str (m_id m) \<in> st_id ` set (db_messages d) then db_messages d
        else db_messages d @ [stored m dump h])"
    using MessageDB_insert [OF d] by (simp add: MessageDB_def)
  show "\<exists>s' l. removeMessageById (MessageDB J C cfg srt Q) i d = Inr (True, s') \<and>
      message_db_inv s' \<and> db_messages s' = filter l (db_messages d)"
  proof -
    obtain d' where d': "MessageDB_removeMessageById Q i d = Inr (True, d')" "message_db_inv d'"
      "message_rows d' = filter (\<lambda>r. to_string (mr_id r) \<noteq> sq_int Q (c_str i)) (message_rows d)"
      using MessageDB_remove_id [OF d] by blast
    have "distinct (map row_stored (message_rows d))"
      using MessageDB_ids [OF d] distinct_map [of st_id "db_messages d"] by (simp add: db_messages_def)
    from filter_map_distinct [OF this] d' show ?thesis
      by (auto simp: MessageDB_def db_messages_def)
  qed
  show "\<exists>s'. removeMessageByBlockHash (MessageDB J C cfg srt Q) h d = Inr (True, s') \<and>
      message_db_inv s' \<and> db_messages s' = filter (\<lambda>e. st_block e \<noteq> c_str h) (db_messages d)"
    using MessageDB_remove_block [OF d] by (simp add: MessageDB_def)
qed (simp_all add: MessageDB_def MessageDB_block_of MessageDB_ids)

subsection \<open>A chat is read back\<close>

text \<open>What \<open>std::sort\<close> promises: the same messages, the timestamps in order.\<close>

definition sorts_messages :: "(text_message list \<Rightarrow> text_message list) \<Rightarrow> bool" where
  "sorts_messages srt \<longleftrightarrow>
     (\<forall>ms. mset (srt ms) = mset ms \<and> sorted (map (\<lambda>m. unat (m_timestamp m)) (srt ms)))"

lemma sort_key_sorts: "sorts_messages (sort_key (\<lambda>m. unat (m_timestamp m)))"
  by (simp add: sorts_messages_def)

text \<open>The text a row holds, rebuilt as the query does.\<close>

definition rebuild ::
  "('j, 'x) json_lib_scheme \<Rightarrow> ICrypto \<Rightarrow> config_data \<Rightarrow> bool \<Rightarrow> stored_message \<Rightarrow> text_message res" where
  "rebuild J C cfg invert e =
     bnd (json_parse J (st_json e)) (\<lambda>j. bnd (config_get cfg PRIVATE_KEY) (\<lambda>k.
       TextMessage_of_json J C j k invert True))"

definition between :: "string \<Rightarrow> string \<Rightarrow> stored_message list \<Rightarrow> stored_message list" where
  "between t f es = filter (\<lambda>e. st_to e = c_str t \<and> st_from e = c_str f) es"

lemma fold_emplace:
  "(\<And>e. e \<in> set es \<Longrightarrow> rebuild J C cfg invert e = Inr (g e)) \<Longrightarrow>
   fold_res (emplace_message J C cfg invert) (map (\<lambda>e. [st_json e]) es) (ms, error, None) =
     Inr (ms @ map g es, error, None)"
proof (induction es arbitrary: ms)
  case (Cons e es)
  then have "rebuild J C cfg invert e = Inr (g e)" by simp
  then have "emplace_message J C cfg invert [st_json e] (ms, error, None) = Inr (ms @ [g e], error, None)"
    by (auto simp: emplace_message_def rebuild_def)
  with Cons show ?case by simp
qed simp

lemma select_chat:
  assumes d: "message_db_inv d"
    and g: "\<And>e. e \<in> set (between t f (db_messages d)) \<Longrightarrow> rebuild J C cfg invert e = Inr (g e)"
  shows "DBFile_selectPrepared Q sql_chat [t, f] (emplace_message J C cfg invert) d (ms, error, None) =
    Inr (ms @ map g (between t f (db_messages d)), error, None)"
proof -
  obtain tab where tab: "db_ready d" "messages_t (db_data d) = Some tab"
    "\<forall>r \<in> set (trows tab). CHR 0x00 \<notin> set (mr_message_json r) \<and> CHR 0x00 \<notin> set (mr_block_hash r)"
    "db_messages d = map row_stored (trows tab)"
    using d by (rule message_db_invE)
  have rows: "between t f (db_messages d) =
    map row_stored (filter (\<lambda>r. mr_to_public_key r = c_str t \<and> mr_from_public_key r = c_str f) (trows tab))"
    by (simp add: between_def tab(4) filter_map comp_def)
  have "DBFile_selectPrepared Q sql_chat [t, f] (emplace_message J C cfg invert) d (ms, error, None) =
    fold_res (emplace_message J C cfg invert) (map (\<lambda>e. [st_json e]) (between t f (db_messages d)))
      (ms, error, None)"
    unfolding rows by (subst selectPrepared_ready [OF tab(1)])
      (use tab(3) in \<open>auto simp: sql_chat_def with_messages_def tab(2) column_text_def comp_def
        intro!: arg_cong [where f = "\<lambda>l. fold_res (emplace_message J C cfg invert) l (ms, error, None)"]\<close>)
  then show ?thesis by (simp add: fold_emplace [OF g])
qed

text \<open>Both directions of the chat, all of it, in the order of the timestamps.\<close>

lemma findChatMessages_complete:
  assumes d: "message_db_inv d" and srt: "sorts_messages srt"
    and g: "\<And>e. e \<in> set (between a b (db_messages d)) \<Longrightarrow> rebuild J C cfg False e = Inr (g e)"
    and h: "\<And>e. e \<in> set (between b a (db_messages d)) \<Longrightarrow> rebuild J C cfg True e = Inr (h e)"
  shows "\<exists>out. MessageDB_findChatMessages J C cfg srt Q a b d [] = (out, None) \<and>
    mset out = mset (map g (between a b (db_messages d))) + mset (map h (between b a (db_messages d))) \<and>
    sorted (map (\<lambda>m. unat (m_timestamp m)) out)"
  using srt by (simp add: MessageDB_findChatMessages_def select_chat [OF d g] select_chat [OF d h]
      sorts_messages_def)

end
