(* ===== verification/DC_ChainRepo.thy ===== *)
theory DC_ChainRepo
  imports DC_Block
begin

text \<open>
  The interface \<open>blockchain::IChainRepo\<close> (src/domain/blockchain/IChainRepo.hpp) as a record of its
  methods over a repository state \<open>'s\<close>, and the contract of a chain repository as a locale. An
  out-parameter is a value passed in and returned.
\<close>

record 's IChainRepo =
  insertBlock :: "block \<Rightarrow> 's \<Rightarrow> (bool \<times> 's) res"
  findBlockByHash :: "string \<Rightarrow> block \<Rightarrow> 's \<Rightarrow> (bool \<times> block) res"
  getBlocksByIndexRange :: "u32 \<Rightarrow> u32 \<Rightarrow> string \<Rightarrow> 's \<Rightarrow> block list \<Rightarrow> block list res"
  countBlocksAfterHash :: "string \<Rightarrow> 's \<Rightarrow> u32 res"
  hasBlock :: "string \<Rightarrow> 's \<Rightarrow> bool res"
  loadAllBlocks :: "'s \<Rightarrow> block list \<Rightarrow> block list res"
  findTip :: "block \<Rightarrow> 's \<Rightarrow> (bool \<times> block) res"
  findTipIndex :: "u32 \<Rightarrow> 's \<Rightarrow> (bool \<times> u32) res"

subsection \<open>Abstract chain operations\<close>

fun index_where :: "('a \<Rightarrow> bool) \<Rightarrow> 'a list \<Rightarrow> nat option" where
  "index_where P [] = None"
| "index_where P (x # xs) = (if P x then Some 0 else map_option Suc (index_where P xs))"

text \<open>What a repository with NUL-terminated columns keeps of a block.\<close>

definition c_block :: "block \<Rightarrow> block" where
  "c_block b = b\<lparr>hash := c_str (hash b), previousHash := c_str (previousHash b),
     payloadHash := c_str (payloadHash b), authorPublicKey := c_str (authorPublicKey b),
     signature := c_str (signature b)\<rparr>"

text \<open>
  The insertion rule: hashes are unique, and no two blocks other than first ones (\<open>"0"\<close>) have the
  same predecessor.
\<close>

definition insert_ok :: "block list \<Rightarrow> block \<Rightarrow> bool" where
  "insert_ok c b \<longleftrightarrow>
     (previousHash b = ''0'' \<or> c_str (previousHash b) \<notin> previousHash ` set c) \<and>
     c_str (hash b) \<notin> hash ` set c"

definition tail_after :: "string \<Rightarrow> block list \<Rightarrow> block list option" where
  "tail_after h c =
     (if h = ''0'' then Some c
      else map_option (\<lambda>i. drop (Suc i) c) (index_where (\<lambda>b. hash b = c_str h) c))"

locale chain_repo =
  fixes R :: "'s IChainRepo"
    and chain :: "'s \<Rightarrow> block list"
    and inv :: "'s \<Rightarrow> bool"
    and timely :: "block \<Rightarrow> bool"
  assumes insert: "inv s \<Longrightarrow> timely b \<Longrightarrow>
      \<exists>s'. insertBlock R b s = Inr (insert_ok (chain s) b, s') \<and> inv s' \<and>
           chain s' = (if insert_ok (chain s) b then chain s @ [c_block b] else chain s)"
    and tip: "inv s \<Longrightarrow>
      findTip R b s = Inr (if chain s = [] then (False, b) else (True, last (chain s)))"
    and find_hash: "inv s \<Longrightarrow>
      findBlockByHash R h b s =
        Inr (case find (\<lambda>x. hash x = c_str h) (chain s) of None \<Rightarrow> (False, b) | Some x \<Rightarrow> (True, x))"
    and has: "inv s \<Longrightarrow> hasBlock R h s = Inr (c_str h \<in> hash ` set (chain s))"
    and load: "inv s \<Longrightarrow> loadAllBlocks R s out = Inr (out @ chain s)"
    and count: "inv s \<Longrightarrow> length (chain s) < 2 ^ 32 \<Longrightarrow>
      countBlocksAfterHash R h s =
        Inr (word_of_nat (case tail_after h (chain s) of None \<Rightarrow> length (chain s) | Some t \<Rightarrow> length t))"
    and range: "inv s \<Longrightarrow> length (chain s) < 2 ^ 32 \<Longrightarrow>
      getBlocksByIndexRange R start n h s out =
        Inr (out @ (case tail_after h (chain s) of
                      None \<Rightarrow> [] | Some t \<Rightarrow> take (unat n) (drop (unat start) t)))"
    and kept: "inv s \<Longrightarrow> b \<in> set (chain s) \<Longrightarrow> c_block b = b \<and> timely b"
    and distinct_hashes: "inv s \<Longrightarrow> distinct (map hash (chain s))"
    and no_fork: "inv s \<Longrightarrow> distinct (filter (\<lambda>p. p \<noteq> ''0'') (map previousHash (chain s)))"

subsection \<open>Lemmas\<close>

lemma index_where_Some:
  "index_where P xs = Some i \<longleftrightarrow> i < length xs \<and> P (xs ! i) \<and> (\<forall>j < i. \<not> P (xs ! j))"
proof (induction xs arbitrary: i)
  case (Cons x xs)
  show ?case
  proof (cases i)
    case (Suc k)
    then show ?thesis using Cons [of k]
      by (auto simp: less_Suc_eq_0_disj nth_Cons split: nat.splits)
  qed auto
qed simp

lemma index_where_None: "index_where P xs = None \<longleftrightarrow> (\<forall>x \<in> set xs. \<not> P x)"
  by (induction xs) auto

lemma index_where_distinct:
  "distinct (map f xs) \<Longrightarrow> i < length xs \<Longrightarrow> index_where (\<lambda>x. f x = f (xs ! i)) xs = Some i"
  by (auto simp: index_where_Some nth_eq_iff_index_eq [of "map f xs", simplified])
     (metis length_map nth_eq_iff_index_eq nth_map order.strict_trans less_irrefl)

lemma c_block_simps [simp]:
  "hash (c_block b) = c_str (hash b)" "previousHash (c_block b) = c_str (previousHash b)"
  "payloadHash (c_block b) = c_str (payloadHash b)"
  "authorPublicKey (c_block b) = c_str (authorPublicKey b)"
  "signature (c_block b) = c_str (signature b)" "timestamp (c_block b) = timestamp b"
  by (simp_all add: c_block_def)

lemma c_block_idem [simp]: "c_block (c_block b) = c_block b"
  by (simp add: c_block_def)

text \<open>A block without NULs is kept as it is.\<close>

lemma c_block_id:
  "c_block b = b \<longleftrightarrow> c_str (hash b) = hash b \<and> c_str (previousHash b) = previousHash b \<and>
     c_str (payloadHash b) = payloadHash b \<and> c_str (authorPublicKey b) = authorPublicKey b \<and>
     c_str (signature b) = signature b"
  by (cases b) (auto simp: c_block_def)

end
