(* ===== verification/DC_Blockchain.thy ===== *)
theory DC_Blockchain
  imports DC_ChainRepo DC_TextMessage DC_Config
begin

text \<open>
  \<open>blockchain::BlockchainService\<close> (src/domain/blockchain/BlockchainService.cpp) over any chain
  repository \<open>R\<close>, cryptography \<open>C\<close>, digest \<open>SHA256\<close> and JSON library \<open>J\<close>. A method with a
  \<open>std::string& error\<close> out-parameter returns \<open>None\<close> for \<open>true\<close> and \<open>Some error\<close> for \<open>false\<close>. The
  clock, the fresh identifiers and the outcome of the network callback are arguments.
\<close>

subsection \<open>Checks on one block\<close>

definition verifyBlockSignature :: "ICrypto \<Rightarrow> block \<Rightarrow> bool res" where
  "verifyBlockSignature C b =
     (let msg = bytes_of_string (toStringForHash b) in
      bnd (stringToKey C (signature b)) (\<lambda>sig.
      bnd (stringToKey C (authorPublicKey b)) (\<lambda>pub. Inr (verify C msg sig pub))))"

definition validateSingleBlock :: "(bytes \<Rightarrow> bytes) \<Rightarrow> ICrypto \<Rightarrow> block \<Rightarrow> string option res" where
  "validateSingleBlock SHA256 C b =
     bnd (verifyBlockSignature C b) (\<lambda>ok.
       if \<not> ok then Inr (Some ''Invalid block signature'')
       else
         let tempBlock = computeHash SHA256 (b\<lparr>hash := ''''\<rparr>) in
         if hash tempBlock \<noteq> hash b
         then Inr (Some (''Block hash mismatch: computed='' @ hash tempBlock @ '', stored='' @ hash b))
         else Inr None)"

definition logValidationError :: "string \<Rightarrow> string \<Rightarrow> string \<Rightarrow> string" where
  "logValidationError ctxt error blockHash =
     ''[BLOCKCHAIN] '' @ ctxt @ '' validation failed for block '' @ blockHash @ '': '' @ error @
     ''\<newline>'' @ ''Clear your blockchain database and try again.\<newline>''"

definition compareBlockWithMessage ::
  "(bytes \<Rightarrow> bytes) \<Rightarrow> ICrypto \<Rightarrow> block \<Rightarrow> text_message \<Rightarrow> string option res" where
  "compareBlockWithMessage SHA256 C b m =
     (if authorPublicKey b \<noteq> publicKey (m_from m) then
        Inr (Some (''Author public key mismatch: block='' @ authorPublicKey b @ '', message='' @
          publicKey (m_from m)))
      else if timestamp b \<noteq> m_timestamp m then
        Inr (Some (''Timestamp mismatch: block='' @ to_string (unat (timestamp b)) @ '', message='' @
          to_string (unat (m_timestamp m))))
      else
        let messageContent = m_text m;
            computedPayloadHash = sha256 SHA256 (c_str messageContent)
        in if computedPayloadHash \<noteq> payloadHash b then
             Inr (Some (''Payload hash mismatch: block='' @ payloadHash b @ '', computed='' @
               computedPayloadHash @ '', content='' @ [CHR 0x27] @ messageContent @ [CHR 0x27]))
           else
             bnd (verifyBlockSignature C b) (\<lambda>ok.
               if \<not> ok then Inr (Some ''Block signature verification failed'') else Inr None))"

subsection \<open>New blocks received while synchronizing\<close>

definition getNewBlocks :: "block list \<Rightarrow> block list" where
  "getNewBlocks newBlocks = newBlocks"

definition addNewBlockRange :: "block list \<Rightarrow> block list \<Rightarrow> block list" where
  "addNewBlockRange blocks newBlocks = newBlocks @ blocks"

subsection \<open>Creating and publishing a block\<close>

definition createBlockFromMessage ::
  "(bytes \<Rightarrow> bytes) \<Rightarrow> ICrypto \<Rightarrow> 's IChainRepo \<Rightarrow> config_data \<Rightarrow> text_message \<Rightarrow> block \<Rightarrow> 's \<Rightarrow>
   block res" where
  "createBlockFromMessage SHA256 C R cfg m b s =
     bnd (findTip R Block s) (\<lambda>(_, tip).
       let b = b\<lparr>previousHash := hash tip\<rparr>;
           b = b\<lparr>payloadHash := sha256 SHA256 (c_str (m_text m))\<rparr>;
           b = b\<lparr>authorPublicKey := publicKey (m_from m)\<rparr>;
           b = b\<lparr>timestamp := m_timestamp m\<rparr>
       in bnd (config_get cfg PRIVATE_KEY) (\<lambda>privateKey.
          let canonicalBytes = bytes_of_string (toStringForHash b) in
          bnd (stringToKey C privateKey) (\<lambda>priv.
          bnd (sign C canonicalBytes priv) (\<lambda>sig.
          let b = b\<lparr>signature := keyToString C sig\<rparr>
          in Inr (computeHash SHA256 b)))))"

text \<open>
  The loop over the peers: it stops at the first peer whose callback is \<open>false\<close> or throws. The second
  component lists the peers the block was sent to.
\<close>

fun broadcast :: "(string \<Rightarrow> user_peer \<Rightarrow> bool res) \<Rightarrow> string \<Rightarrow> user_peer list \<Rightarrow>
    (bool \<times> user_peer list) res" where
  "broadcast send raw [] = Inr (True, [])"
| "broadcast send raw (p # ps) =
     bnd (catch_std (send raw p) (\<lambda>_. Inr False)) (\<lambda>ok.
       if \<not> ok then Inr (False, [p])
       else bnd (broadcast send raw ps) (\<lambda>(r, sent). Inr (r, p # sent)))"

definition storeAndBroadcastBlock ::
  "('j, 'x) json_lib_scheme \<Rightarrow> 's IChainRepo \<Rightarrow> block \<Rightarrow> user_peer list \<Rightarrow>
   (string \<Rightarrow> user_peer \<Rightarrow> bool res) \<Rightarrow> 's \<Rightarrow> (bool \<times> user_peer list \<times> 's) res" where
  "storeAndBroadcastBlock J R b ps send s =
     bnd (json_dump J (Block_toJson J b)) (\<lambda>rawJson.
     bnd (broadcast send rawJson ps) (\<lambda>(ok, sent).
       if \<not> ok then Inr (False, sent, s)
       else bnd (insertBlock R b s) (\<lambda>(stored, s'). Inr (stored, sent, s'))))"

subsection \<open>Incoming blocks\<close>

text \<open>\<open>tip\<close> and \<open>prevBlock\<close> are default-constructed before the repository fills them.\<close>

definition validateIncomingBlock ::
  "(bytes \<Rightarrow> bytes) \<Rightarrow> ICrypto \<Rightarrow> 's IChainRepo \<Rightarrow> u64 \<Rightarrow> block \<Rightarrow> 's \<Rightarrow> string option res" where
  "validateIncomingBlock SHA256 C R currentTimestamp b s =
     bnd (validateSingleBlock SHA256 C b) (\<lambda>error.
       case error of
         Some e \<Rightarrow> Inr (Some e)
       | None \<Rightarrow>
           if timestamp b > currentTimestamp + 300000
           then Inr (Some ''Block timestamp is too far in the future'')
           else
             bnd (findTip R Block s) (\<lambda>(_, tip).
             bnd (if previousHash b \<noteq> hash tip
                  then bnd (findBlockByHash R (previousHash b) Block s) (\<lambda>(found, prevBlock).
                         if \<not> found then Inr (Some ''Previous block not found in local chain'')
                         else if hash prevBlock \<noteq> hash tip
                         then Inr (Some ''Block extends non-tip block (fork detected)'')
                         else Inr None)
                  else Inr None) (\<lambda>link.
               case link of
                 Some e \<Rightarrow> Inr (Some e)
               | None \<Rightarrow>
                   bnd (hasBlock R (hash b) s) (\<lambda>known.
                     if known then Inr (Some ''Block already exists in local chain'')
                     else Inr None))))"

definition local_peer :: "config_data \<Rightarrow> user_peer res" where
  "local_peer cfg =
     bnd (config_get cfg HOST) (\<lambda>h.
     bnd (bnd (config_get cfg PORT) stoi) (\<lambda>p.
     bnd (config_get cfg PUBLIC_KEY) (\<lambda>k. Inr (UserPeer h (word_of_int p) k))))"

definition block_error_response ::
  "('j, 'x) json_lib_scheme \<Rightarrow> string \<Rightarrow> u64 \<Rightarrow> user_peer \<Rightarrow> string \<Rightarrow> string \<Rightarrow> string res" where
  "block_error_response J uuid ts me error blockHash =
     json_dump J (BlockchainErrorMessageResponse_serialize J
       (BlockchainErrorMessageResponse_create uuid ts me error blockHash ''-1''))"

definition onIncomingBlock ::
  "('j, 'x) json_lib_scheme \<Rightarrow> (bytes \<Rightarrow> bytes) \<Rightarrow> ICrypto \<Rightarrow> 's IChainRepo \<Rightarrow> config_data \<Rightarrow>
   u64 \<Rightarrow> string \<Rightarrow> u64 \<Rightarrow> 'j \<Rightarrow> 's \<Rightarrow> (string \<times> 's) res" where
  "onIncomingBlock J SHA256 C R cfg now uuid ts jData s =
     bnd (local_peer cfg) (\<lambda>me.
       catch_std
         (bnd (Block_of_json J jData) (\<lambda>b.
          bnd (validateIncomingBlock SHA256 C R now b s) (\<lambda>error.
            case error of
              Some e \<Rightarrow> bnd (block_error_response J uuid ts me e (hash b)) (\<lambda>r. Inr (r, s))
            | None \<Rightarrow> bnd (insertBlock R b s) (\<lambda>(_, s'). Inr (''{}'', s')))))
         (\<lambda>e. bnd (block_error_response J uuid ts me (what e) ''-1'') (\<lambda>r. Inr (r, s))))"

subsection \<open>Whole chains\<close>

text \<open>The loop of \<open>validateLocalChain\<close>: every block is examined, every failure is logged.\<close>

fun validate_loop ::
  "(bytes \<Rightarrow> bytes) \<Rightarrow> ICrypto \<Rightarrow> string \<Rightarrow> block list \<Rightarrow> (bool \<times> string list) res" where
  "validate_loop SHA256 C prevHash [] = Inr (True, [])"
| "validate_loop SHA256 C prevHash (b # bs) =
     bnd (if previousHash b \<noteq> prevHash
          then Inr (Some (''Previous hash mismatch: expected='' @ prevHash @ '', actual='' @
                 previousHash b))
          else validateSingleBlock SHA256 C b) (\<lambda>error.
     bnd (validate_loop SHA256 C (hash b) bs) (\<lambda>(isValid, log).
       case error of
         None \<Rightarrow> Inr (isValid, log)
       | Some e \<Rightarrow> Inr (False, logValidationError ''LOCAL_CHAIN'' e (hash b) # log)))"

definition validateLocalChain ::
  "(bytes \<Rightarrow> bytes) \<Rightarrow> ICrypto \<Rightarrow> 's IChainRepo \<Rightarrow> 's \<Rightarrow> (bool \<times> string list) res" where
  "validateLocalChain SHA256 C R s =
     bnd (loadAllBlocks R s []) (\<lambda>blocks.
     bnd (validate_loop SHA256 C ''0'' blocks) (\<lambda>(isValid, log).
       Inr (isValid,
         if isValid \<and> blocks \<noteq> []
         then log @ [''[BLOCKCHAIN] Local chain validated successfully ('' @
                to_string (length blocks) @ '' blocks)\<newline>'']
         else log)))"

text \<open>The first break in the sequence, if any, from index \<open>i\<close> on.\<close>

fun sequence_break :: "nat \<Rightarrow> block list \<Rightarrow> (nat \<times> block \<times> block) option" where
  "sequence_break i (a # b # bs) =
     (if previousHash b \<noteq> hash a then Some (i, a, b) else sequence_break (Suc i) (b # bs))"
| "sequence_break i _ = None"

text \<open>The last loop: the first block that does not validate, with its error.\<close>

fun first_invalid :: "(bytes \<Rightarrow> bytes) \<Rightarrow> ICrypto \<Rightarrow> block list \<Rightarrow> (block \<times> string) option res" where
  "first_invalid SHA256 C [] = Inr None"
| "first_invalid SHA256 C (b # bs) =
     bnd (validateSingleBlock SHA256 C b) (\<lambda>error.
       case error of None \<Rightarrow> first_invalid SHA256 C bs | Some e \<Rightarrow> Inr (Some (b, e)))"

definition validateNewBlocks ::
  "(bytes \<Rightarrow> bytes) \<Rightarrow> ICrypto \<Rightarrow> 's IChainRepo \<Rightarrow> block list \<Rightarrow> 's \<Rightarrow> (bool \<times> string list) res" where
  "validateNewBlocks SHA256 C R newBlocks s =
     (case newBlocks of
        [] \<Rightarrow> Inr (True, [])
      | first # _ \<Rightarrow>
          (case sequence_break 1 newBlocks of
             Some (i, a, b) \<Rightarrow>
               Inr (False, [logValidationError ''NEW_BLOCKS''
                 (''New blocks sequence broken at index '' @ to_string i @ '': expected='' @ hash a @
                  '', actual='' @ previousHash b) (hash b)])
           | None \<Rightarrow>
               bnd (findTip R Block s) (\<lambda>(found, tip).
               bnd (if found \<and> previousHash first \<noteq> hash tip
                    then bnd (findBlockByHash R (previousHash first) Block s) (\<lambda>(known, prevBlock).
                           if \<not> known
                           then Inr (Some ''First new block's previous hash not found in local chain'')
                           else if hash prevBlock \<noteq> hash tip
                           then Inr (Some ''New blocks extend non-tip block (fork detected)'')
                           else Inr None)
                    else Inr None) (\<lambda>link.
                 case link of
                   Some e \<Rightarrow> Inr (False, [logValidationError ''NEW_BLOCKS'' e (hash first)])
                 | None \<Rightarrow>
                     bnd (first_invalid SHA256 C newBlocks) (\<lambda>bad.
                       case bad of
                         None \<Rightarrow> Inr (True, [])
                       | Some (b, e) \<Rightarrow>
                           Inr (False, [logValidationError ''NEW_BLOCKS'' e (hash b)]))))))"

text \<open>The loop of \<open>ChatApplication::init\<close> that stores validated new blocks, ignoring each result.\<close>

definition store_new_blocks :: "'s IChainRepo \<Rightarrow> block list \<Rightarrow> 's \<Rightarrow> 's res" where
  "store_new_blocks R bs s =
     fold_res (\<lambda>b s. bnd (insertBlock R b s) (\<lambda>(_, s'). Inr s')) bs s"

subsection \<open>Queries passed on to the repository\<close>

definition Service_loadChain :: "'s IChainRepo \<Rightarrow> 's \<Rightarrow> block list \<Rightarrow> block list res" where
  "Service_loadChain R s blocks = loadAllBlocks R s blocks"

definition Service_countBlocksAfterHash :: "'s IChainRepo \<Rightarrow> string \<Rightarrow> 's \<Rightarrow> u32 res" where
  "Service_countBlocksAfterHash R h s = countBlocksAfterHash R h s"

definition Service_getBlocksByIndexRange ::
  "'s IChainRepo \<Rightarrow> u32 \<Rightarrow> u32 \<Rightarrow> string \<Rightarrow> 's \<Rightarrow> block list \<Rightarrow> block list res" where
  "Service_getBlocksByIndexRange R start n lastHash s outBlocks =
     getBlocksByIndexRange R start n lastHash s outBlocks"

definition Service_findBlockByHash ::
  "'s IChainRepo \<Rightarrow> string \<Rightarrow> block \<Rightarrow> 's \<Rightarrow> (bool \<times> block) res" where
  "Service_findBlockByHash R h b s = findBlockByHash R h b s"

subsection \<open>What a valid chain is\<close>

fun linked :: "string \<Rightarrow> block list \<Rightarrow> bool" where
  "linked p [] \<longleftrightarrow> True"
| "linked p (b # bs) \<longleftrightarrow> previousHash b = p \<and> linked (hash b) bs"

definition valid_block :: "(bytes \<Rightarrow> bytes) \<Rightarrow> ICrypto \<Rightarrow> block \<Rightarrow> bool" where
  "valid_block SHA256 C b \<longleftrightarrow>
     verifyBlockSignature C b = Inr True \<and> hash b = sha256 SHA256 (toStringForHash b)"

definition valid_chain :: "(bytes \<Rightarrow> bytes) \<Rightarrow> ICrypto \<Rightarrow> block list \<Rightarrow> bool" where
  "valid_chain SHA256 C bs \<longleftrightarrow> linked ''0'' bs \<and> (\<forall>b \<in> set bs. valid_block SHA256 C b)"

definition tip_hash :: "block list \<Rightarrow> string" where
  "tip_hash bs = (if bs = [] then ''0'' else hash (last bs))"

end
