(* ===== verification/DC_ChainDB.thy ===== *)
theory DC_ChainDB
  imports DC_ChainRepo DC_Db
begin

text \<open>
  \<open>blockchain::ChainDB\<close> (src/infra/blockchain/ChainDB.cpp), the SQLite implementation of the chain
  repository: one definition per method, each SQL text of the source as the function on the table it
  denotes. The theory ends with the interpretation of the contract \<open>chain_repo\<close>.
\<close>

subsection \<open>The statements\<close>

definition with_blocks :: "(block_row table \<Rightarrow> 'a) \<Rightarrow> tables \<Rightarrow> 'a option" where
  "with_blocks f t = map_option f (blocks_t t)"

text \<open>\<open>hash, previous_hash, payload_hash, author_public_key, signature, timestamp\<close>\<close>

definition block_columns :: "block_row \<Rightarrow> string option list" where
  "block_columns r =
     [Some (br_hash r), Some (br_previous_hash r), Some (br_payload_hash r),
      Some (br_author_public_key r), Some (br_signature r), Some (br_timestamp r)]"

definition id_column :: "block_row \<Rightarrow> string option list" where
  "id_column r = [Some (to_string (br_id r))]"

text \<open>\<open>SELECT * FROM blocks WHERE previous_hash = ?\<close>\<close>

definition sql_by_previous :: "string list \<Rightarrow> tables \<Rightarrow> string option list list option" where
  "sql_by_previous ps =
     with_blocks (\<lambda>tab. map (\<lambda>r. Some (to_string (br_id r)) # block_columns r)
       (filter (\<lambda>r. br_previous_hash r = ps ! 0) (trows tab)))"

text \<open>\<open>INSERT INTO blocks(...) VALUES (?,?,?,?,?,?)\<close> under \<open>UNIQUE\<close> of \<open>hash\<close>\<close>

definition sql_insert_block :: "sqlite \<Rightarrow> string list \<Rightarrow> tables \<Rightarrow> (bool \<times> tables) option" where
  "sql_insert_block Q ps t =
     map_option (\<lambda>tab.
       if \<exists>r \<in> set (trows tab). br_hash r = ps ! 0 then (False, t)
       else (True, t\<lparr>blocks_t := Some \<lparr>
              trows = trows tab @ [\<lparr> br_id = Suc (tseq tab), br_hash = ps ! 0,
                br_previous_hash = ps ! 1, br_payload_hash = ps ! 2, br_author_public_key = ps ! 3,
                br_signature = ps ! 4, br_timestamp = sq_int Q (ps ! 5) \<rparr>],
              tseq = Suc (tseq tab) \<rparr>\<rparr>)) (blocks_t t)"

text \<open>\<open>SELECT ... FROM blocks WHERE hash=? LIMIT 1\<close>, with any columns\<close>

definition sql_by_hash ::
  "(block_row \<Rightarrow> string option list) \<Rightarrow> string list \<Rightarrow> tables \<Rightarrow> string option list list option" where
  "sql_by_hash cols ps =
     with_blocks (\<lambda>tab. map cols (take 1 (filter (\<lambda>r. br_hash r = ps ! 0) (trows tab))))"

text \<open>\<open>SELECT COUNT(*) FROM blocks\<close>, and with \<open>WHERE id > ?\<close>\<close>

definition sql_count :: "(block_row \<Rightarrow> bool) \<Rightarrow> tables \<Rightarrow> string option list list option" where
  "sql_count P = with_blocks (\<lambda>tab. [[Some (to_string (length (filter P (trows tab))))]])"

text \<open>\<open>SELECT ... FROM blocks ORDER BY id DESC LIMIT 1\<close>\<close>

definition sql_last ::
  "(block_row \<Rightarrow> string option list) \<Rightarrow> tables \<Rightarrow> string option list list option" where
  "sql_last cols = with_blocks (\<lambda>tab. map cols (take 1 (rev (trows tab))))"

text \<open>\<open>SELECT ... FROM blocks ORDER BY id ASC LIMIT ? OFFSET ?\<close>\<close>

definition sql_limit_offset :: "nat \<Rightarrow> nat \<Rightarrow> tables \<Rightarrow> string option list list option" where
  "sql_limit_offset n k =
     with_blocks (\<lambda>tab. map block_columns (take n (drop k (trows tab))))"

text \<open>\<open>SELECT ... FROM blocks WHERE id >= ? ORDER BY id ASC LIMIT ?\<close>\<close>

definition sql_from_id :: "nat \<Rightarrow> nat \<Rightarrow> tables \<Rightarrow> string option list list option" where
  "sql_from_id i n =
     with_blocks (\<lambda>tab. map block_columns (take n (filter (\<lambda>r. i \<le> br_id r) (trows tab))))"

subsection \<open>The callbacks\<close>

definition block_of_columns :: "string list \<Rightarrow> block res" where
  "block_of_columns row =
     bnd (stoull (row ! 5)) (\<lambda>t.
       Inr (Block_of_fields (row ! 0) (row ! 1) (row ! 2) (row ! 3) (row ! 4) (word_of_nat t)))"

definition fill_block :: "string list \<Rightarrow> bool \<times> block \<Rightarrow> (bool \<times> block) res" where
  "fill_block row acc =
     (if length row < 6 then Inr acc else bnd (block_of_columns row) (\<lambda>b. Inr (True, b)))"

definition emplace_block :: "string list \<Rightarrow> block list \<Rightarrow> block list res" where
  "emplace_block row out =
     (if length row < 6 then Inr out else bnd (block_of_columns row) (\<lambda>b. Inr (out @ [b])))"

definition set_found :: "string list \<Rightarrow> bool \<Rightarrow> bool res" where
  "set_found row found = Inr (if row \<noteq> [] then True else found)"

definition set_index :: "string list \<Rightarrow> bool \<times> nat \<Rightarrow> (bool \<times> nat) res" where
  "set_index row acc =
     (if row = [] then Inr acc else bnd (stoull (row ! 0)) (\<lambda>i. Inr (True, i)))"

definition set_count :: "string list \<Rightarrow> u32 \<Rightarrow> u32 res" where
  "set_count row n = (if row = [] then Inr n else bnd (stoull (row ! 0)) (\<lambda>i. Inr (word_of_nat i)))"

subsection \<open>The methods\<close>

definition ChainDB_init :: "sqlite \<Rightarrow> db \<Rightarrow> db res" where
  "ChainDB_init Q d =
     bnd (DBFile_open Q d) (\<lambda>d.
     bnd (DBFile_exec Q (\<lambda>t. Some (t\<lparr>blocks_t := create_if_missing (blocks_t t)\<rparr>)) d) (\<lambda>d.
       DBFile_exec Q (\<lambda>t. map_option (\<lambda>_. t) (blocks_t t)) d))"

definition ChainDB_insertBlock :: "sqlite \<Rightarrow> block \<Rightarrow> db \<Rightarrow> (bool \<times> db) res" where
  "ChainDB_insertBlock Q b d =
     bnd (if previousHash b \<noteq> ''0''
          then DBFile_selectPrepared Q sql_by_previous [previousHash b] set_found d False
          else Inr False) (\<lambda>found.
       if found then Inr (False, d)
       else DBFile_executePrepared Q (sql_insert_block Q)
              [hash b, previousHash b, payloadHash b, authorPublicKey b, signature b,
               to_string (unat (timestamp b))] d)"

definition ChainDB_findBlockByHash :: "sqlite \<Rightarrow> string \<Rightarrow> block \<Rightarrow> db \<Rightarrow> (bool \<times> block) res" where
  "ChainDB_findBlockByHash Q h b d =
     DBFile_selectPrepared Q (sql_by_hash block_columns) [h] fill_block d (False, b)"

definition ChainDB_getBlocksByIndexRange ::
  "sqlite \<Rightarrow> u32 \<Rightarrow> u32 \<Rightarrow> string \<Rightarrow> db \<Rightarrow> block list \<Rightarrow> block list res" where
  "ChainDB_getBlocksByIndexRange Q start n lastHash d out =
     (if lastHash = ''0'' then
        DBFile_selectPrepared Q (\<lambda>_. sql_limit_offset (unat n) (unat start))
          [to_string (unat n), to_string (unat start)] emplace_block d out
      else
        bnd (DBFile_selectPrepared Q (sql_by_hash id_column) [lastHash] set_index d (False, 0))
          (\<lambda>(found, lastBlockIndex).
            if \<not> found then Inr out
            else
              let startIndex = (word_of_nat lastBlockIndex + 1 + ucast start :: u64)
              in DBFile_selectPrepared Q (\<lambda>_. sql_from_id (unat startIndex) (unat n))
                   [to_string (unat startIndex), to_string (unat n)] emplace_block d out))"

definition ChainDB_countBlocksAfterHash :: "sqlite \<Rightarrow> string \<Rightarrow> db \<Rightarrow> u32 res" where
  "ChainDB_countBlocksAfterHash Q h d =
     (if h = ''0'' then DBFile_select Q (sql_count (\<lambda>_. True)) set_count d 0
      else
        bnd (DBFile_selectPrepared Q (sql_by_hash id_column) [h] set_index d (False, 0))
          (\<lambda>(exists, i).
            let index = (word_of_nat i :: u32)
            in if \<not> exists then DBFile_select Q (sql_count (\<lambda>_. True)) set_count d 0
               else DBFile_selectPrepared Q (\<lambda>_. sql_count (\<lambda>r. unat index < br_id r))
                      [to_string (unat index)] set_count d 0))"

definition ChainDB_findTip :: "sqlite \<Rightarrow> block \<Rightarrow> db \<Rightarrow> (bool \<times> block) res" where
  "ChainDB_findTip Q b d = DBFile_select Q (sql_last block_columns) fill_block d (False, b)"

definition ChainDB_findTipIndex :: "sqlite \<Rightarrow> u32 \<Rightarrow> db \<Rightarrow> (bool \<times> u32) res" where
  "ChainDB_findTipIndex Q i d =
     bnd (DBFile_select Q (sql_last id_column) set_index d (False, unat i)) (\<lambda>(found, n).
       Inr (found, word_of_nat n))"

definition ChainDB_hasBlock :: "sqlite \<Rightarrow> string \<Rightarrow> db \<Rightarrow> bool res" where
  "ChainDB_hasBlock Q h d =
     DBFile_selectPrepared Q (sql_by_hash (\<lambda>_. [Some ''1''])) [h] set_found d False"

definition ChainDB_loadAllBlocks :: "sqlite \<Rightarrow> db \<Rightarrow> block list \<Rightarrow> block list res" where
  "ChainDB_loadAllBlocks Q d out =
     DBFile_select Q (with_blocks (\<lambda>tab. map block_columns (trows tab))) emplace_block d out"

definition ChainDB :: "sqlite \<Rightarrow> db IChainRepo" where
  "ChainDB Q = \<lparr> insertBlock = ChainDB_insertBlock Q, findBlockByHash = ChainDB_findBlockByHash Q,
     getBlocksByIndexRange = ChainDB_getBlocksByIndexRange Q,
     countBlocksAfterHash = ChainDB_countBlocksAfterHash Q, hasBlock = ChainDB_hasBlock Q,
     loadAllBlocks = ChainDB_loadAllBlocks Q, findTip = ChainDB_findTip Q,
     findTipIndex = ChainDB_findTipIndex Q \<rparr>"

subsection \<open>Abstraction and invariant\<close>

definition row_block :: "block_row \<Rightarrow> block" where
  "row_block r = \<lparr> hash = br_hash r, previousHash = br_previous_hash r,
     payloadHash = br_payload_hash r, authorPublicKey = br_author_public_key r,
     signature = br_signature r,
     timestamp = (case stoull (br_timestamp r) of Inl _ \<Rightarrow> 0 | Inr n \<Rightarrow> word_of_nat n) \<rparr>"

definition block_rows :: "db \<Rightarrow> block_row list" where
  "block_rows d = (case blocks_t (db_data d) of None \<Rightarrow> [] | Some tab \<Rightarrow> trows tab)"

definition db_chain :: "db \<Rightarrow> block list" where
  "db_chain d = map row_block (block_rows d)"

text \<open>The INTEGER column gives the timestamp back as it was bound.\<close>

definition db_timely :: "sqlite \<Rightarrow> block \<Rightarrow> bool" where
  "db_timely Q b \<longleftrightarrow>
     sq_int Q (to_string (unat (timestamp b))) = to_string (unat (timestamp b))"

definition row_ok :: "sqlite \<Rightarrow> block_row \<Rightarrow> bool" where
  "row_ok Q r \<longleftrightarrow> c_block (row_block r) = row_block r \<and> db_timely Q (row_block r) \<and>
     br_timestamp r = to_string (unat (timestamp (row_block r)))"

definition chain_db_inv :: "sqlite \<Rightarrow> db \<Rightarrow> bool" where
  "chain_db_inv Q d \<longleftrightarrow> db_ready d \<and>
     (\<exists>tab. blocks_t (db_data d) = Some tab \<and>
        map br_id (trows tab) = [1..<Suc (length (trows tab))] \<and>
        tseq tab = length (trows tab) \<and>
        (\<forall>r \<in> set (trows tab). row_ok Q r) \<and>
        distinct (map br_hash (trows tab)) \<and>
        distinct (filter (\<lambda>p. p \<noteq> ''0'') (map br_previous_hash (trows tab))))"

lemma row_block_fields [simp]:
  "hash (row_block r) = br_hash r" "previousHash (row_block r) = br_previous_hash r"
  "payloadHash (row_block r) = br_payload_hash r"
  "authorPublicKey (row_block r) = br_author_public_key r"
  "signature (row_block r) = br_signature r"
  by (simp_all add: row_block_def)

lemma row_ok_columns:
  assumes "row_ok Q r"
  shows "map column_text (block_columns r) =
      [hash (row_block r), previousHash (row_block r), payloadHash (row_block r),
       authorPublicKey (row_block r), signature (row_block r),
       to_string (unat (timestamp (row_block r)))]"
proof -
  have t: "br_timestamp r = to_string (unat (timestamp (row_block r)))"
    and c: "c_block (row_block r) = row_block r"
    using assms by (auto simp: row_ok_def)
  have "c_str (br_timestamp r) = to_string (unat (timestamp (row_block r)))"
    by (subst t) simp
  with c show ?thesis
    by (simp add: c_block_id block_columns_def column_text_def)
qed

lemma block_of_columns_row:
  assumes "row_ok Q r"
  shows "block_of_columns (map column_text (block_columns r)) = Inr (row_block r)"
  using unat_u64_bound [of "timestamp (row_block r)"]
  by (simp add: row_ok_columns [OF assms] block_of_columns_def)

lemma fill_block_row:
  assumes "row_ok Q r"
  shows "fill_block (map column_text (block_columns r)) acc = Inr (True, row_block r)"
proof -
  have "length (map column_text (block_columns r)) = 6"
    by (simp add: block_columns_def)
  then show ?thesis
    unfolding fill_block_def by (simp add: block_of_columns_row [OF assms])
qed

lemma emplace_block_row:
  assumes "row_ok Q r"
  shows "emplace_block (map column_text (block_columns r)) out = Inr (out @ [row_block r])"
proof -
  have "length (map column_text (block_columns r)) = 6"
    by (simp add: block_columns_def)
  then show ?thesis
    unfolding emplace_block_def by (simp add: block_of_columns_row [OF assms])
qed

lemma emplace_rows:
  "\<forall>r \<in> set rs. row_ok Q r \<Longrightarrow>
   fold_res emplace_block (map (map column_text) (map block_columns rs)) out =
     Inr (out @ map row_block rs)"
  by (induction rs arbitrary: out) (simp_all add: emplace_block_row [of Q])

text \<open>The invariant in terms of the rows.\<close>

lemma chain_db_invE:
  assumes "chain_db_inv Q d"
  obtains tab where "db_ready d" "blocks_t (db_data d) = Some tab" "block_rows d = trows tab"
    "map br_id (trows tab) = [1..<Suc (length (trows tab))]" "tseq tab = length (trows tab)"
    "\<forall>r \<in> set (trows tab). row_ok Q r" "distinct (map br_hash (trows tab))"
    "distinct (filter (\<lambda>p. p \<noteq> ''0'') (map br_previous_hash (trows tab)))"
  using assms by (auto simp: chain_db_inv_def block_rows_def)

lemma br_id_nth:
  assumes "map br_id rs = [1..<Suc (length rs)]" "i < length rs"
  shows "br_id (rs ! i) = Suc i"
proof -
  have "map br_id rs ! i = [1..<Suc (length rs)] ! i" by (simp only: assms)
  then show ?thesis using assms(2) by (simp del: upt_Suc)
qed

lemma filter_id_drop:
  assumes "map br_id rs = [1..<Suc (length rs)]"
  shows "filter (\<lambda>r. Suc k \<le> br_id r) rs = drop k rs"
proof (cases "k \<le> length rs")
  case True
  have "\<forall>r \<in> set (take k rs). \<not> Suc k \<le> br_id r"
    by (auto simp: in_set_conv_nth br_id_nth [OF assms])
  moreover have "\<forall>r \<in> set (drop k rs). Suc k \<le> br_id r"
    using True by (auto simp: in_set_conv_nth br_id_nth [OF assms])
  ultimately have "filter (\<lambda>r. Suc k \<le> br_id r) (take k rs @ drop k rs) = drop k rs"
    by (simp only: filter_append) (simp add: filter_empty_conv)
  then show ?thesis by simp
next
  case False
  then have "\<forall>r \<in> set rs. \<not> Suc k \<le> br_id r"
    by (auto simp: in_set_conv_nth br_id_nth [OF assms])
  with False show ?thesis by (simp add: filter_empty_conv)
qed

lemma index_where_find:
  "find P xs = map_option (\<lambda>i. xs ! i) (index_where P xs)"
  by (induction xs) (auto simp: option.map_comp comp_def)

lemma index_where_map: "index_where P (map f xs) = index_where (P \<circ> f) xs"
  by (induction xs) auto

subsection \<open>The methods meet the contract\<close>

lemma db_chain_rows: "blocks_t (db_data d) = Some tab \<Longrightarrow> db_chain d = map row_block (trows tab)"
  by (simp add: db_chain_def block_rows_def)

lemma fold_set_found:
  "[] \<notin> set rows \<Longrightarrow> fold_res set_found rows f = Inr (f \<or> rows \<noteq> [])"
  by (induction rows arbitrary: f) (auto simp: set_found_def)

lemma select_previous:
  assumes "chain_db_inv Q d"
  shows "DBFile_selectPrepared Q sql_by_previous [p] set_found d False =
    Inr (c_str p \<in> previousHash ` set (db_chain d))"
proof -
  obtain tab where tab: "db_ready d" "blocks_t (db_data d) = Some tab"
    using assms by (rule chain_db_invE)
  have "fold_res set_found
      (map (map column_text) (map (\<lambda>r. Some (to_string (br_id r)) # block_columns r)
        (filter (\<lambda>r. br_previous_hash r = c_str p) (trows tab)))) False =
      Inr (filter (\<lambda>r. br_previous_hash r = c_str p) (trows tab) \<noteq> [])"
    by (subst fold_set_found) auto
  moreover have "filter (\<lambda>r. br_previous_hash r = c_str p) (trows tab) \<noteq> [] \<longleftrightarrow>
      c_str p \<in> previousHash ` set (db_chain d)"
    by (force simp: filter_empty_conv db_chain_rows [OF tab(2)] image_iff)
  ultimately show ?thesis
    by (simp add: selectPrepared_ready tab sql_by_previous_def with_blocks_def)
qed

definition new_row :: "sqlite \<Rightarrow> nat \<Rightarrow> block \<Rightarrow> block_row" where
  "new_row Q n b = \<lparr> br_id = n, br_hash = c_str (hash b), br_previous_hash = c_str (previousHash b),
     br_payload_hash = c_str (payloadHash b), br_author_public_key = c_str (authorPublicKey b),
     br_signature = c_str (signature b),
     br_timestamp = sq_int Q (to_string (unat (timestamp b))) \<rparr>"

lemma new_row_block:
  assumes "db_timely Q b"
  shows "row_block (new_row Q n b) = c_block b" "row_ok Q (new_row Q n b)"
proof -
  have t: "sq_int Q (to_string (unat (timestamp b))) = to_string (unat (timestamp b))"
    using assms by (simp add: db_timely_def)
  show 1: "row_block (new_row Q n b) = c_block b"
    using unat_u64_bound [of "timestamp b"]
    by (simp add: row_block_def new_row_def c_block_def t)
  have "db_timely Q (c_block b)" "br_timestamp (new_row Q n b) = to_string (unat (timestamp b))"
    by (simp_all add: db_timely_def new_row_def t)
  then show "row_ok Q (new_row Q n b)"
    unfolding row_ok_def 1 by simp
qed

lemma new_row_fields [simp]:
  "br_id (new_row Q n b) = n" "br_hash (new_row Q n b) = c_str (hash b)"
  "br_previous_hash (new_row Q n b) = c_str (previousHash b)"
  by (simp_all add: new_row_def)

lemma insert_statement:
  assumes "db_ready d" "blocks_t (db_data d) = Some tab"
  shows "DBFile_executePrepared Q (sql_insert_block Q)
      [hash b, previousHash b, payloadHash b, authorPublicKey b, signature b,
       to_string (unat (timestamp b))] d =
    Inr (if c_str (hash b) \<in> br_hash ` set (trows tab) then (False, d)
         else (True, d\<lparr>db_data := (db_data d)\<lparr>blocks_t := Some \<lparr>
             trows = trows tab @ [new_row Q (Suc (tseq tab)) b], tseq = Suc (tseq tab)\<rparr>\<rparr>\<rparr>))"
  using assms
  by (subst executePrepared_ready [where
        ok = "c_str (hash b) \<notin> br_hash ` set (trows tab)" and
        t = "if c_str (hash b) \<in> br_hash ` set (trows tab) then db_data d
             else (db_data d)\<lparr>blocks_t := Some \<lparr>
               trows = trows tab @ [new_row Q (Suc (tseq tab)) b], tseq = Suc (tseq tab)\<rparr>\<rparr>"])
     (auto simp: sql_insert_block_def new_row_def image_iff)

lemma chain_db_inv_append:
  assumes inv: "chain_db_inv Q d" and timely: "db_timely Q b"
    and tab: "blocks_t (db_data d) = Some tab"
    and ok: "insert_ok (db_chain d) b"
    and d': "d' = d\<lparr>db_data := (db_data d)\<lparr>blocks_t := Some \<lparr>
      trows = trows tab @ [new_row Q (Suc (tseq tab)) b], tseq = Suc (tseq tab)\<rparr>\<rparr>\<rparr>"
  shows "chain_db_inv Q d'" and "db_chain d' = db_chain d @ [c_block b]"
proof -
  from inv tab have rows: "db_ready d"
    "map br_id (trows tab) = [1..<Suc (length (trows tab))]" "tseq tab = length (trows tab)"
    "\<forall>r \<in> set (trows tab). row_ok Q r" "distinct (map br_hash (trows tab))"
    "distinct (filter (\<lambda>p. p \<noteq> ''0'') (map br_previous_hash (trows tab)))"
    by (auto simp: chain_db_inv_def)
  have h: "c_str (hash b) \<notin> br_hash ` set (trows tab)"
    and p: "previousHash b = ''0'' \<or> c_str (previousHash b) \<notin> br_previous_hash ` set (trows tab)"
    using ok by (auto simp: insert_ok_def db_chain_rows [OF tab] image_image)
  have "distinct (map br_hash (trows tab @ [new_row Q (Suc (tseq tab)) b]))"
    using rows(5) h by auto
  moreover have "distinct (filter (\<lambda>p. p \<noteq> ''0'')
      (map br_previous_hash (trows tab @ [new_row Q (Suc (tseq tab)) b])))"
    using rows(6) p by (auto simp: c_str_def)
  ultimately show "chain_db_inv Q d'"
    using rows(1-4) new_row_block(2) [OF timely] by (auto simp: chain_db_inv_def d')
  show "db_chain d' = db_chain d @ [c_block b]"
    by (simp add: d' db_chain_def block_rows_def tab new_row_block(1) [OF timely])
qed

lemma ChainDB_insert:
  assumes "chain_db_inv Q d" "db_timely Q b"
  shows "\<exists>d'. ChainDB_insertBlock Q b d = Inr (insert_ok (db_chain d) b, d') \<and> chain_db_inv Q d' \<and>
    db_chain d' = (if insert_ok (db_chain d) b then db_chain d @ [c_block b] else db_chain d)"
proof -
  obtain tab where tab: "db_ready d" "blocks_t (db_data d) = Some tab"
    using assms(1) by (rule chain_db_invE)
  have hashes: "hash ` set (db_chain d) = br_hash ` set (trows tab)"
    by (auto simp: db_chain_rows [OF tab(2)] image_image)
  let ?found = "previousHash b \<noteq> ''0'' \<and> c_str (previousHash b) \<in> previousHash ` set (db_chain d)"
  have found: "(if previousHash b \<noteq> ''0''
      then DBFile_selectPrepared Q sql_by_previous [previousHash b] set_found d False
      else Inr False) = Inr ?found"
    by (simp add: select_previous [OF assms(1)])
  have ok: "insert_ok (db_chain d) b \<longleftrightarrow> \<not> ?found \<and> c_str (hash b) \<notin> br_hash ` set (trows tab)"
    by (auto simp: insert_ok_def hashes)
  show ?thesis
  proof (cases "insert_ok (db_chain d) b")
    case True
    then show ?thesis
      using chain_db_inv_append [OF assms tab(2) True refl] ok
      unfolding ChainDB_insertBlock_def found by (simp add: insert_statement [OF tab])
  next
    case False
    then show ?thesis
      using assms(1) ok unfolding ChainDB_insertBlock_def found
      by (auto simp: insert_statement [OF tab])
  qed
qed

lemma ChainDB_tip:
  assumes "chain_db_inv Q d"
  shows "ChainDB_findTip Q b d =
    Inr (if db_chain d = [] then (False, b) else (True, last (db_chain d)))"
proof -
  obtain tab where tab: "db_ready d" "blocks_t (db_data d) = Some tab"
    "\<forall>r \<in> set (trows tab). row_ok Q r"
    using assms by (rule chain_db_invE)
  show ?thesis
  proof (cases "trows tab" rule: rev_cases)
    case Nil
    then show ?thesis
      by (simp add: ChainDB_findTip_def select_ready tab sql_last_def with_blocks_def
          db_chain_rows [OF tab(2)])
  next
    case (snoc rs r)
    then have "row_ok Q r" using tab(3) by simp
    from fill_block_row [OF this] snoc show ?thesis
      by (simp add: ChainDB_findTip_def select_ready tab sql_last_def with_blocks_def
          db_chain_rows [OF tab(2)])
  qed
qed

lemma ChainDB_find:
  assumes "chain_db_inv Q d"
  shows "ChainDB_findBlockByHash Q h b d =
    Inr (case find (\<lambda>x. hash x = c_str h) (db_chain d) of None \<Rightarrow> (False, b) | Some x \<Rightarrow> (True, x))"
proof -
  obtain tab where tab: "db_ready d" "blocks_t (db_data d) = Some tab"
    "\<forall>r \<in> set (trows tab). row_ok Q r"
    using assms by (rule chain_db_invE)
  have chain: "find (\<lambda>x. hash x = c_str h) (db_chain d) =
      map_option row_block (find (\<lambda>r. br_hash r = c_str h) (trows tab))"
    by (simp add: db_chain_rows [OF tab(2)] find_map comp_def)
  have sel: "ChainDB_findBlockByHash Q h b d =
      fold_res fill_block (map (map column_text) (map block_columns
        (take 1 (filter (\<lambda>r. br_hash r = c_str h) (trows tab))))) (False, b)"
    by (simp add: ChainDB_findBlockByHash_def selectPrepared_ready tab sql_by_hash_def with_blocks_def)
  show ?thesis
  proof (cases "find (\<lambda>r. br_hash r = c_str h) (trows tab)")
    case None
    with sel chain show ?thesis by (simp only: take_1_filter) simp
  next
    case (Some r)
    then have "row_ok Q r" using tab(3) by (auto simp: find_Some_iff)
    from fill_block_row [OF this] sel chain Some show ?thesis
      by (simp only: take_1_filter) simp
  qed
qed

lemma ChainDB_has:
  assumes "chain_db_inv Q d"
  shows "ChainDB_hasBlock Q h d = Inr (c_str h \<in> hash ` set (db_chain d))"
proof -
  obtain tab where tab: "db_ready d" "blocks_t (db_data d) = Some tab"
    using assms by (rule chain_db_invE)
  have "ChainDB_hasBlock Q h d =
      Inr (take 1 (filter (\<lambda>r. br_hash r = c_str h) (trows tab)) \<noteq> [])"
    by (simp add: ChainDB_hasBlock_def selectPrepared_ready tab sql_by_hash_def with_blocks_def)
       (subst fold_set_found; auto)
  moreover have "take 1 (filter (\<lambda>r. br_hash r = c_str h) (trows tab)) \<noteq> [] \<longleftrightarrow>
      c_str h \<in> hash ` set (db_chain d)"
    by (force simp: filter_empty_conv db_chain_rows [OF tab(2)] image_iff)
  ultimately show ?thesis by simp
qed

lemma ChainDB_load:
  assumes "chain_db_inv Q d"
  shows "ChainDB_loadAllBlocks Q d out = Inr (out @ db_chain d)"
proof -
  obtain tab where tab: "db_ready d" "blocks_t (db_data d) = Some tab"
    "\<forall>r \<in> set (trows tab). row_ok Q r"
    using assms by (rule chain_db_invE)
  from emplace_rows [OF tab(3)] show ?thesis
    by (simp add: ChainDB_loadAllBlocks_def select_ready tab(1,2) with_blocks_def
        db_chain_rows [OF tab(2)])
qed

lemma select_id:
  assumes "chain_db_inv Q d" "length (db_chain d) < 2 ^ 32"
  shows "DBFile_selectPrepared Q (sql_by_hash id_column) [h] set_index d (False, 0) =
    Inr (case index_where (\<lambda>x. hash x = c_str h) (db_chain d) of
           None \<Rightarrow> (False, 0) | Some i \<Rightarrow> (True, Suc i))"
proof -
  obtain tab where tab: "db_ready d" "blocks_t (db_data d) = Some tab"
    "map br_id (trows tab) = [1..<Suc (length (trows tab))]"
    using assms(1) by (rule chain_db_invE)
  have idx: "index_where (\<lambda>x. hash x = c_str h) (db_chain d) =
      index_where (\<lambda>r. br_hash r = c_str h) (trows tab)"
    by (simp add: db_chain_rows [OF tab(2)] index_where_map comp_def)
  have sel: "DBFile_selectPrepared Q (sql_by_hash id_column) [h] set_index d (False, 0) =
      fold_res set_index (map (map column_text) (map id_column
        (take 1 (filter (\<lambda>r. br_hash r = c_str h) (trows tab))))) (False, 0)"
    by (simp add: selectPrepared_ready tab sql_by_hash_def with_blocks_def)
  show ?thesis
  proof (cases "index_where (\<lambda>r. br_hash r = c_str h) (trows tab)")
    case None
    with sel idx show ?thesis by (simp only: take_1_filter index_where_find) simp
  next
    case (Some i)
    then have i: "i < length (trows tab)" by (simp add: index_where_Some)
    then have "br_id (trows tab ! i) = Suc i" "Suc i < 2 ^ 64"
      using br_id_nth [OF tab(3) i] assms(2) by (simp_all add: db_chain_rows [OF tab(2)])
    with sel idx Some show ?thesis
      by (simp only: take_1_filter index_where_find)
         (simp add: id_column_def column_text_def set_index_def)
  qed
qed

lemma select_count:
  assumes "chain_db_inv Q d" "length (db_chain d) < 2 ^ 32"
  shows "DBFile_select Q (sql_count (\<lambda>_. True)) set_count d 0 =
      Inr (word_of_nat (length (db_chain d)))"
    and "DBFile_selectPrepared Q (\<lambda>_. sql_count (\<lambda>r. k < br_id r)) ps set_count d 0 =
      Inr (word_of_nat (length (drop k (db_chain d))))"
proof -
  obtain tab where tab: "db_ready d" "blocks_t (db_data d) = Some tab"
    "map br_id (trows tab) = [1..<Suc (length (trows tab))]"
    using assms(1) by (rule chain_db_invE)
  have l: "length (db_chain d) = length (trows tab)" "length (trows tab) < 2 ^ 64"
    using assms(2) by (simp_all add: db_chain_rows [OF tab(2)])
  show "DBFile_select Q (sql_count (\<lambda>_. True)) set_count d 0 =
      Inr (word_of_nat (length (db_chain d)))"
    using l by (simp add: select_ready tab sql_count_def with_blocks_def column_text_def set_count_def)
  have "filter (\<lambda>r. k < br_id r) (trows tab) = drop k (trows tab)"
    using filter_id_drop [OF tab(3), of k] by (simp add: Suc_le_eq)
  with l show "DBFile_selectPrepared Q (\<lambda>_. sql_count (\<lambda>r. k < br_id r)) ps set_count d 0 =
      Inr (word_of_nat (length (drop k (db_chain d))))"
    by (simp add: selectPrepared_ready tab sql_count_def with_blocks_def column_text_def set_count_def)
qed

lemma ChainDB_count:
  assumes "chain_db_inv Q d" "length (db_chain d) < 2 ^ 32"
  shows "ChainDB_countBlocksAfterHash Q h d =
    Inr (word_of_nat (case tail_after h (db_chain d) of
           None \<Rightarrow> length (db_chain d) | Some t \<Rightarrow> length t))"
proof (cases "index_where (\<lambda>x. hash x = c_str h) (db_chain d)")
  case None
  then show ?thesis
    by (simp add: ChainDB_countBlocksAfterHash_def select_id [OF assms] select_count [OF assms]
        tail_after_def)
next
  case (Some i)
  then have "Suc i < 2 ^ 32"
    using assms(2) by (simp add: index_where_Some)
  then have "unat (word_of_nat (Suc i) :: u32) = Suc i"
    by (intro unat_u32_of_nat) simp
  with Some show ?thesis
    by (simp add: ChainDB_countBlocksAfterHash_def select_id [OF assms] select_count [OF assms]
        tail_after_def Let_def del: of_nat_Suc)
qed

lemma ChainDB_range:
  assumes "chain_db_inv Q d" "length (db_chain d) < 2 ^ 32"
  shows "ChainDB_getBlocksByIndexRange Q start n h d out =
    Inr (out @ (case tail_after h (db_chain d) of
                  None \<Rightarrow> [] | Some t \<Rightarrow> take (unat n) (drop (unat start) t)))"
proof -
  obtain tab where tab: "db_ready d" "blocks_t (db_data d) = Some tab"
    "\<forall>r \<in> set (trows tab). row_ok Q r" "map br_id (trows tab) = [1..<Suc (length (trows tab))]"
    using assms(1) by (rule chain_db_invE)
  have emplace: "fold_res emplace_block (map (map column_text) (map block_columns rs)) out =
      Inr (out @ map row_block rs)" if "set rs \<subseteq> set (trows tab)" for rs
    using that tab(3) by (intro emplace_rows [of _ Q]) auto
  show ?thesis
  proof (cases "h = ''0''")
    case True
    have "set (take (unat n) (drop (unat start) (trows tab))) \<subseteq> set (trows tab)"
      by (meson order_trans set_drop_subset set_take_subset)
    from emplace [OF this] True show ?thesis
      by (simp add: ChainDB_getBlocksByIndexRange_def selectPrepared_ready tab(1,2)
          sql_limit_offset_def with_blocks_def tail_after_def db_chain_rows [OF tab(2)]
          take_map drop_map)
  next
    case False
    show ?thesis
    proof (cases "index_where (\<lambda>x. hash x = c_str h) (db_chain d)")
      case None
      with False show ?thesis
        by (simp add: ChainDB_getBlocksByIndexRange_def select_id [OF assms] tail_after_def)
    next
      case (Some i)
      then have i: "i < length (trows tab)" "Suc i < 4294967296"
        using assms(2) by (auto simp: index_where_Some db_chain_rows [OF tab(2)])
      have "unat (word_of_nat (Suc i) + 1 + ucast start :: u64) = Suc (Suc i + unat start)"
      proof -
        have "(word_of_nat (Suc i) + 1 + ucast start :: u64) = word_of_nat (Suc (Suc i + unat start))"
          by (simp add: ac_simps)
        moreover have "Suc (Suc i + unat start) < 18446744073709551616"
          using i unat_u32_bound [of start] by simp
        ultimately show ?thesis by (simp only: unat_u64_of_nat)
      qed
      moreover have "set (take (unat n) (drop (Suc i + unat start) (trows tab))) \<subseteq> set (trows tab)"
        by (meson order_trans set_drop_subset set_take_subset)
      from emplace [OF this]
      have "DBFile_selectPrepared Q (\<lambda>_. sql_from_id (Suc (Suc i + unat start)) (unat n)) ps
          emplace_block d out =
        Inr (out @ map row_block (take (unat n) (drop (Suc i + unat start) (trows tab))))" for ps
        by (simp add: selectPrepared_ready tab(1,2) sql_from_id_def with_blocks_def
            filter_id_drop [OF tab(4)])
      ultimately show ?thesis
        using False Some
        by (simp add: ChainDB_getBlocksByIndexRange_def select_id [OF assms] tail_after_def Let_def
            db_chain_rows [OF tab(2)] take_map drop_map add.commute del: of_nat_Suc)
    qed
  qed
qed

lemma ChainDB_kept: "chain_db_inv Q d \<Longrightarrow> b \<in> set (db_chain d) \<Longrightarrow> c_block b = b \<and> db_timely Q b"
  by (auto simp: chain_db_inv_def db_chain_def block_rows_def row_ok_def)

lemma ChainDB_distinct:
  assumes "chain_db_inv Q d"
  shows "distinct (map hash (db_chain d))"
    and "distinct (filter (\<lambda>p. p \<noteq> ''0'') (map previousHash (db_chain d)))"
  using assms by (auto simp: chain_db_inv_def db_chain_def block_rows_def comp_def)

interpretation cdb: chain_repo "ChainDB Q" db_chain "chain_db_inv Q" "db_timely Q" for Q
  by unfold_locales
     (simp_all add: ChainDB_def ChainDB_insert ChainDB_tip ChainDB_find ChainDB_has ChainDB_load
       ChainDB_count ChainDB_range ChainDB_kept ChainDB_distinct)

text \<open>A fresh database satisfies the invariant with the empty chain.\<close>

definition fresh_db :: db where
  "fresh_db = \<lparr> db_path = ''d-chat.db'', db_handle = True, db_locked = False,
     db_data = \<lparr> blocks_t = Some empty_table, messages_t = Some empty_table,
       peers_t = Some empty_table \<rparr> \<rparr>"

lemma fresh_db_inv [simp]: "chain_db_inv Q fresh_db" "db_chain fresh_db = []"
  by (simp_all add: chain_db_inv_def fresh_db_def db_ready_def empty_table_def db_chain_def
      block_rows_def)

end
