(* ===== verification/DC_XorCrypto.thy ===== *)
theory DC_XorCrypto
  imports DC_Crypto
begin

unbundle bit_operations_syntax

text \<open>
  \<open>crypto::XORCrypto\<close> (tests/helpers/XORCrypto.cpp), the implementation of \<open>ICrypto\<close> the tests of
  the repository run with. Its generator \<open>m_rng\<close> is the parameter \<open>rng\<close>, the bytes it yields.
\<close>

text \<open>The loop \<open>out[i % 32] ^= data[i]\<close>, from index \<open>i\<close> on.\<close>

fun xor_into :: "nat \<Rightarrow> bytes \<Rightarrow> bytes \<Rightarrow> bytes" where
  "xor_into i [] out = out"
| "xor_into i (x # xs) out = xor_into (Suc i) xs (out[i mod 32 := out ! (i mod 32) XOR x])"

definition sha256_bytes :: "bytes \<Rightarrow> bytes" where
  "sha256_bytes data = xor_into 0 data (replicate 32 0)"

definition xor_generateSecret :: "(nat \<Rightarrow> u8) \<Rightarrow> nat \<Rightarrow> bytes res" where
  "xor_generateSecret rng n = Inr (map rng [0..<n])"

definition xor_generateKeyPair :: "(nat \<Rightarrow> u8) \<Rightarrow> (bytes \<times> bytes) res" where
  "xor_generateKeyPair rng =
     bnd (xor_generateSecret rng 32) (\<lambda>secret. Inr (secret, secret))"

text \<open>An empty key makes \<open>i % key.size()\<close> a division by zero, undefined in C++.\<close>

definition xor_createSessionKey :: "bytes \<Rightarrow> bytes \<Rightarrow> bytes res" where
  "xor_createSessionKey priv pub =
     (let n = max (length priv) (length pub) in
      if 0 < n \<and> (priv = [] \<or> pub = []) then Inl Undefined
      else
        let tmp = map (\<lambda>i. priv ! (i mod length priv) XOR pub ! (i mod length pub)) [0..<n]
        in Inr (xor_into 0 tmp (replicate 32 0)))"

definition xor_encrypt :: "bytes \<Rightarrow> bytes \<Rightarrow> bytes res" where
  "xor_encrypt message key =
     (if key = [] then Inr (replicate (length message) 0)
      else Inr (map (\<lambda>i. message ! i XOR key ! (i mod length key)) [0..<length message]))"

definition xor_sign :: "bytes \<Rightarrow> bytes \<Rightarrow> bytes res" where
  "xor_sign message privateKey = Inr (sha256_bytes (privateKey @ message))"

fun xor_diff :: "bytes \<Rightarrow> bytes \<Rightarrow> u8 \<Rightarrow> u8" where
  "xor_diff (s # ss) (e # es) diff = xor_diff ss es (diff OR (s XOR e))"
| "xor_diff _ _ diff = diff"

definition xor_verify :: "bytes \<Rightarrow> bytes \<Rightarrow> bytes \<Rightarrow> bool" where
  "xor_verify message signature publicKey =
     (let expected = sha256_bytes (publicKey @ message) in
      if length signature \<noteq> length expected then False
      else xor_diff signature expected 0 = 0)"

definition XORCrypto :: "(nat \<Rightarrow> u8) \<Rightarrow> ICrypto" where
  "XORCrypto rng = \<lparr> generateSecret = xor_generateSecret rng,
     generateKeyPair = xor_generateKeyPair rng, keyToString = toHex, stringToKey = fromHex,
     createSessionKey = xor_createSessionKey, encrypt = xor_encrypt, decrypt = xor_encrypt,
     sign = xor_sign, verify = xor_verify \<rparr>"

subsection \<open>It meets the contract\<close>

definition xor_key_pair :: "bytes \<Rightarrow> bytes \<Rightarrow> bool" where
  "xor_key_pair a A \<longleftrightarrow> a = A \<and> a \<noteq> []"

lemma length_xor_into [simp]: "length (xor_into i xs out) = length out"
  by (induction i xs out rule: xor_into.induct) auto

lemma xor_zero_iff: "(x :: u8) XOR y = 0 \<longleftrightarrow> x = y"
proof
  assume "x XOR y = 0"
  then have "(x XOR y) XOR y = y" by simp
  then show "x = y" by (simp add: xor.assoc)
qed simp

lemma xor_diff_zero:
  "length s = length e \<Longrightarrow> xor_diff s e d = 0 \<longleftrightarrow> d = 0 \<and> s = e"
proof (induction s e arbitrary: d rule: list_induct2)
  case (Cons x xs y ys)
  have "d OR (x XOR y) = 0 \<longleftrightarrow> d = 0 \<and> x = y"
    by (simp add: or_eq_0_iff xor_zero_iff)
  with Cons show ?case by auto
qed simp

lemma xor_verify_iff: "xor_verify m s A \<longleftrightarrow> s = sha256_bytes (A @ m)"
  by (auto simp: xor_verify_def Let_def xor_diff_zero)

lemma xor_session_symmetric: "xor_createSessionKey a b = xor_createSessionKey b a"
  by (simp add: xor_createSessionKey_def Let_def max.commute xor.commute disj_commute)

lemma xor_session_total:
  assumes "a \<noteq> []" "b \<noteq> []"
  shows "\<exists>k. xor_createSessionKey a b = Inr k \<and> k \<noteq> []"
proof -
  have "xor_into 0 xs (replicate 32 0) \<noteq> []" for xs
    by (simp flip: length_0_conv)
  with assms show ?thesis by (simp add: xor_createSessionKey_def Let_def)
qed

lemma xor_encrypt_involution:
  assumes "k \<noteq> []" "xor_encrypt m k = Inr c"
  shows "xor_encrypt c k = Inr m"
  using assms by (auto simp: xor_encrypt_def xor.assoc intro: nth_equalityI)

interpretation xorc: icrypto "XORCrypto rng" xor_key_pair "\<lambda>k. k \<noteq> []" for rng
proof unfold_locales
  fix a A b B k m :: bytes
  show "\<exists>s. sign (XORCrypto rng) m a = Inr s"
    by (simp add: XORCrypto_def xor_sign_def)
  show "\<exists>k. createSessionKey (XORCrypto rng) a B = Inr k \<and>
      createSessionKey (XORCrypto rng) b A = Inr k \<and> k \<noteq> []"
    if "xor_key_pair a A" "xor_key_pair b B"
    using that xor_session_total [of a B] xor_session_symmetric [of a B]
    by (auto simp: XORCrypto_def xor_key_pair_def)
  show "\<exists>c. encrypt (XORCrypto rng) m k = Inr c \<and> decrypt (XORCrypto rng) c k = Inr m"
    if "k \<noteq> []"
    using xor_encrypt_involution [OF that] that
    by (auto simp: XORCrypto_def xor_encrypt_def)
qed (auto simp: XORCrypto_def xor_key_pair_def xor_sign_def xor_verify_iff)

end
