(* ===== verification/DC_ChainProofs.thy ===== *)
theory DC_ChainProofs
  imports DC_Blockchain DC_ChainDB DC_XorCrypto
begin

text \<open>
  What the checks of \<open>BlockchainService\<close> decide, proved once for every repository that meets
  \<open>chain_repo\<close> and every cryptography that meets \<open>icrypto\<close>.
\<close>

subsection \<open>Single blocks and linked lists\<close>

lemma validateSingleBlock_None:
  "validateSingleBlock S C b = Inr None \<longleftrightarrow> valid_block S C b"
  by (cases "verifyBlockSignature C b")
     (auto simp: validateSingleBlock_def valid_block_def Let_def)

lemma valid_block_hash: "valid_block S C b \<Longrightarrow> sha_len S \<Longrightarrow> hash b \<noteq> ''0''"
  by (simp add: valid_block_def)

lemma valid_block_hash_clean: "valid_block S C b \<Longrightarrow> c_str (hash b) = hash b"
  by (simp add: valid_block_def)

lemma linked_append:
  "linked p (xs @ ys) \<longleftrightarrow> linked p xs \<and> linked (if xs = [] then p else hash (last xs)) ys"
  by (induction xs arbitrary: p) auto

lemma linked_previous:
  "linked p bs \<Longrightarrow> previousHash ` set bs \<subseteq> insert p (hash ` set (butlast bs))"
proof (induction bs arbitrary: p)
  case (Cons b bs)
  then have "previousHash ` set bs \<subseteq> insert (hash b) (hash ` set (butlast bs))" "previousHash b = p"
    by auto
  then show ?case by (cases "bs = []") auto
qed simp

lemma linked_nth:
  "linked p cs \<Longrightarrow> Suc k < length cs \<Longrightarrow> previousHash (cs ! Suc k) = hash (cs ! k)"
proof (induction p cs arbitrary: k rule: linked.induct)
  case (2 p b bs)
  then show ?case by (cases bs; cases k) auto
qed simp

lemma tip_hash_append [simp]: "tip_hash (c @ [b]) = hash b"
  by (simp add: tip_hash_def)

lemma tip_hash_Nil [simp]: "tip_hash [] = ''0''"
  by (simp add: tip_hash_def)

lemma linked_snoc: "linked ''0'' (c @ [b]) \<longleftrightarrow> linked ''0'' c \<and> previousHash b = tip_hash c"
  by (auto simp: linked_append tip_hash_def)

lemma valid_chain_snoc:
  "valid_chain S C (c @ [b]) \<longleftrightarrow>
     valid_chain S C c \<and> previousHash b = tip_hash c \<and> valid_block S C b"
  by (auto simp: valid_chain_def linked_snoc)

lemma valid_chain_Nil [simp]: "valid_chain S C []"
  by (simp add: valid_chain_def)

lemma valid_chain_append:
  "valid_chain S C (c @ bs) \<longleftrightarrow>
     valid_chain S C c \<and> linked (tip_hash c) bs \<and> (\<forall>b \<in> set bs. valid_block S C b)"
  by (auto simp: valid_chain_def linked_append tip_hash_def)

lemma valid_chain_prefix: "valid_chain S C (c @ bs) \<Longrightarrow> valid_chain S C c"
  by (simp add: valid_chain_append)

text \<open>In a valid chain with distinct hashes the tip is nobody's predecessor.\<close>

lemma tip_not_previous:
  assumes "valid_chain S C c" "distinct (map hash c)" "sha_len S"
  shows "tip_hash c = ''0'' \<or> tip_hash c \<notin> previousHash ` set c"
proof (cases c rule: rev_cases)
  case (snoc c' b)
  have "previousHash ` set c \<subseteq> insert ''0'' (hash ` set c')"
    using linked_previous [of "''0''" c] assms(1) snoc by (simp add: valid_chain_def)
  moreover have "hash b \<notin> hash ` set c'" "hash b \<noteq> ''0''"
    using assms snoc valid_block_hash [of S C b] by (auto simp: valid_chain_snoc)
  ultimately show ?thesis using snoc by auto
qed (simp add: tip_hash_def)

lemma validate_loop_True:
  "validate_loop S C p bs = Inr (True, log) \<longleftrightarrow>
     linked p bs \<and> (\<forall>b \<in> set bs. valid_block S C b) \<and> log = []"
proof (induction bs arbitrary: p log)
  case (Cons b bs)
  then show ?case
    by (cases "previousHash b = p"; cases "validateSingleBlock S C b")
       (auto simp flip: validateSingleBlock_None split: option.splits)
qed auto

lemma sequence_break_None:
  "sequence_break i bs = None \<longleftrightarrow> (bs = [] \<or> linked (previousHash (hd bs)) bs)"
  by (induction i bs rule: sequence_break.induct) auto

lemma sequence_break_Some:
  "sequence_break i bs = Some (k, a, b) \<Longrightarrow>
     i \<le> k \<and> k - i + 1 < length bs \<and> bs ! (k - i) = a \<and> bs ! (k - i + 1) = b \<and>
     previousHash b \<noteq> hash a"
proof (induction i bs rule: sequence_break.induct)
  case (1 i x y bs)
  then show ?case
    by (cases "previousHash y = hash x") (auto simp: nth_Cons' Suc_diff_le split: if_splits)
qed simp_all

lemma first_invalid_None:
  "first_invalid S C bs = Inr None \<longleftrightarrow> (\<forall>b \<in> set bs. valid_block S C b)"
  by (induction bs) (auto simp: validateSingleBlock_None bnd_def split: sum.splits option.splits
      simp flip: validateSingleBlock_None)

text \<open>The link test both validations share: exactly the tip, or a text the database reads as it.\<close>

definition extends_tip :: "block list \<Rightarrow> block \<Rightarrow> bool" where
  "extends_tip c b \<longleftrightarrow>
     previousHash b = tip_hash c \<or> (c \<noteq> [] \<and> c_str (previousHash b) = tip_hash c)"

definition accepts :: "(bytes \<Rightarrow> bytes) \<Rightarrow> ICrypto \<Rightarrow> u64 \<Rightarrow> block list \<Rightarrow> block \<Rightarrow> bool" where
  "accepts S C now c b \<longleftrightarrow>
     valid_block S C b \<and> timestamp b \<le> now + 300000 \<and> extends_tip c b \<and>
     hash b \<notin> hash ` set c"

lemma extends_tip_clean:
  "c_str (previousHash b) = previousHash b \<Longrightarrow> extends_tip c b \<longleftrightarrow> previousHash b = tip_hash c"
  by (auto simp: extends_tip_def)

lemma valid_chain_tip:
  assumes "valid_chain S C c" "c \<noteq> []" "sha_len S"
  shows "tip_hash c \<noteq> ''0''"
proof -
  have "valid_block S C (last c)"
    using assms(1,2) last_in_set [of c] by (simp add: valid_chain_def)
  then show ?thesis using assms by (simp add: tip_hash_def valid_block_hash)
qed

lemma find_None_last: "find P c = None \<Longrightarrow> c \<noteq> [] \<Longrightarrow> \<not> P (last c)"
  using last_in_set [of c] by (auto simp: find_None_iff)

subsection \<open>Over any repository\<close>

context chain_repo
begin

lemma tip_default: "inv s \<Longrightarrow> \<exists>f t. findTip R Block s = Inr (f, t) \<and> hash t = tip_hash (chain s)"
  by (auto simp: tip tip_hash_def Block_def)

lemma stored_clean: "inv s \<Longrightarrow> b \<in> set (chain s) \<Longrightarrow> c_str (hash b) = hash b"
  using kept [of s b] by (simp add: c_block_id)

lemma tip_hash_clean: "inv s \<Longrightarrow> c_str (tip_hash (chain s)) = tip_hash (chain s)"
  using stored_clean [of s "last (chain s)"] by (simp add: tip_hash_def)

lemma validateLocalChain_True:
  assumes "inv s"
  shows "(\<exists>log. validateLocalChain S C R s = Inr (True, log)) \<longleftrightarrow> valid_chain S C (chain s)"
proof -
  have "validate_loop S C ''0'' (chain s) = Inr (True, log) \<longleftrightarrow> valid_chain S C (chain s) \<and> log = []" for log
    by (auto simp: validate_loop_True valid_chain_def)
  then show ?thesis
    by (cases "validate_loop S C ''0'' (chain s)")
      (auto simp: validateLocalChain_def load [OF assms])
qed

text \<open>The link test of an incoming block.\<close>

lemma find_tip_only:
  assumes "inv s" "findBlockByHash R h d s = Inr (True, x)"
  shows "hash x = c_str h"
  using assms(2) by (auto simp: find_hash [OF assms(1)] find_Some_iff split: option.splits)

lemma validateIncomingBlock_None:
  assumes s: "inv s"
  shows "validateIncomingBlock S C R now b s = Inr None \<longleftrightarrow> accepts S C now (chain s) b"
proof -
  let ?c = "chain s"
  obtain f t where t: "findTip R Block s = Inr (f, t)" "hash t = tip_hash ?c"
    using tip_default [OF s] by blast
  define L where "L = (if previousHash b \<noteq> hash t
        then bnd (findBlockByHash R (previousHash b) Block s) (\<lambda>(found, prevBlock).
               if \<not> found then Inr (Some ''Previous block not found in local chain'')
               else if hash prevBlock \<noteq> hash t
               then Inr (Some ''Block extends non-tip block (fork detected)'')
               else Inr None)
        else (Inr None :: string option res))"
  have L: "L = Inr None \<longleftrightarrow> extends_tip ?c b"
  proof (cases "find (\<lambda>x. hash x = c_str (previousHash b)) ?c")
    case None
    then have "c_str (previousHash b) \<noteq> tip_hash ?c" if "?c \<noteq> []"
      using find_None_last [OF None that] that by (auto simp: tip_hash_def)
    with None show ?thesis
      by (auto simp: L_def find_hash [OF s] extends_tip_def t)
  next
    case (Some x)
    then have "hash x = c_str (previousHash b)" "?c \<noteq> []"
      by (auto simp: find_Some_iff)
    with Some show ?thesis
      by (auto simp: L_def find_hash [OF s] extends_tip_def t)
  qed
  have "validateIncomingBlock S C R now b s =
    bnd (validateSingleBlock S C b) (\<lambda>error. case error of Some e \<Rightarrow> Inr (Some e) | None \<Rightarrow>
      if timestamp b > now + 300000 then Inr (Some ''Block timestamp is too far in the future'')
      else bnd L (\<lambda>link. case link of Some e \<Rightarrow> Inr (Some e) | None \<Rightarrow>
        bnd (hasBlock R (hash b) s) (\<lambda>known.
          if known then Inr (Some ''Block already exists in local chain'') else Inr None)))"
    unfolding validateIncomingBlock_def t(1) bnd_simps prod.case L_def ..
  then show ?thesis
    using valid_block_hash_clean [of S C b]
    by (cases "validateSingleBlock S C b"; cases L)
      (auto simp: accepts_def has [OF s] not_less
        simp flip: validateSingleBlock_None L split: option.splits)
qed

text \<open>Inserting an accepted block into a valid chain appends it.\<close>

lemma insert_ok_extends:
  assumes s: "inv s" and v: "valid_chain S C (chain s)" and e: "extends_tip (chain s) b"
    and fresh: "c_str (hash b) \<notin> hash ` set (chain s)" and digest: "sha_len S"
  shows "insert_ok (chain s) b"
proof -
  have "c_str (previousHash b) = tip_hash (chain s)"
    using e tip_hash_clean [OF s] by (auto simp: extends_tip_def)
  moreover have "chain s = [] \<Longrightarrow> previousHash b = ''0''"
    using e by (simp add: extends_tip_def)
  moreover have "chain s \<noteq> [] \<Longrightarrow> tip_hash (chain s) \<noteq> ''0''"
    using valid_chain_tip [OF v _ digest] by simp
  ultimately show ?thesis
    using tip_not_previous [OF v distinct_hashes [OF s] digest] fresh
    by (auto simp: insert_ok_def)
qed

lemma insert_accepted:
  assumes s: "inv s" and v: "valid_chain S C (chain s)" and a: "accepts S C now (chain s) b"
    and t: "timely b" and digest: "sha_len S"
  shows "\<exists>s'. insertBlock R b s = Inr (True, s') \<and> inv s' \<and> chain s' = chain s @ [c_block b] \<and>
    (c_block b = b \<longrightarrow> valid_chain S C (chain s'))"
proof -
  have e: "extends_tip (chain s) b" and b: "valid_block S C b" and f: "hash b \<notin> hash ` set (chain s)"
    using a by (auto simp: accepts_def)
  have ok: "insert_ok (chain s) b"
    using insert_ok_extends [OF s v e _ digest] f valid_block_hash_clean [OF b] by simp
  obtain s' where s': "insertBlock R b s = Inr (True, s')" "inv s'" "chain s' = chain s @ [c_block b]"
    using insert [OF s t] ok by auto
  have "valid_chain S C (chain s')" if "c_block b = b"
    using that e v b s'(3) extends_tip_clean [of b "chain s"] by (simp add: valid_chain_snoc)
      (metis c_block_id)
  with s' show ?thesis by blast
qed

text \<open>
  What an incoming block does to the chain: nothing, or it is appended. The clock is small enough for
  the timestamps it admits.
\<close>

lemma onIncomingBlock_effect:
  assumes s: "inv s" and clock: "\<And>b. timestamp b \<le> now + 300000 \<Longrightarrow> timely b"
    and r: "onIncomingBlock J S C R cfg now uuid ts j s = Inr (response, s')"
  shows "inv s' \<and> (s' = s \<or> (\<exists>b ok. Block_of_json J j = Inr b \<and> accepts S C now (chain s) b \<and>
    insertBlock R b s = Inr (ok, s') \<and> ok = insert_ok (chain s) b \<and>
    chain s' = (if ok then chain s @ [c_block b] else chain s)))"
proof (cases "\<exists>b. Block_of_json J j = Inr b \<and> validateIncomingBlock S C R now b s = Inr None")
  case True
  then obtain b where b: "Block_of_json J j = Inr b" "validateIncomingBlock S C R now b s = Inr None"
    by blast
  then have a: "accepts S C now (chain s) b" by (simp add: validateIncomingBlock_None [OF s])
  then have "timely b" by (simp add: clock accepts_def)
  from insert [OF s this] obtain s1 where s1:
    "insertBlock R b s = Inr (insert_ok (chain s) b, s1)" "inv s1"
    "chain s1 = (if insert_ok (chain s) b then chain s @ [c_block b] else chain s)" by blast
  from r b s1(1) have "s' = s1"
    by (auto simp: onIncomingBlock_def)
  with a b s1 show ?thesis by blast
next
  case False
  then have "s' = s"
    using r by (cases "Block_of_json J j") (auto simp: onIncomingBlock_def catch_std_def bnd_def
      split: sum.splits option.splits if_splits)
  with s show ?thesis by blast
qed

subsubsection \<open>Publishing a block\<close>

lemma storeAndBroadcastBlock_chain:
  assumes s: "inv s" and t: "timely b"
    and r: "storeAndBroadcastBlock J R b ps send s = Inr (ok, sent, s')"
  shows "inv s' \<and> chain s' = (if ok then chain s @ [c_block b] else chain s) \<and>
    (ok \<longrightarrow> sent = ps \<and> insert_ok (chain s) b)"
proof -
  have all: "broadcast send raw ps = Inr (True, l) \<Longrightarrow> l = ps" for raw l
    by (induction ps arbitrary: l) (auto split: if_splits)
  show ?thesis
    using r insert [OF s t] s
    by (auto simp: storeAndBroadcastBlock_def dest: all split: if_splits)
qed

subsubsection \<open>A received range of blocks\<close>

lemma validateNewBlocks_True:
  assumes s: "inv s"
  shows "(\<exists>log. validateNewBlocks S C R bs s = Inr (True, log)) \<longleftrightarrow>
    (bs = [] \<or> linked (previousHash (hd bs)) bs \<and> (\<forall>b \<in> set bs. valid_block S C b) \<and>
      (chain s = [] \<or> extends_tip (chain s) (hd bs)))"
proof (cases "bs = [] \<or> sequence_break 1 bs \<noteq> None")
  case True
  show ?thesis
  proof (cases "sequence_break 1 bs")
    case (Some x)
    obtain i a b where x: "x = (i, a, b)" by (cases x)
    have n: "bs \<noteq> []" "\<not> linked (previousHash (hd bs)) bs"
      using Some sequence_break_None [of 1 bs] by auto
    have "\<exists>log. validateNewBlocks S C R bs s = Inr (False, log)"
      unfolding validateNewBlocks_def Some using n(1) by (cases bs) (simp_all add: x)
    with n show ?thesis by auto
  qed (use True in \<open>simp add: validateNewBlocks_def\<close>)
next
  case False
  then obtain first rest where bs: "bs = first # rest" by (auto simp: neq_Nil_conv)
  let ?c = "chain s"
  define L where "L d t = (if (?c \<noteq> []) \<and> previousHash first \<noteq> hash t
        then bnd (findBlockByHash R (previousHash first) d s) (\<lambda>(known, prevBlock).
               if \<not> known then Inr (Some ''First new block's previous hash not found in local chain'')
               else if hash prevBlock \<noteq> hash t
               then Inr (Some ''New blocks extend non-tip block (fork detected)'')
               else Inr None)
        else (Inr None :: string option res))" for d t :: block
  let ?t = "if ?c = [] then Block else last ?c"
  have L: "L Block ?t = Inr None \<longleftrightarrow> ?c = [] \<or> extends_tip ?c first"
  proof (cases "find (\<lambda>x. hash x = c_str (previousHash first)) ?c")
    case None
    then show ?thesis
      using find_None_last [OF None]
      by (auto simp: L_def find_hash [OF s] extends_tip_def tip_hash_def)
  next
    case (Some x)
    then have "hash x = c_str (previousHash first)" by (auto simp: find_Some_iff)
    with Some show ?thesis
      by (auto simp: L_def find_hash [OF s] extends_tip_def tip_hash_def)
  qed
  have tot: "\<exists>x. L Block ?t = Inr x"
    by (auto simp: L_def find_hash [OF s] split: option.splits)
  have tip': "findTip R Block s = Inr (?c \<noteq> [], ?t)"
    using tip [OF s] by simp
  have "sequence_break 1 bs = None" using False by blast
  then have "validateNewBlocks S C R bs s =
    bnd (L Block ?t) (\<lambda>link. case link of
        Some e \<Rightarrow> Inr (False, [logValidationError ''NEW_BLOCKS'' e (hash first)])
      | None \<Rightarrow> bnd (first_invalid S C bs) (\<lambda>bad. case bad of None \<Rightarrow> Inr (True, [])
          | Some (b, e) \<Rightarrow> Inr (False, [logValidationError ''NEW_BLOCKS'' e (hash b)])))"
    unfolding validateNewBlocks_def bs list.case tip' bnd_simps prod.case L_def option.case by simp
  moreover have "linked (previousHash (hd bs)) bs"
    using False sequence_break_None [of 1 bs] by blast
  moreover have "(\<exists>log. bnd (L Block ?t) (\<lambda>link. case link of
        Some e \<Rightarrow> Inr (False, [logValidationError ''NEW_BLOCKS'' e (hash first)])
      | None \<Rightarrow> bnd (first_invalid S C bs) (\<lambda>bad. case bad of None \<Rightarrow> Inr (True, [])
          | Some (b, e) \<Rightarrow> Inr (False, [logValidationError ''NEW_BLOCKS'' e (hash b)]))) =
        Inr (True, log)) \<longleftrightarrow> L Block ?t = Inr None \<and> first_invalid S C bs = Inr None"
    using tot by (cases "first_invalid S C bs") (auto split: option.splits)
  moreover have "hd bs = first" "bs \<noteq> []" by (simp_all add: bs)
  ultimately show ?thesis
    unfolding L first_invalid_None by metis
qed

text \<open>Storing a range: blocks the repository refuses are skipped, so the chain only grows.\<close>

lemma store_new_blocks_grows:
  "inv s \<Longrightarrow> \<forall>b \<in> set bs. timely b \<Longrightarrow>
     \<exists>s' l. store_new_blocks R bs s = Inr s' \<and> inv s' \<and> chain s' = chain s @ l"
proof (induction bs arbitrary: s)
  case Nil
  then show ?case by (auto simp: store_new_blocks_def)
next
  case (Cons b bs)
  then have "timely b" by simp
  from insert [OF Cons.prems(1) this] obtain s1 where s1:
    "insertBlock R b s = Inr (insert_ok (chain s) b, s1)" "inv s1" "\<exists>l. chain s1 = chain s @ l"
    by fastforce
  from Cons.IH [OF s1(2)] Cons.prems(2) obtain s' l where
    "store_new_blocks R bs s1 = Inr s'" "inv s'" "chain s' = chain s1 @ l" by auto
  with s1 show ?case by (auto simp: store_new_blocks_def)
qed

text \<open>A validated range of fresh blocks is stored in full.\<close>

lemma store_new_blocks_all:
  "inv s \<Longrightarrow> valid_chain S C (chain s) \<Longrightarrow> sha_len S \<Longrightarrow> linked (tip_hash (chain s)) bs \<Longrightarrow>
     \<forall>b \<in> set bs. valid_block S C b \<and> c_block b = b \<and> timely b \<Longrightarrow>
     distinct (map hash (chain s @ bs)) \<Longrightarrow>
     \<exists>s'. store_new_blocks R bs s = Inr s' \<and> inv s' \<and> chain s' = chain s @ bs \<and>
       valid_chain S C (chain s')"
proof (induction bs arbitrary: s)
  case Nil
  then show ?case by (auto simp: store_new_blocks_def)
next
  case (Cons b bs)
  have b: "valid_block S C b" "c_block b = b" "timely b" "previousHash b = tip_hash (chain s)"
    "hash b \<notin> hash ` set (chain s)"
    using Cons.prems by auto
  have "insert_ok (chain s) b"
    using insert_ok_extends [OF Cons.prems(1,2), of b] Cons.prems(3) b valid_block_hash_clean [OF b(1)]
    by (simp add: extends_tip_def)
  with insert [OF Cons.prems(1) b(3)] b(2) obtain s1 where s1:
    "insertBlock R b s = Inr (True, s1)" "inv s1" "chain s1 = chain s @ [b]" by auto
  have "valid_chain S C (chain s1)" "linked (tip_hash (chain s1)) bs"
    "distinct (map hash (chain s1 @ bs))"
    using Cons.prems b s1(3) by (auto simp: valid_chain_snoc)
  from Cons.IH [OF s1(2) this(1) Cons.prems(3) this(2) _ this(3)] Cons.prems(5)
  obtain s' where "store_new_blocks R bs s1 = Inr s'" "inv s'" "chain s' = chain s1 @ bs"
    "valid_chain S C (chain s')" by auto
  with s1 show ?case by (auto simp: store_new_blocks_def)
qed

end

subsection \<open>A block for a message\<close>

locale blockchain_service =
  chain_repo R chain inv timely + icrypto C key_pair session_key
  for R :: "'s IChainRepo" and chain inv timely and C :: ICrypto and key_pair session_key
begin

text \<open>The private key of the configuration and the public key of the sender are a pair.\<close>

lemma createBlockFromMessage_valid:
  assumes s: "inv s" and cfg: "cfg PRIVATE_KEY = Some priv"
    and keys: "text_keys C key_pair priv (publicKey (m_from m))"
  shows "\<exists>b'. createBlockFromMessage S C R cfg m b s = Inr b' \<and> valid_block S C b' \<and>
    previousHash b' = tip_hash (chain s) \<and> compareBlockWithMessage S C b' m = Inr None \<and>
    timestamp b' = m_timestamp m \<and>
    (CHR 0x00 \<notin> set (publicKey (m_from m)) \<longrightarrow> c_block b' = b')"
proof -
  obtain f t where t: "findTip R Block s = Inr (f, t)" "hash t = tip_hash (chain s)"
    using tip_default [OF s] by blast
  obtain a A where k: "stringToKey C priv = Inr a" "stringToKey C (publicKey (m_from m)) = Inr A"
    "key_pair a A" using keys by (auto simp: text_keys_def)
  let ?b = "b\<lparr>previousHash := hash t, payloadHash := sha256 S (c_str (m_text m)),
    authorPublicKey := publicKey (m_from m), timestamp := m_timestamp m\<rparr>"
  obtain g where g: "sign C (bytes_of_string (toStringForHash ?b)) a = Inr g"
    "verify C (bytes_of_string (toStringForHash ?b)) g A" using sign_verifies [OF k(3)] by blast
  let ?b' = "computeHash S (?b\<lparr>signature := keyToString C g\<rparr>)"
  have str: "toStringForHash ?b' = toStringForHash ?b"
    by (simp add: computeHash_def)
  have sig: "verifyBlockSignature C ?b' = Inr True"
    by (simp add: verifyBlockSignature_def Let_def str key_text k g)
  have "createBlockFromMessage S C R cfg m b s = Inr ?b'"
    using g(1) by (simp add: createBlockFromMessage_def t(1) Let_def config_get_def cfg k)
  moreover have "valid_block S C ?b'"
    using sig str by (simp add: valid_block_def)
  moreover have "compareBlockWithMessage S C ?b' m = Inr None"
    by (simp add: compareBlockWithMessage_def sig Let_def)
  ultimately show ?thesis
    using tip_hash_clean [OF s] key_text_id [of g] t(2) by (auto simp: c_block_id)
qed

end

interpretation bsv: blockchain_service "ChainDB Q" db_chain "chain_db_inv Q" "db_timely Q"
  "XORCrypto rng" xor_key_pair "\<lambda>k. k \<noteq> []" for Q rng
  by (intro blockchain_service.intro cdb.chain_repo_axioms xorc.icrypto_axioms)

end
