(* ===== verification/DC_MessageService.thy ===== *)
theory DC_MessageService
  imports DC_MessageDB DC_ChainProofs
begin

text \<open>
  \<open>message::MessageService\<close> (src/domain/message/MessageService.cpp) over any message repository \<open>M\<close>
  and chain repository \<open>R\<close> on one state, as in the program, where both keep their tables in the same
  database.
\<close>

definition Service_findChatMessages ::
  "'s IMessageRepo \<Rightarrow> string \<Rightarrow> string \<Rightarrow> 's \<Rightarrow> text_message list \<Rightarrow> text_message list res" where
  "Service_findChatMessages M a b s messages =
     (case findChatMessages M a b s messages of
        (_, Some Undefined) \<Rightarrow> Inl Undefined
      | (out, _) \<Rightarrow> Inr out)"

definition checkChatMessage ::
  "(bytes \<Rightarrow> bytes) \<Rightarrow> ICrypto \<Rightarrow> 's IMessageRepo \<Rightarrow> 's IChainRepo \<Rightarrow> 's \<Rightarrow> text_message \<Rightarrow> bool res" where
  "checkChatMessage SHA256 C M R s m =
     bnd (findBlockHashByMessageId M (m_id m) '''' s) (\<lambda>(found, blockHash).
       if \<not> found \<or> blockHash = '''' \<or> blockHash \<noteq> m_blockHash m then Inr False
       else
         bnd (Service_findBlockByHash R blockHash Block s) (\<lambda>(known, b).
           if \<not> known then Inr False
           else bnd (compareBlockWithMessage SHA256 C b m) (\<lambda>error. Inr (error = None))))"

text \<open>The loop: the identifiers of the messages that fail the check, in the order of the list.\<close>

definition findInvalidChatMessageIDs ::
  "(bytes \<Rightarrow> bytes) \<Rightarrow> ICrypto \<Rightarrow> 's IMessageRepo \<Rightarrow> 's IChainRepo \<Rightarrow> 's \<Rightarrow> text_message list \<Rightarrow>
   string list \<Rightarrow> string list res" where
  "findInvalidChatMessageIDs SHA256 C M R s messages invalidIds =
     fold_res (\<lambda>m ids. bnd (checkChatMessage SHA256 C M R s m) (\<lambda>ok.
       Inr (if ok then ids else ids @ [m_id m]))) messages invalidIds"

definition Service_insertSecretMessage ::
  "'s IMessageRepo \<Rightarrow> text_message \<Rightarrow> string \<Rightarrow> string \<Rightarrow> 's \<Rightarrow> (bool \<times> 's) res" where
  "Service_insertSecretMessage M m messageDump blockHash s =
     insertSecretMessage M m messageDump blockHash s"

definition removeMessageByBlockHashOrId ::
  "'s IMessageRepo \<Rightarrow> string \<Rightarrow> string \<Rightarrow> 's \<Rightarrow> (bool \<times> 's) res" where
  "removeMessageByBlockHashOrId M blockHash messageId s =
     bnd (removeMessageByBlockHash M blockHash s) (\<lambda>(ok, s').
       if ok then Inr (True, s') else removeMessageById M messageId s')"

subsection \<open>Which messages the chain vouches for\<close>

definition block_matches :: "(bytes \<Rightarrow> bytes) \<Rightarrow> block \<Rightarrow> text_message \<Rightarrow> bool" where
  "block_matches SHA256 b m \<longleftrightarrow> authorPublicKey b = publicKey (m_from m) \<and>
     timestamp b = m_timestamp m \<and> payloadHash b = sha256 SHA256 (c_str (m_text m))"

text \<open>
  The message is stored under the hash it carries, and the block of that hash is one for its author,
  time and text.
\<close>

definition vouched ::
  "(bytes \<Rightarrow> bytes) \<Rightarrow> stored_message list \<Rightarrow> block list \<Rightarrow> text_message \<Rightarrow> bool" where
  "vouched SHA256 es c m \<longleftrightarrow> m_blockHash m \<noteq> '''' \<and>
     (case find (\<lambda>e. st_id e = c_str (m_id m)) es of
        None \<Rightarrow> False
      | Some e \<Rightarrow> st_block e = m_blockHash m \<and>
          (case find (\<lambda>b. hash b = c_str (m_blockHash m)) c of
             None \<Rightarrow> False | Some b \<Rightarrow> block_matches SHA256 b m))"

lemma compareBlockWithMessage_valid:
  "verifyBlockSignature C b = Inr True \<Longrightarrow>
   \<exists>e. compareBlockWithMessage S C b m = Inr e \<and> (e = None \<longleftrightarrow> block_matches S b m)"
  by (auto simp: compareBlockWithMessage_def block_matches_def Let_def)

locale message_service = chain_repo R chain cinv timely + message_repo M msgs minv
  for R :: "'s IChainRepo" and chain cinv timely and M :: "'s IMessageRepo" and msgs minv
begin

text \<open>With a valid local chain the check never throws, and it finds just the unvouched messages.\<close>

lemma checkChatMessage_valid:
  assumes c: "cinv s" and m: "minv s" and v: "valid_chain S C (chain s)"
  shows "checkChatMessage S C M R s msg = Inr (vouched S (msgs s) (chain s) msg)"
proof (cases "find (\<lambda>e. st_id e = c_str (m_id msg)) (msgs s)")
  case None
  then show ?thesis by (simp add: checkChatMessage_def block_of [OF m] vouched_def)
next
  case (Some e)
  show ?thesis
  proof (cases "find (\<lambda>b. hash b = c_str (m_blockHash msg)) (chain s)")
    case None
    with Some show ?thesis
      by (auto simp: checkChatMessage_def block_of [OF m] vouched_def Service_findBlockByHash_def
          find_hash [OF c])
  next
    case (Some b)
    then have "verifyBlockSignature C b = Inr True"
      using v by (auto simp: valid_chain_def valid_block_def dest: find_SomeD)
    then obtain x where "compareBlockWithMessage S C b msg = Inr x" "x = None \<longleftrightarrow> block_matches S b msg"
      using compareBlockWithMessage_valid by blast
    with \<open>find _ (msgs s) = Some e\<close> Some show ?thesis
      by (auto simp: checkChatMessage_def block_of [OF m] vouched_def Service_findBlockByHash_def
          find_hash [OF c])
  qed
qed

lemma findInvalid_valid:
  assumes "cinv s" "minv s" "valid_chain S C (chain s)"
  shows "findInvalidChatMessageIDs S C M R s ms ids =
    Inr (ids @ map m_id (filter (\<lambda>m. \<not> vouched S (msgs s) (chain s) m) ms))"
  unfolding findInvalidChatMessageIDs_def
  by (induction ms arbitrary: ids) (simp_all add: checkChatMessage_valid [OF assms])

text \<open>
  The first alternative never fails, so the second is never tried: what is left are the messages of
  other blocks.
\<close>

lemma removeMessageByBlockHashOrId_effect:
  assumes "minv s"
  shows "\<exists>s'. removeMessageByBlockHashOrId M h i s = Inr (True, s') \<and> minv s' \<and>
    msgs s' = filter (\<lambda>e. st_block e \<noteq> c_str h) (msgs s)"
  using remove_block [OF assms, of h] by (auto simp: removeMessageByBlockHashOrId_def)

end

interpretation msv: message_service "ChainDB Q" db_chain "chain_db_inv Q" "db_timely Q"
  "MessageDB J C cfg srt Q" db_messages message_db_inv for Q J C cfg srt
  by (intro message_service.intro cdb.chain_repo_axioms mdb.message_repo_axioms)

end
