(* ===== verification/DC_PeerRepo.thy ===== *)
theory DC_PeerRepo
  imports DC_Peer DC_Db
begin

text \<open>
  The interface \<open>peer::IPeerRepo\<close> (src/domain/peer/IPeerRepo.hpp), its contract as a locale, the
  SQLite implementation \<open>peer::PeerDB\<close> (src/infra/peer/PeerDB.cpp), and the methods of \<open>PeerService\<close>
  that pass on to the repository.
\<close>

record 's IPeerRepo =
  getAllPeers :: "'s \<Rightarrow> user_peer list \<Rightarrow> user_peer list res"
  repoAddPeer :: "user_peer \<Rightarrow> 's \<Rightarrow> 's res"
  repoFindPublicKey :: "user_host \<Rightarrow> string \<Rightarrow> 's \<Rightarrow> (bool \<times> string) res"

text \<open>What a repository with NUL-terminated columns keeps of a peer.\<close>

definition c_peer :: "user_peer \<Rightarrow> user_peer" where
  "c_peer p = UserPeer (c_str (host p)) (port p) (c_str (publicKey p))"

text \<open>One entry per public key, in the order of arrival; an address finds its oldest entry.\<close>

locale peer_repo =
  fixes P :: "'s IPeerRepo"
    and known :: "'s \<Rightarrow> user_peer list"
    and inv :: "'s \<Rightarrow> bool"
  assumes all: "inv s \<Longrightarrow> getAllPeers P s out = Inr (out @ known s)"
    and add: "inv s \<Longrightarrow> \<exists>s'. repoAddPeer P p s = Inr s' \<and> inv s' \<and>
      known s' = (if c_str (publicKey p) \<in> publicKey ` set (known s) then known s
                  else known s @ [c_peer p])"
    and find_key: "inv s \<Longrightarrow> repoFindPublicKey P h k s =
      Inr (case find (\<lambda>p. host p = c_str (host h) \<and> port p = port h) (known s) of
             None \<Rightarrow> (k \<noteq> [], k) | Some p \<Rightarrow> (publicKey p \<noteq> [], publicKey p))"
    and distinct_keys: "inv s \<Longrightarrow> distinct (map publicKey (known s))"
begin

lemma peer_op_keeps: "inv s \<Longrightarrow> repoAddPeer P p s = Inr s' \<Longrightarrow> inv s'"
  using add [of s p] by auto

text \<open>Adding a peer twice is adding it once.\<close>

lemma add_idem:
  assumes "inv s" "repoAddPeer P p s = Inr s1"
  shows "\<exists>s2. repoAddPeer P p s1 = Inr s2 \<and> known s2 = known s1"
proof -
  have s1: "inv s1" "known s1 = (if c_str (publicKey p) \<in> publicKey ` set (known s) then known s
      else known s @ [c_peer p])"
    using add [OF assms(1), of p] assms(2) by auto
  then have "c_str (publicKey p) \<in> publicKey ` set (known s1)"
    by (auto simp: c_peer_def UserPeer_def)
  with add [OF s1(1), of p] show ?thesis by auto
qed

text \<open>A peer at an address already known under another key stays hidden behind the older entry.\<close>

lemma oldest_key_wins:
  assumes s: "inv s" and old: "repoFindPublicKey P h '''' s = Inr (True, k)"
    and "repoAddPeer P p s = Inr s'"
  shows "repoFindPublicKey P h '''' s' = Inr (True, k)"
proof -
  obtain q where q: "find (\<lambda>p. host p = c_str (host h) \<and> port p = port h) (known s) = Some q"
    "publicKey q = k" "k \<noteq> []"
    using old by (auto simp: find_key [OF s] split: option.splits)
  have s': "inv s'" "\<exists>l. known s' = known s @ l"
    using add [OF s, of p] assms(3) by auto
  with q show ?thesis by (auto simp: find_key [OF s'(1)] find_append)
qed

end

subsection \<open>PeerDB\<close>

definition with_peers :: "(peer_row table \<Rightarrow> 'a) \<Rightarrow> tables \<Rightarrow> 'a option" where
  "with_peers f t = map_option f (peers_t t)"

text \<open>\<open>SELECT host, port, public_key FROM peers\<close>\<close>

definition sql_all_peers :: "tables \<Rightarrow> string option list list option" where
  "sql_all_peers = with_peers (\<lambda>tab.
     map (\<lambda>r. [Some (pr_host r), Some (pr_port r), Some (pr_public_key r)]) (trows tab))"

text \<open>\<open>SELECT id FROM peers WHERE public_key=? LIMIT 1\<close>\<close>

definition sql_peer_by_key :: "string list \<Rightarrow> tables \<Rightarrow> string option list list option" where
  "sql_peer_by_key ps = with_peers (\<lambda>tab.
     map (\<lambda>r. [Some (to_string (pr_id r))])
       (take 1 (filter (\<lambda>r. pr_public_key r = ps ! 0) (trows tab))))"

text \<open>\<open>SELECT public_key FROM peers WHERE host=? AND port=? LIMIT 1\<close>\<close>

definition sql_key_by_host :: "sqlite \<Rightarrow> string list \<Rightarrow> tables \<Rightarrow> string option list list option" where
  "sql_key_by_host Q ps = with_peers (\<lambda>tab.
     map (\<lambda>r. [Some (pr_public_key r)])
       (take 1 (filter (\<lambda>r. pr_host r = ps ! 0 \<and> pr_port r = sq_int Q (ps ! 1)) (trows tab))))"

text \<open>\<open>INSERT INTO peers(host, port, public_key) VALUES (?,?,?)\<close> under \<open>UNIQUE\<close> of \<open>public_key\<close>\<close>

definition sql_insert_peer :: "sqlite \<Rightarrow> string list \<Rightarrow> tables \<Rightarrow> (bool \<times> tables) option" where
  "sql_insert_peer Q ps t =
     map_option (\<lambda>tab.
       if \<exists>r \<in> set (trows tab). pr_public_key r = ps ! 2 then (False, t)
       else (True, t\<lparr>peers_t := Some \<lparr>
              trows = trows tab @ [\<lparr> pr_id = Suc (tseq tab), pr_host = ps ! 0,
                pr_port = sq_int Q (ps ! 1), pr_public_key = ps ! 2 \<rparr>],
              tseq = Suc (tseq tab) \<rparr>\<rparr>)) (peers_t t)"

definition PeerDB_init :: "sqlite \<Rightarrow> db \<Rightarrow> db res" where
  "PeerDB_init Q d =
     bnd (DBFile_open Q d) (\<lambda>d.
     bnd (DBFile_exec Q (\<lambda>t. Some (t\<lparr>peers_t := create_if_missing (peers_t t)\<rparr>)) d) (\<lambda>d.
       DBFile_exec Q (\<lambda>t. map_option (\<lambda>_. t) (peers_t t)) d))"

definition emplace_peer :: "string list \<Rightarrow> user_peer list \<Rightarrow> user_peer list res" where
  "emplace_peer row out =
     (if length row = 3
      then bnd (stoi (row ! 1)) (\<lambda>p. Inr (out @ [UserPeer (row ! 0) (word_of_int p) (row ! 2)]))
      else Inr out)"

definition PeerDB_getAllPeers :: "sqlite \<Rightarrow> db \<Rightarrow> user_peer list \<Rightarrow> user_peer list res" where
  "PeerDB_getAllPeers Q d out = DBFile_select Q sql_all_peers emplace_peer d out"

definition PeerDB_addPeer :: "sqlite \<Rightarrow> user_peer \<Rightarrow> db \<Rightarrow> db res" where
  "PeerDB_addPeer Q p d =
     bnd (DBFile_selectPrepared Q sql_peer_by_key [publicKey p]
            (\<lambda>row found. Inr (if row \<noteq> [] then True else found)) d False) (\<lambda>found.
       if \<not> found
       then bnd (DBFile_executePrepared Q (sql_insert_peer Q)
                   [host p, to_string (unat (port p)), publicKey p] d) (\<lambda>(_, d'). Inr d')
       else Inr d)"

definition PeerDB_findPublicKeyByUserHost ::
  "sqlite \<Rightarrow> user_host \<Rightarrow> string \<Rightarrow> db \<Rightarrow> (bool \<times> string) res" where
  "PeerDB_findPublicKeyByUserHost Q h pk d =
     bnd (DBFile_selectPrepared Q (sql_key_by_host Q) [host h, to_string (unat (port h))]
            (\<lambda>row k. Inr (if row \<noteq> [] then row ! 0 else k)) d pk) (\<lambda>k. Inr (k \<noteq> '''', k))"

definition PeerDB :: "sqlite \<Rightarrow> db IPeerRepo" where
  "PeerDB Q = \<lparr> getAllPeers = PeerDB_getAllPeers Q, repoAddPeer = PeerDB_addPeer Q,
     repoFindPublicKey = PeerDB_findPublicKeyByUserHost Q \<rparr>"

subsection \<open>PeerService on the repository\<close>

definition getAllChatPeers :: "'s IPeerRepo \<Rightarrow> 's \<Rightarrow> user_peer list \<Rightarrow> user_peer list res" where
  "getAllChatPeers P s out = getAllPeers P s out"

definition addChatPeer :: "'s IPeerRepo \<Rightarrow> user_peer \<Rightarrow> 's \<Rightarrow> 's res" where
  "addChatPeer P p s = repoAddPeer P p s"

definition findPublicKeyByUserHost ::
  "'s IPeerRepo \<Rightarrow> user_host \<Rightarrow> string \<Rightarrow> 's \<Rightarrow> (bool \<times> string) res" where
  "findPublicKeyByUserHost P h pk s = repoFindPublicKey P h pk s"

subsection \<open>Abstraction and invariant\<close>

definition row_peer :: "peer_row \<Rightarrow> user_peer" where
  "row_peer r = UserPeer (pr_host r)
     (case stoi (pr_port r) of Inl _ \<Rightarrow> 0 | Inr p \<Rightarrow> word_of_int p) (pr_public_key r)"

definition peer_rows :: "db \<Rightarrow> peer_row list" where
  "peer_rows d = (case peers_t (db_data d) of None \<Rightarrow> [] | Some tab \<Rightarrow> trows tab)"

definition db_peers :: "db \<Rightarrow> user_peer list" where
  "db_peers d = map row_peer (peer_rows d)"

text \<open>SQLite gives a port number back as it was bound.\<close>

definition port_column :: "sqlite \<Rightarrow> bool" where
  "port_column Q \<longleftrightarrow> (\<forall>n < 65536. sq_int Q (to_string n) = to_string n)"

definition peer_row_ok :: "peer_row \<Rightarrow> bool" where
  "peer_row_ok r \<longleftrightarrow> CHR 0x00 \<notin> set (pr_host r) \<and> CHR 0x00 \<notin> set (pr_public_key r) \<and>
     pr_port r = to_string (unat (port (row_peer r)))"

definition peer_db_inv :: "sqlite \<Rightarrow> db \<Rightarrow> bool" where
  "peer_db_inv Q d \<longleftrightarrow> db_ready d \<and> port_column Q \<and>
     (\<exists>tab. peers_t (db_data d) = Some tab \<and> distinct (map pr_public_key (trows tab)) \<and>
        (\<forall>r \<in> set (trows tab). peer_row_ok r))"

lemma port_column_u16: "port_column Q \<Longrightarrow> sq_int Q (to_string (unat (p :: u16))) = to_string (unat p)"
  using unat_u16_bound [of p] by (simp add: port_column_def)

lemma row_peer_fields [simp]:
  "host (row_peer r) = pr_host r" "publicKey (row_peer r) = pr_public_key r"
  by (simp_all add: row_peer_def UserPeer_def)

lemma peer_db_invE:
  assumes "peer_db_inv Q d"
  obtains tab where "db_ready d" "peers_t (db_data d) = Some tab"
    "distinct (map pr_public_key (trows tab))" "\<forall>r \<in> set (trows tab). peer_row_ok r"
    "db_peers d = map row_peer (trows tab)" "port_column Q"
  using assms by (auto simp: peer_db_inv_def db_peers_def peer_rows_def)

lemma emplace_peer_row:
  assumes "peer_row_ok r"
  shows "emplace_peer (map column_text [Some (pr_host r), Some (pr_port r), Some (pr_public_key r)]) out =
    Inr (out @ [row_peer r])"
proof -
  let ?p = "port (row_peer r)"
  have r: "CHR 0x00 \<notin> set (pr_host r)" "CHR 0x00 \<notin> set (pr_public_key r)"
    "pr_port r = to_string (unat ?p)"
    using assms by (simp_all add: peer_row_ok_def)
  have "stoi (to_string (unat ?p)) = Inr (int (unat ?p))"
    using unat_u16_bound [of ?p] by simp
  with r show ?thesis
    by (simp add: emplace_peer_def column_text_def UserPeer_def)
qed

lemma PeerDB_all:
  assumes "peer_db_inv Q d"
  shows "PeerDB_getAllPeers Q d out = Inr (out @ db_peers d)"
proof -
  obtain tab where tab: "db_ready d" "peers_t (db_data d) = Some tab"
    "\<forall>r \<in> set (trows tab). peer_row_ok r" "db_peers d = map row_peer (trows tab)"
    using assms by (rule peer_db_invE)
  have "fold_res emplace_peer
      (map (\<lambda>r. map column_text [Some (pr_host r), Some (pr_port r), Some (pr_public_key r)]) rows) out =
    Inr (out @ map row_peer rows)" if "\<forall>r \<in> set rows. peer_row_ok r" for rows
    using that by (intro fold_res_collect emplace_peer_row) blast
  from this [OF tab(3)] show ?thesis
    unfolding PeerDB_getAllPeers_def
    by (subst select_ready [OF tab(1)]) (auto simp: sql_all_peers_def with_peers_def tab(2,4) comp_def)
qed

lemma peer_selected:
  assumes "db_ready d" "peers_t (db_data d) = Some tab"
  shows "DBFile_selectPrepared Q sql_peer_by_key [k]
      (\<lambda>row found. Inr (if row \<noteq> [] then True else found)) d False =
    Inr (c_str k \<in> pr_public_key ` set (trows tab))"
proof -
  have "DBFile_selectPrepared Q sql_peer_by_key [k]
      (\<lambda>row found. Inr (if row \<noteq> [] then True else found)) d False =
    fold_res (\<lambda>row found. Inr (if row \<noteq> [] then True else found))
      (map (map column_text) (map (\<lambda>r. [Some (to_string (pr_id r))])
        (case find (\<lambda>r. pr_public_key r = c_str k) (trows tab) of None \<Rightarrow> [] | Some r \<Rightarrow> [r]))) False"
    by (subst selectPrepared_ready [OF assms(1)])
      (auto simp: sql_peer_by_key_def with_peers_def assms(2) take_Suc0_filter)
  then show ?thesis
    by (cases "find (\<lambda>r. pr_public_key r = c_str k) (trows tab)")
      (auto simp: find_None_iff intro: rev_image_eqI dest!: find_SomeD)
qed

lemma PeerDB_add:
  assumes "peer_db_inv Q d"
  shows "\<exists>d'. PeerDB_addPeer Q p d = Inr d' \<and> peer_db_inv Q d' \<and>
    db_peers d' = (if c_str (publicKey p) \<in> publicKey ` set (db_peers d) then db_peers d
      else db_peers d @ [c_peer p])"
proof -
  obtain tab where tab: "db_ready d" "peers_t (db_data d) = Some tab"
    "distinct (map pr_public_key (trows tab))" "\<forall>r \<in> set (trows tab). peer_row_ok r"
    "db_peers d = map row_peer (trows tab)" "port_column Q"
    using assms by (rule peer_db_invE)
  have keys: "publicKey ` set (db_peers d) = pr_public_key ` set (trows tab)"
    by (simp add: tab(5) image_image)
  show ?thesis
  proof (cases "c_str (publicKey p) \<in> pr_public_key ` set (trows tab)")
    case True
    with assms show ?thesis by (simp add: PeerDB_addPeer_def peer_selected [OF tab(1,2)] keys)
  next
    case False
    let ?row = "\<lparr> pr_id = Suc (tseq tab), pr_host = c_str (host p),
      pr_port = to_string (unat (port p)), pr_public_key = c_str (publicKey p) \<rparr>"
    let ?d' = "d\<lparr>db_data := (db_data d)\<lparr>peers_t :=
      Some \<lparr> trows = trows tab @ [?row], tseq = Suc (tseq tab) \<rparr>\<rparr>\<rparr>"
    have row: "row_peer ?row = c_peer p"
      using unat_u16_bound [of "port p"] by (simp add: row_peer_def c_peer_def UserPeer_def)
    have "\<forall>r \<in> set (trows tab). pr_public_key r \<noteq> c_str (publicKey p)"
      using False by force
    then have "DBFile_executePrepared Q (sql_insert_peer Q)
        [host p, to_string (unat (port p)), publicKey p] d = Inr (True, ?d')"
      by (subst executePrepared_ready [OF tab(1), where ok = True and t = "db_data ?d'"])
        (auto simp: sql_insert_peer_def tab(2) port_column_u16 [OF tab(6)])
    moreover have "peer_row_ok ?row"
      unfolding peer_row_ok_def row by (simp add: c_peer_def UserPeer_def)
    then have "peer_db_inv Q ?d'"
      using tab False by (auto simp: peer_db_inv_def)
    moreover have "db_peers ?d' = db_peers d @ [c_peer p]"
      by (simp add: tab(5)) (simp add: db_peers_def peer_rows_def row)
    ultimately show ?thesis
      using False by (auto simp: PeerDB_addPeer_def peer_selected [OF tab(1,2)] keys)
  qed
qed

lemma PeerDB_find_key:
  assumes "peer_db_inv Q d"
  shows "PeerDB_findPublicKeyByUserHost Q h k d =
    Inr (case find (\<lambda>p. host p = c_str (host h) \<and> port p = port h) (db_peers d) of
           None \<Rightarrow> (k \<noteq> [], k) | Some p \<Rightarrow> (publicKey p \<noteq> [], publicKey p))"
proof -
  obtain tab where tab: "db_ready d" "peers_t (db_data d) = Some tab"
    "\<forall>r \<in> set (trows tab). peer_row_ok r" "db_peers d = map row_peer (trows tab)" "port_column Q"
    using assms by (rule peer_db_invE)
  have port: "pr_port r = to_string (unat (port h)) \<longleftrightarrow> port (row_peer r) = port h"
    if "r \<in> set (trows tab)" for r
    using tab(3) that by (auto simp: peer_row_ok_def to_string_inj word_unat_eq_iff)
  have f: "find (\<lambda>r. pr_host r = c_str (host h) \<and> pr_port r = to_string (unat (port h))) (trows tab) =
    find (\<lambda>r. pr_host r = c_str (host h) \<and> port (row_peer r) = port h) (trows tab)"
    by (rule find_cong [OF refl]) (simp add: port)
  let ?r = "find (\<lambda>r. pr_host r = c_str (host h) \<and> port (row_peer r) = port h) (trows tab)"
  have "DBFile_selectPrepared Q (sql_key_by_host Q) [host h, to_string (unat (port h))]
      (\<lambda>row k. Inr (if row \<noteq> [] then row ! 0 else k)) d k =
    fold_res (\<lambda>row k. Inr (if row \<noteq> [] then row ! 0 else k))
      (map (map column_text) (map (\<lambda>r. [Some (pr_public_key r)])
        (case ?r of None \<Rightarrow> [] | Some r \<Rightarrow> [r]))) k"
    by (subst selectPrepared_ready [OF tab(1)])
      (auto simp: sql_key_by_host_def with_peers_def tab(2) port_column_u16 [OF tab(5)]
        take_Suc0_filter f)
  then show ?thesis
    using tab(3)
    by (cases ?r) (auto simp: PeerDB_findPublicKeyByUserHost_def tab(4) find_map comp_def
        column_text_def peer_row_ok_def dest: find_SomeD)
qed

interpretation pdb: peer_repo "PeerDB Q" db_peers "peer_db_inv Q" for Q
proof unfold_locales
  show "distinct (map publicKey (db_peers d))" if "peer_db_inv Q d" for d
    using that by (auto simp: peer_db_inv_def db_peers_def peer_rows_def comp_def)
qed (simp_all add: PeerDB_def PeerDB_all PeerDB_add PeerDB_find_key)

end
