(* ===== verification/DC_Node.thy ===== *)
theory DC_Node
  imports DC_MessageService DC_PeerRepo
begin

text \<open>
  The state of a running node and the computations on it: the objects \<open>ChatApplication\<close> wires together
  (src/app/ChatApplication.hpp) keep their mutable state in one record, over any store \<open>'s\<close>. A
  computation that throws keeps the changes it made before, so it returns its outcome and the state.
\<close>

record 's node =
  n_store :: 's                       \<comment> \<open>the database behind the three repositories\<close>
  n_peers :: peer_service
  n_newBlocks :: "block list"         \<comment> \<open>\<open>BlockchainService::newBlocks\<close>\<close>
  n_global :: global_state

text \<open>What does not change while a node runs.\<close>

record ('s, 'j) env =
  e_json :: "'j json_lib"
  e_sha :: "bytes \<Rightarrow> bytes"
  e_crypto :: ICrypto
  e_chain :: "'s IChainRepo"
  e_msgs :: "'s IMessageRepo"
  e_peers :: "'s IPeerRepo"
  e_cfg :: config_data

subsection \<open>Computations\<close>

type_synonym ('n, 'a) act = "'n \<Rightarrow> 'a res \<times> 'n"

definition ret :: "'a \<Rightarrow> ('n, 'a) act" where
  "ret x n = (Inr x, n)"

definition lift :: "'a res \<Rightarrow> ('n, 'a) act" where
  "lift r n = (r, n)"

definition seq :: "('n, 'a) act \<Rightarrow> ('a \<Rightarrow> ('n, 'b) act) \<Rightarrow> ('n, 'b) act" where
  "seq a f n = (case a n of (Inl e, n') \<Rightarrow> (Inl e, n') | (Inr x, n') \<Rightarrow> f x n')"

definition update :: "('n \<Rightarrow> 'n) \<Rightarrow> ('n, unit) act" where
  "update f n = (Inr (), f n)"

definition query :: "('n \<Rightarrow> 'a res) \<Rightarrow> ('n, 'a) act" where
  "query f n = (f n, n)"

text \<open>A repository method that changes the store: a method that throws leaves it as it was.\<close>

definition on_store :: "('s \<Rightarrow> ('a \<times> 's) res) \<Rightarrow> ('s node, 'a) act" where
  "on_store f n =
     (case f (n_store n) of Inl e \<Rightarrow> (Inl e, n) | Inr (x, s) \<Rightarrow> (Inr x, n\<lparr>n_store := s\<rparr>))"

definition handle :: "('n, 'a) act \<Rightarrow> (exc \<Rightarrow> ('n, 'a) act) \<Rightarrow> ('n, 'a) act" where
  "handle a h n =
     (case a n of (Inr x, n') \<Rightarrow> (Inr x, n')
      | (Inl e, n') \<Rightarrow> if e = Undefined then (Inl Undefined, n') else h e n')"

fun each :: "('a \<Rightarrow> ('n, unit) act) \<Rightarrow> 'a list \<Rightarrow> ('n, unit) act" where
  "each f [] = ret ()"
| "each f (x # xs) = seq (f x) (\<lambda>_. each f xs)"

named_theorems act_simps \<open>unfolding of computations\<close>

lemmas [act_simps] = ret_def lift_def seq_def update_def query_def on_store_def handle_def

text \<open>Invariants: a computation keeps \<open>I\<close> from every state, whatever its outcome.\<close>

definition keeps :: "('n \<Rightarrow> bool) \<Rightarrow> ('n, 'a) act \<Rightarrow> bool" where
  "keeps I a \<longleftrightarrow> (\<forall>n. I n \<longrightarrow> I (snd (a n)))"

lemma keeps_ret [intro!]: "keeps I (ret x)"
  and keeps_lift [intro!]: "keeps I (lift r)"
  and keeps_query [intro!]: "keeps I (query g)"
  by (simp_all add: keeps_def act_simps)

lemma keeps_seq [intro!]:
  assumes "keeps I a" "\<And>x. keeps I (f x)"
  shows "keeps I (seq a f)"
  unfolding keeps_def
proof (intro allI impI)
  fix n assume "I n"
  then have "I (snd (a n))" using assms(1) by (simp add: keeps_def)
  then show "I (snd (seq a f n))"
    using assms(2) by (auto simp: keeps_def seq_def split: prod.split sum.split)
qed

lemma keeps_handle [intro!]:
  assumes "keeps I a" "\<And>e. keeps I (h e)"
  shows "keeps I (handle a h)"
  unfolding keeps_def
proof (intro allI impI)
  fix n assume "I n"
  then have "I (snd (a n))" using assms(1) by (simp add: keeps_def)
  then show "I (snd (handle a h n))"
    using assms(2) by (auto simp: keeps_def handle_def split: prod.split sum.split)
qed

lemma keeps_update: "(\<And>n. I n \<Longrightarrow> I (f n)) \<Longrightarrow> keeps I (update f)"
  by (simp add: keeps_def act_simps)

lemma keeps_each [intro!]: "(\<And>x. x \<in> set xs \<Longrightarrow> keeps I (f x)) \<Longrightarrow> keeps I (each f xs)"
  by (induction xs) auto

lemma keeps_on_store:
  "(\<And>n x s. I n \<Longrightarrow> f (n_store n) = Inr (x, s) \<Longrightarrow> I (n\<lparr>n_store := s\<rparr>)) \<Longrightarrow> keeps I (on_store f)"
  by (auto simp: keeps_def on_store_def split: sum.split)

lemma keeps_if [intro!]: "(b \<Longrightarrow> keeps I x) \<Longrightarrow> (\<not> b \<Longrightarrow> keeps I y) \<Longrightarrow> keeps I (if b then x else y)"
  by simp

lemma keeps_or: "keeps I a \<Longrightarrow> keeps I' a \<Longrightarrow> keeps (\<lambda>n. I n \<or> I' n) a"
  by (auto simp: keeps_def)

text \<open>From \<open>P\<close> to \<open>Q\<close>, whatever the outcome.\<close>

definition leads :: "('n \<Rightarrow> bool) \<Rightarrow> ('n, 'a) act \<Rightarrow> ('n \<Rightarrow> bool) \<Rightarrow> bool" where
  "leads P a Q \<longleftrightarrow> (\<forall>n. P n \<longrightarrow> Q (snd (a n)))"

lemma leads_keeps: "keeps P a \<Longrightarrow> (\<And>n. P n \<Longrightarrow> Q n) \<Longrightarrow> leads P a Q"
  by (simp add: keeps_def leads_def)

lemma leads_seq:
  assumes "keeps P a" "\<And>x. leads P (f x) Q" "\<And>n. P n \<Longrightarrow> Q n"
  shows "leads P (seq a f) Q"
  unfolding leads_def
proof (intro allI impI)
  fix n assume "P n"
  then have "P (snd (a n))" using assms(1) by (simp add: keeps_def)
  then show "Q (snd (seq a f n))"
    using assms(2,3) by (auto simp: leads_def seq_def split: prod.split sum.split)
qed

lemma leads_seq_then:
  assumes "leads P a Q" "\<And>x. keeps Q (f x)"
  shows "leads P (seq a f) Q"
  unfolding leads_def
proof (intro allI impI)
  fix n assume "P n"
  then have "Q (snd (a n))" using assms(1) by (simp add: leads_def)
  then show "Q (snd (seq a f n))"
    using assms(2) by (auto simp: keeps_def seq_def split: prod.split sum.split)
qed

subsection \<open>One store behind three repositories\<close>

text \<open>
  The contracts of the three repositories over one store, each blind to what the others write.
\<close>

locale node_store =
  chain_repo R chain cinv timely + message_repo M msgs minv + peer_repo P known pinv
  for R :: "'s IChainRepo" and chain cinv timely and M :: "'s IMessageRepo" and msgs minv
    and P :: "'s IPeerRepo" and known pinv +
  assumes chain_frame: "insertBlock R b s = Inr (ok, s') \<Longrightarrow> minv s = minv s' \<and> pinv s = pinv s' \<and>
      msgs s' = msgs s \<and> known s' = known s"
    and insert_frame: "insertSecretMessage M m dump h s = Inr (ok, s') \<Longrightarrow>
      cinv s = cinv s' \<and> pinv s = pinv s' \<and> chain s' = chain s \<and> known s' = known s"
    and remove_frame: "removeMessageByBlockHash M h s = Inr (ok, s') \<Longrightarrow>
      cinv s = cinv s' \<and> pinv s = pinv s' \<and> chain s' = chain s \<and> known s' = known s"
    and remove_id_frame: "removeMessageById M i s = Inr (ok, s') \<Longrightarrow>
      cinv s = cinv s' \<and> pinv s = pinv s' \<and> chain s' = chain s \<and> known s' = known s"
    and add_frame: "repoAddPeer P p s = Inr s' \<Longrightarrow>
      cinv s = cinv s' \<and> minv s = minv s' \<and> chain s' = chain s \<and> msgs s' = msgs s"

subsection \<open>The three SQLite repositories share one database\<close>

text \<open>Each statement that writes touches one table.\<close>

lemma frame_db:
  assumes "DBFile_executePrepared Q sql ps d = Inr (ok, d')"
    and "\<And>qs t ok' t'. sql qs t = Some (ok', t') \<Longrightarrow> \<exists>m. t' = upd m t"
    and "\<exists>m. db_data d = upd m (db_data d)"
  shows "\<exists>m. d' = d\<lparr>db_data := upd m (db_data d)\<rparr>"
  using executePrepared_Inr [OF assms(1)] assms(2,3) by (metis dbfile.surjective dbfile.update_convs(4))

lemma tables_same:
  "\<exists>m. t = t\<lparr>blocks_t := m\<rparr>" "\<exists>m. t = t\<lparr>messages_t := m\<rparr>" "\<exists>m. t = t\<lparr>peers_t := m\<rparr>"
  by (cases t, force)+

lemma sql_writes:
  "sql_insert_block Q qs t = Some (ok, t') \<Longrightarrow> \<exists>m. t' = t\<lparr>blocks_t := m\<rparr>"
  "sql_insert_message Q qs t = Some (ok, t') \<Longrightarrow> \<exists>m. t' = t\<lparr>messages_t := m\<rparr>"
  "sql_delete_messages P t = Some (ok, t') \<Longrightarrow> \<exists>m. t' = t\<lparr>messages_t := m\<rparr>"
  "sql_insert_peer Q qs t = Some (ok, t') \<Longrightarrow> \<exists>m. t' = t\<lparr>peers_t := m\<rparr>"
  using tables_same [of t]
  by (auto simp: sql_insert_block_def sql_insert_message_def sql_delete_messages_def
      sql_insert_peer_def split: if_splits)

lemma chain_frame_db:
  assumes "ChainDB_insertBlock Q b d = Inr (ok, d')"
  shows "\<exists>t. d' = d\<lparr>db_data := (db_data d)\<lparr>blocks_t := t\<rparr>\<rparr>"
proof -
  have "d' = d \<or> (\<exists>ps. DBFile_executePrepared Q (sql_insert_block Q) ps d = Inr (ok, d'))"
    using assms by (auto simp: ChainDB_insertBlock_def split: if_splits)
  then show ?thesis
  proof (elim disjE exE)
    assume "d' = d"
    then show ?thesis
      using tables_same(1) [of "db_data d"] by (metis dbfile.surjective dbfile.update_convs(4))
  next
    fix ps assume "DBFile_executePrepared Q (sql_insert_block Q) ps d = Inr (ok, d')"
    from frame_db [OF this, of "\<lambda>m t. t\<lparr>blocks_t := m\<rparr>"] sql_writes(1) tables_same(1)
    show ?thesis by blast
  qed
qed

lemma message_frame_db:
  assumes "DBFile_executePrepared Q sql ps d = Inr (ok, d')"
    and "\<And>qs t ok' t'. sql qs t = Some (ok', t') \<Longrightarrow> \<exists>m. t' = t\<lparr>messages_t := m\<rparr>"
  shows "\<exists>t. d' = d\<lparr>db_data := (db_data d)\<lparr>messages_t := t\<rparr>\<rparr>"
  using frame_db [OF assms(1), of "\<lambda>m t. t\<lparr>messages_t := m\<rparr>"] assms(2) tables_same(2) by blast

lemma peer_frame_db:
  assumes "PeerDB_addPeer Q p d = Inr d'"
  shows "\<exists>t. d' = d\<lparr>db_data := (db_data d)\<lparr>peers_t := t\<rparr>\<rparr>"
proof -
  have "d' = d \<or> (\<exists>ps ok. DBFile_executePrepared Q (sql_insert_peer Q) ps d = Inr (ok, d'))"
    using assms by (auto simp: PeerDB_addPeer_def split: if_splits)
  then show ?thesis
  proof (elim disjE exE)
    assume "d' = d"
    then show ?thesis
      using tables_same(3) [of "db_data d"] by (metis dbfile.surjective dbfile.update_convs(4))
  next
    fix ps ok assume "DBFile_executePrepared Q (sql_insert_peer Q) ps d = Inr (ok, d')"
    from frame_db [OF this, of "\<lambda>m t. t\<lparr>peers_t := m\<rparr>"] sql_writes(4) tables_same(3)
    show ?thesis by blast
  qed
qed

lemmas db_view_defs = message_db_inv_def db_messages_def message_rows_def chain_db_inv_def
  db_chain_def block_rows_def peer_db_inv_def db_peers_def peer_rows_def

lemma db_views [simp]:
  fixes d :: db
  defines "B \<equiv> \<lambda>t. d\<lparr>db_data := (db_data d)\<lparr>blocks_t := t\<rparr>\<rparr>"
    and "M \<equiv> \<lambda>t. d\<lparr>db_data := (db_data d)\<lparr>messages_t := t\<rparr>\<rparr>"
    and "P \<equiv> \<lambda>t. d\<lparr>db_data := (db_data d)\<lparr>peers_t := t\<rparr>\<rparr>"
  shows "message_db_inv (B t) = message_db_inv d" "db_messages (B t) = db_messages d"
    "peer_db_inv Q (B t) = peer_db_inv Q d" "db_peers (B t) = db_peers d"
    "chain_db_inv Q (M m) = chain_db_inv Q d" "db_chain (M m) = db_chain d"
    "peer_db_inv Q (M m) = peer_db_inv Q d" "db_peers (M m) = db_peers d"
    "chain_db_inv Q (P p) = chain_db_inv Q d" "db_chain (P p) = db_chain d"
    "message_db_inv (P p) = message_db_inv d" "db_messages (P p) = db_messages d"
  by (simp_all add: B_def M_def P_def db_view_defs)

interpretation nst: node_store "ChainDB Q" db_chain "chain_db_inv Q" "db_timely Q"
  "MessageDB J C cfg srt Q" db_messages message_db_inv "PeerDB Q" db_peers "peer_db_inv Q"
  for Q J C cfg srt
proof unfold_locales
  show "message_db_inv s = message_db_inv s' \<and> peer_db_inv Q s = peer_db_inv Q s' \<and>
      db_messages s' = db_messages s \<and> db_peers s' = db_peers s"
    if "insertBlock (ChainDB Q) b s = Inr (ok, s')" for b s ok s'
    using that chain_frame_db [of Q b s ok s'] by (auto simp: ChainDB_def)
  show "chain_db_inv Q s = chain_db_inv Q s' \<and> peer_db_inv Q s = peer_db_inv Q s' \<and>
      db_chain s' = db_chain s \<and> db_peers s' = db_peers s"
    if "insertSecretMessage (MessageDB J C cfg srt Q) m dump h s = Inr (ok, s')" for m dump h s ok s'
    using that by (auto simp: MessageDB_def MessageDB_insertSecretMessage_def
        dest!: message_frame_db [OF _ sql_writes(2)])
  show "chain_db_inv Q s = chain_db_inv Q s' \<and> peer_db_inv Q s = peer_db_inv Q s' \<and>
      db_chain s' = db_chain s \<and> db_peers s' = db_peers s"
    if "removeMessageByBlockHash (MessageDB J C cfg srt Q) h s = Inr (ok, s')" for h s ok s'
    using that by (auto simp: MessageDB_def MessageDB_removeMessageByBlockHash_def
        dest!: message_frame_db [OF _ sql_writes(3)])
  show "chain_db_inv Q s = chain_db_inv Q s' \<and> peer_db_inv Q s = peer_db_inv Q s' \<and>
      db_chain s' = db_chain s \<and> db_peers s' = db_peers s"
    if "removeMessageById (MessageDB J C cfg srt Q) i s = Inr (ok, s')" for i s ok s'
    using that by (auto simp: MessageDB_def MessageDB_removeMessageById_def
        dest!: message_frame_db [OF _ sql_writes(3)])
  show "chain_db_inv Q s = chain_db_inv Q s' \<and> message_db_inv s = message_db_inv s' \<and>
      db_chain s' = db_chain s \<and> db_messages s' = db_messages s"
    if "repoAddPeer (PeerDB Q) p s = Inr s'" for p s s'
    using that peer_frame_db [of Q p s s'] by (auto simp: PeerDB_def)
qed

end
