(* ===== verification/DC_Util.thy ===== *)
theory DC_Util
  imports DC_Hex "HOL-Library.Signed_Division"
begin

text \<open>
  \<open>utils::uuidv4\<close> (src/utils/uuid.hpp) and \<open>utils::timestampToString\<close> (src/utils/timestamp.hpp). The
  random engine and the local time zone are the standard library's: a draw is a function on the state
  of the engine, and \<open>std::localtime\<close> is a parameter that may give a null pointer.
\<close>

subsection \<open>Identifiers\<close>

type_synonym 'g draw = "'g \<Rightarrow> nat \<times> 'g"

text \<open>\<open>for (i = 0; i < n; i++) ss << dis(gen)\<close>, with \<open>std::hex\<close> set; a draw is below 16.\<close>

fun hex_draws :: "'g draw \<Rightarrow> nat \<Rightarrow> 'g \<Rightarrow> string \<times> 'g" where
  "hex_draws dis 0 g = ('''', g)"
| "hex_draws dis (Suc n) g =
     (let (v, g) = dis g; (s, g) = hex_draws dis n g in (digit_char v # s, g))"

definition uuidv4 :: "'g draw \<Rightarrow> 'g draw \<Rightarrow> 'g \<Rightarrow> string \<times> 'g" where
  "uuidv4 dis dis2 g =
     (let (a, g) = hex_draws dis 8 g;
          (b, g) = hex_draws dis 4 g;
          (c, g) = hex_draws dis 3 g;
          (v, g) = hex_draws dis2 1 g;
          (d, g) = hex_draws dis 3 g;
          (e, g) = hex_draws dis 12 g
      in (a @ ''-'' @ b @ ''-4'' @ c @ ''-'' @ v @ d @ ''-'' @ e, g))"

text \<open>\<open>uniform_int_distribution<> dis(0, 15)\<close> and \<open>dis2(8, 11)\<close>.\<close>

definition draws_in :: "nat \<Rightarrow> nat \<Rightarrow> 'g draw \<Rightarrow> bool" where
  "draws_in lo hi d \<longleftrightarrow> (\<forall>g. lo \<le> fst (d g) \<and> fst (d g) \<le> hi)"

text \<open>The \<open>n\<close> values drawn from a state, and the state after them.\<close>

fun drawn :: "'g draw \<Rightarrow> nat \<Rightarrow> 'g \<Rightarrow> nat list \<times> 'g" where
  "drawn d 0 g = ([], g)"
| "drawn d (Suc n) g = (let (v, g) = d g; (vs, g) = drawn d n g in (v # vs, g))"

lemma hex_draws_drawn: "hex_draws d n g = (map digit_char (fst (drawn d n g)), snd (drawn d n g))"
  by (induction n arbitrary: g) (simp_all add: Let_def split: prod.split)

lemma drawn_in: "draws_in lo hi d \<Longrightarrow> list_all (\<lambda>v. lo \<le> v \<and> v \<le> hi) (fst (drawn d n g))"
  by (induction n arbitrary: g) (auto simp: Let_def draws_in_def split: prod.split, (metis fst_conv)+)

lemma length_drawn [simp]: "length (fst (drawn d n g)) = n"
  by (induction n arbitrary: g) (simp_all add: Let_def case_prod_beta)

text \<open>The 31 values behind an identifier.\<close>

definition uuid_values :: "'g draw \<Rightarrow> 'g draw \<Rightarrow> 'g \<Rightarrow> nat list" where
  "uuid_values dis dis2 g =
     (let (a, g) = drawn dis 15 g; (v, g) = drawn dis2 1 g; (b, g) = drawn dis 15 g in a @ v @ b)"

definition uuid_text :: "nat list \<Rightarrow> string" where
  "uuid_text vs = (let s = map digit_char vs in
     take 8 s @ ''-'' @ take 4 (drop 8 s) @ ''-4'' @ take 3 (drop 12 s) @ ''-'' @ take 4 (drop 15 s) @ ''-'' @ drop 19 s)"

lemma drawn_add:
  "drawn d (m + n) g = (fst (drawn d m g) @ fst (drawn d n (snd (drawn d m g))), snd (drawn d n (snd (drawn d m g))))"
  by (induction m arbitrary: g) (simp_all add: Let_def case_prod_beta)

lemma uuidv4_text: "fst (uuidv4 dis dis2 g) = uuid_text (uuid_values dis dis2 g)"
proof -
  have a: "drawn dis 15 g = (let (a, g) = drawn dis 8 g; (b, g) = drawn dis 4 g; (c, g) = drawn dis 3 g in (a @ b @ c, g))"
    for g
    using drawn_add [of dis 8 "4 + 3" g] drawn_add [of dis 4 3 "snd (drawn dis 8 g)"]
    by (simp add: Let_def case_prod_beta)
  have b: "drawn dis 15 g = (let (d, g) = drawn dis 3 g; (e, g) = drawn dis 12 g in (d @ e, g))" for g
    using drawn_add [of dis 3 12 g] by (simp add: Let_def case_prod_beta)
  let ?A = "drawn dis 8 g" let ?B = "drawn dis 4 (snd ?A)" let ?C = "drawn dis 3 (snd ?B)"
  let ?V = "drawn dis2 1 (snd ?C)" let ?D = "drawn dis 3 (snd ?V)" let ?E = "drawn dis 12 (snd ?D)"
  have v: "uuid_values dis dis2 g = (fst ?A @ fst ?B @ fst ?C) @ fst ?V @ (fst ?D @ fst ?E)"
    using a [of g] b [of "snd ?V"] by (simp add: uuid_values_def Let_def case_prod_beta)
  have l: "length (fst ?A) = 8" "length (fst ?B) = 4" "length (fst ?C) = 3" "length (fst ?V) = 1" "length (fst ?D) = 3"
    by (rule length_drawn)+
  show ?thesis
    unfolding v uuid_text_def Let_def using l
    by (simp add: uuidv4_def hex_draws_drawn Let_def case_prod_beta del: drawn.simps)
qed

lemma digit_char_inj: "a < 16 \<Longrightarrow> b < 16 \<Longrightarrow> digit_char a = digit_char b \<Longrightarrow> a = b"
  by (metis digit_val_char option.inject)

lemma uuid_text_inj:
  assumes "length vs = 31" "length ws = 31" "list_all (\<lambda>v. v < 16) vs" "list_all (\<lambda>v. v < 16) ws"
    and "uuid_text vs = uuid_text ws"
  shows "vs = ws"
proof -
  let ?s = "map digit_char vs" and ?t = "map digit_char ws"
  have parts: "s = take 8 s @ take 4 (drop 8 s) @ take 3 (drop 12 s) @ take 4 (drop 15 s) @ drop 19 s" for s :: string
  proof -
    have d: "drop 12 s = drop 4 (drop 8 s)" "drop 15 s = drop 3 (drop 12 s)" "drop 19 s = drop 4 (drop 15 s)"
      by simp_all
    show ?thesis by (simp only: d append_take_drop_id)
  qed
  have "take 8 ?s = take 8 ?t \<and> take 4 (drop 8 ?s) = take 4 (drop 8 ?t) \<and> take 3 (drop 12 ?s) = take 3 (drop 12 ?t) \<and>
      take 4 (drop 15 ?s) = take 4 (drop 15 ?t) \<and> drop 19 ?s = drop 19 ?t"
    using assms(1,2,5) by (simp add: uuid_text_def Let_def)
  then have "?s = ?t" using parts [of ?s] parts [of ?t] by metis
  moreover have "inj_on digit_char (set vs \<union> set ws)"
    using assms(3,4) digit_char_inj by (auto simp: inj_on_def list_all_iff)
  ultimately show ?thesis using inj_on_map_eq_map [of digit_char vs ws] by blast
qed

lemma uuid_values_props:
  assumes "draws_in 0 15 dis" "draws_in 8 11 dis2"
  shows "length (uuid_values dis dis2 g) = 31" "list_all (\<lambda>v. v < 16) (uuid_values dis dis2 g)"
    "8 \<le> uuid_values dis dis2 g ! 15 \<and> uuid_values dis dis2 g ! 15 \<le> 11"
proof -
  let ?a = "drawn dis 15 g" let ?v = "drawn dis2 1 (snd ?a)" let ?b = "drawn dis 15 (snd ?v)"
  have v: "uuid_values dis dis2 g = fst ?a @ fst ?v @ fst ?b" by (simp add: uuid_values_def Let_def case_prod_beta)
  have l: "length (fst ?a) = 15" "length (fst ?v) = 1" "length (fst ?b) = 15" by (rule length_drawn)+
  show "length (uuid_values dis dis2 g) = 31" using l by (simp add: v)
  have r: "list_all (\<lambda>v. 0 \<le> v \<and> v \<le> 15) (fst ?a)" "list_all (\<lambda>v. 8 \<le> v \<and> v \<le> 11) (fst ?v)"
    "list_all (\<lambda>v. 0 \<le> v \<and> v \<le> 15) (fst ?b)"
    by (rule drawn_in [OF assms(1)], rule drawn_in [OF assms(2)], rule drawn_in [OF assms(1)])
  then show "list_all (\<lambda>v. v < 16) (uuid_values dis dis2 g)" by (fastforce simp: v list_all_iff)
  have "uuid_values dis dis2 g ! 15 = fst ?v ! 0" using l by (simp add: v nth_append)
  then show "8 \<le> uuid_values dis dis2 g ! 15 \<and> uuid_values dis dis2 g ! 15 \<le> 11"
    using r(2) l(2) by (auto simp: list_all_length)
qed

lemma uuid_text_nth:
  assumes "length vs = 31"
  shows "length (uuid_text vs) = 36" "uuid_text vs ! 14 = CHR ''4''" "uuid_text vs ! 19 = digit_char (vs ! 15)"
    "i \<in> {8, 13, 18, 23} \<Longrightarrow> uuid_text vs ! i = CHR ''-''"
    "c \<in> set (uuid_text vs) \<Longrightarrow> c = CHR ''-'' \<or> c = CHR ''4'' \<or> (\<exists>v \<in> set vs. c = digit_char v)"
proof -
  show "length (uuid_text vs) = 36" "uuid_text vs ! 14 = CHR ''4''"
    using assms by (simp_all add: uuid_text_def Let_def nth_append)
  show "uuid_text vs ! 19 = digit_char (vs ! 15)"
    using assms by (simp add: uuid_text_def Let_def nth_append)
  show "uuid_text vs ! i = CHR ''-''" if "i \<in> {8, 13, 18, 23}"
    using that assms by (auto simp: uuid_text_def Let_def nth_append)
  show "c = CHR ''-'' \<or> c = CHR ''4'' \<or> (\<exists>v \<in> set vs. c = digit_char v)" if "c \<in> set (uuid_text vs)"
  proof -
    obtain s where s: "s = map digit_char vs" by simp
    then have "c = CHR ''-'' \<or> c = CHR ''4'' \<or> c \<in> set s"
      using that unfolding uuid_text_def Let_def s [symmetric] by (auto dest: in_set_takeD in_set_dropD)
    then show ?thesis using s by auto
  qed
qed

subsection \<open>Times\<close>

text \<open>\<open>std::tm\<close>.\<close>

record tm =
  tm_year :: int        \<comment> \<open>years since 1900\<close>
  tm_mon :: nat         \<comment> \<open>months since January\<close>
  tm_mday :: nat
  tm_hour :: nat
  tm_min :: nat
  tm_sec :: nat

text \<open>
  What the platform gives: the ticks of \<open>std::chrono::system_clock\<close> per millisecond and
  \<open>std::localtime\<close>, \<open>None\<close> for a null pointer.
\<close>

record local_clock =
  lc_ticks :: int
  lc_localtime :: "int \<Rightarrow> tm option"

definition two_digits :: "nat \<Rightarrow> string" where
  "two_digits n = [digit_char (n div 10), digit_char (n mod 10)]"

text \<open>\<open>strftime\<close> with \<open>%Y-%m-%d %H:%M:%S\<close>, for a year from 1000 on.\<close>

definition strftime :: "tm \<Rightarrow> string" where
  "strftime t = to_string (nat (tm_year t + 1900)) @ ''-'' @ two_digits (tm_mon t + 1) @ ''-'' @
     two_digits (tm_mday t) @ '' '' @ two_digits (tm_hour t) @ '':'' @ two_digits (tm_min t) @ '':'' @
     two_digits (tm_sec t)"

text \<open>
  The timestamp becomes a signed 64-bit number of milliseconds and then of ticks; that product may
  overflow, and the pointer \<open>localTime\<close> is used as it comes: both are undefined behaviour.
\<close>

definition timestampToString :: "local_clock \<Rightarrow> u64 \<Rightarrow> string res" where
  "timestampToString clk ts =
     (let ticks = sint ts * lc_ticks clk in
      if ticks < - (2 ^ 63) \<or> ticks \<ge> 2 ^ 63 then Inl Undefined
      else
        let time = ticks sdiv (lc_ticks clk * 1000) in
        case lc_localtime clk time of
          None \<Rightarrow> Inl Undefined
        | Some localTime \<Rightarrow> Inr (strftime localTime))"

text \<open>With a clock of nanoseconds the product overflows for every time after the year 2262.\<close>

lemma far_time:
  assumes "lc_ticks clk = 1000000" "9223372036855 \<le> uint ts" "uint ts < 2 ^ 63"
  shows "timestampToString clk ts = Inl Undefined"
proof -
  have "sint ts = signed_take_bit (LENGTH(64) - Suc 0) (uint ts)" by (rule sint_uint)
  also have "\<dots> = uint ts" by (rule signed_take_bit_int_eq_self) (use assms(2,3) in simp_all)
  finally have "sint ts = uint ts" .
  with assms show ?thesis by (simp add: timestampToString_def Let_def)
qed

end
