(* ===== verification/DC_ChatService.thy ===== *)
theory DC_ChatService
  imports DC_Node DC_Util
begin

text \<open>
  \<open>chat::ChatService\<close> (src/domain/chat/ChatService.cpp): one computation per handler and the two
  dispatchers. An incoming handler yields the text of its \<open>response\<close> out-parameter; the fresh
  identifier and the clock of the response it creates are \<open>uuid\<close> and \<open>now\<close>. The lines a handler
  prints are left out, but for the time of a text: turning it into a local one may be undefined.
\<close>

subsection \<open>The two halves of an error\<close>

text \<open>\<open>j["..."]\<close> on a non-const value: it makes an object out of null and throws on anything else.\<close>

definition json_index :: "('j, 'x) json_lib_scheme \<Rightarrow> 'j \<Rightarrow> string \<Rightarrow> 'j res" where
  "json_index J j k =
     (if objlike J j then Inr (json_ref J j k) else Inl (Json_Exc ''type_error.305''))"

definition invalid_request :: string where
  \<open>invalid_request = ''{"type":"ERROR_RESPONSE","error":"Invalid request"}''\<close>

definition invalid_type :: string where
  \<open>invalid_type = ''{"type":"ERROR_RESPONSE","error":"Invalid message type"}''\<close>

definition invalid_format :: string where
  \<open>invalid_format = ''{"type":"ERROR_RESPONSE","error":"Invalid data format"}''\<close>

definition handleIncomingErrorMessage ::
  "('s, 'j) env \<Rightarrow> string \<Rightarrow> u64 \<Rightarrow> 'j \<Rightarrow> string \<Rightarrow> string res" where
  "handleIncomingErrorMessage E uuid now jData error =
     (let J = e_json E in
      if json_contains J jData ''from'' then
        bnd (json_at J jData ''from'') (\<lambda>jFrom.
        if json_contains J jFrom ''host'' \<and> json_contains J jFrom ''port'' \<and>
           json_contains J jFrom ''public_key''
        then bnd (local_peer (e_cfg E)) (\<lambda>me.
             bnd (UserPeer_of_json J jFrom) (\<lambda>to.
               json_dump J (ErrorMessageResponse_serialize J
                 (ErrorMessageResponse_create uuid now me to error))))
        else Inr invalid_request)
      else Inr invalid_request)"

definition handleOutgoingBlockchainErrorMessage ::
  "('s, 'j) env \<Rightarrow> blockchain_error \<Rightarrow> ('s node, unit) act" where
  "handleOutgoingBlockchainErrorMessage E m =
     seq (on_store (removeMessageByBlockHashOrId (e_msgs E) (be_blockHash m) (be_messageId m)))
       (\<lambda>_. ret ())"

definition handleOutgoingErrorMessage :: "error_response \<Rightarrow> ('s node, unit) act" where
  "handleOutgoingErrorMessage m = ret ()"

subsection \<open>Connecting\<close>

definition me_at :: "('s, 'j) env \<Rightarrow> user_peer \<Rightarrow> user_peer res" where
  "me_at E to = bnd (config_get (e_cfg E) PUBLIC_KEY) (\<lambda>k. Inr (UserPeer (host to) (port to) k))"

definition handleIncomingConnectionMessage ::
  "('s, 'j) env \<Rightarrow> string \<Rightarrow> u64 \<Rightarrow> connection_message \<Rightarrow> ('s node, string) act" where
  "handleIncomingConnectionMessage E uuid now m =
     seq (update (\<lambda>n. n\<lparr>n_peers := addPeer (m_from m) (n_peers n)\<rparr>)) (\<lambda>_.
     seq (lift (me_at E (m_to m))) (\<lambda>me.
     seq (query (\<lambda>n. Inr (getPeersCount (n_peers n)))) (\<lambda>peersToReceive.
     seq (query (\<lambda>n. Service_countBlocksAfterHash (e_chain E) (lastBlockHash m) (n_store n)))
       (\<lambda>missingCount.
       lift (json_dump (e_json E) (ConnectionMessageResponse_serialize (e_json E)
         (ConnectionMessageResponse_create uuid now me (m_from m) peersToReceive missingCount)))))))"

definition handleOutgoingConnectionMessage :: "connection_response \<Rightarrow> ('s node, unit) act" where
  "handleOutgoingConnectionMessage m =
     update (\<lambda>n. n\<lparr>n_peers := addPeer (m_from m) (n_peers n),
       n_global := setMissingBlocksCount (missingBlocksCount m)
         (setPeersToReceive (peersToReceive m) (n_global n))\<rparr>)"

subsection \<open>Texts\<close>

definition handleIncomingTextMessage ::
  "('s, 'j) env \<Rightarrow> local_clock \<Rightarrow> string \<Rightarrow> u64 \<Rightarrow> text_message \<Rightarrow> string \<Rightarrow> ('s node, string) act" where
  "handleIncomingTextMessage E clk uuid now m messageDump =
     seq (on_store (Service_insertSecretMessage (e_msgs E) m messageDump (m_blockHash m))) (\<lambda>_.
     seq (on_store (\<lambda>s. bnd (addChatPeer (e_peers E) (m_from m) s) (\<lambda>s'. Inr ((), s')))) (\<lambda>_.
     seq (lift (timestampToString clk (m_timestamp m))) (\<lambda>formattedTime.
     seq (lift (me_at E (m_to m))) (\<lambda>me.
       lift (json_dump (e_json E) (TextMessageResponse_serialize (e_json E)
         (TextMessageResponse_create uuid now me (m_from m))))))))"

definition handleOutgoingTextMessage :: "message \<Rightarrow> ('s node, unit) act" where
  "handleOutgoingTextMessage m = ret ()"

subsection \<open>Peer lists\<close>

text \<open>The loop from index \<open>i\<close> up to \<open>bound\<close>; \<open>getPeer\<close> past the end of the list breaks it.\<close>

function peer_list_loop :: "peer_service \<Rightarrow> user_peer \<Rightarrow> nat \<Rightarrow> nat \<Rightarrow> user_peer list" where
  "peer_list_loop ps from bound i =
     (if i < bound then
        (case getPeer i ps of
           Inl _ \<Rightarrow> []
         | Inr p \<Rightarrow>
             if p = from then peer_list_loop ps from bound (Suc i)
             else p # peer_list_loop ps from bound (Suc i))
      else [])"
  by pat_completeness auto
termination by (relation "measure (\<lambda>(_, _, bound, i). bound - i)") auto

declare peer_list_loop.simps [simp del]

text \<open>\<open>payload.start + payload.count\<close> is an addition of 32-bit integers.\<close>

definition handleIncomingPeerListMessage ::
  "('s, 'j) env \<Rightarrow> string \<Rightarrow> u64 \<Rightarrow> peer_list_message \<Rightarrow> ('s node, string) act" where
  "handleIncomingPeerListMessage E uuid now m =
     seq (query (\<lambda>n. Inr (peer_list_loop (n_peers n) (m_from m)
            (unat (pl_start m + pl_count m)) (unat (pl_start m))))) (\<lambda>ps.
       lift (json_dump (e_json E) (PeerListMessageResponse_serialize (e_json E)
         (PeerListMessageResponse_create uuid now (m_to m) (m_from m) ps))))"

definition handleOutgoingPeerListMessage :: "peer_list_response \<Rightarrow> ('s node, unit) act" where
  "handleOutgoingPeerListMessage m =
     each (\<lambda>p. update (\<lambda>n. n\<lparr>n_peers := addPeer p (n_peers n)\<rparr>)) (pl_peers m)"

subsection \<open>Disconnecting\<close>

definition handleIncomingDisconnectionMessage ::
  "('s, 'j) env \<Rightarrow> string \<Rightarrow> u64 \<Rightarrow> message \<Rightarrow> ('s node, string) act" where
  "handleIncomingDisconnectionMessage E uuid now m =
     seq (update (\<lambda>n. n\<lparr>n_peers := removePeer (m_from m) (n_peers n)\<rparr>)) (\<lambda>_.
       lift (json_dump (e_json E) (DisconnectionMessageResponse_serialize (e_json E)
         (DisconnectionMessageResponse_create uuid now (m_to m) (m_from m)))))"

definition handleOutgoingDisconnectionMessage :: "message \<Rightarrow> ('s node, unit) act" where
  "handleOutgoingDisconnectionMessage m = ret ()"

subsection \<open>Ranges of blocks\<close>

definition handleIncomingBlockRangeMessage ::
  "('s, 'j) env \<Rightarrow> string \<Rightarrow> u64 \<Rightarrow> block_range_message \<Rightarrow> ('s node, string) act" where
  "handleIncomingBlockRangeMessage E uuid now m =
     seq (query (\<lambda>n. Service_getBlocksByIndexRange (e_chain E) (rg_start m) (rg_count m)
            (rg_lastHash m) (n_store n) [])) (\<lambda>bs.
       lift (json_dump (e_json E) (BlockRangeMessageResponse_serialize (e_json E)
         (BlockRangeMessageResponse_create uuid now (m_to m) (m_from m) bs))))"

definition handleOutgoingBlockRangeMessage :: "block_range_response \<Rightarrow> ('s node, unit) act" where
  "handleOutgoingBlockRangeMessage m =
     update (\<lambda>n. n\<lparr>n_newBlocks := addNewBlockRange (rg_blocks m) (n_newBlocks n)\<rparr>)"

subsection \<open>Dispatch\<close>

definition of_type :: "('s, 'j) env \<Rightarrow> 'j \<Rightarrow> MessageType \<Rightarrow> bool" where
  "of_type E t k = json_eq_string (e_json E) t (fromMessageTypeToString k)"

definition dispatch_incoming ::
  "('s, 'j) env \<Rightarrow> local_clock \<Rightarrow> string \<Rightarrow> u64 \<Rightarrow> 'j \<Rightarrow> string \<Rightarrow> ('s node, string) act" where
  "dispatch_incoming E clk uuid now jMessage response =
     (let J = e_json E in
      seq (lift (json_at J jMessage ''type'')) (\<lambda>t.
        if of_type E t CONNECT then
          seq (lift (ConnectionMessage_of_json J jMessage)) (handleIncomingConnectionMessage E uuid now)
        else if of_type E t TEXT_MESSAGE then
          seq (lift (config_get (e_cfg E) PRIVATE_KEY)) (\<lambda>k.
          seq (lift (TextMessage_of_json J (e_crypto E) jMessage k False False)) (\<lambda>m.
          seq (lift (json_dump J jMessage)) (handleIncomingTextMessage E clk uuid now m)))
        else if of_type E t PEER_LIST then
          seq (lift (PeerListMessage_of_json J jMessage)) (handleIncomingPeerListMessage E uuid now)
        else if of_type E t BLOCK_RANGE_REQUEST then
          seq (lift (BlockRangeMessage_of_json J jMessage)) (handleIncomingBlockRangeMessage E uuid now)
        else if of_type E t DISCONNECT then
          seq (lift (DisconnectionMessage_of_json J jMessage))
            (handleIncomingDisconnectionMessage E uuid now)
        else if of_type E t BLOCKCHAIN_ERROR_RESPONSE then
          seq (lift (BlockchainErrorMessageResponse_of_json J jMessage)) (\<lambda>m.
          seq (handleOutgoingBlockchainErrorMessage E m) (\<lambda>_. ret response))
        else ret invalid_type))"

text \<open>
  The handlers of the \<open>try\<close> block: \<open>json::exception\<close> first, then \<open>std::exception\<close>, whose handler may
  throw in turn.
\<close>

definition handleIncomingMessage ::
  "('s, 'j) env \<Rightarrow> local_clock \<Rightarrow> string \<Rightarrow> u64 \<Rightarrow> 'j \<Rightarrow> string \<Rightarrow> ('s node, string) act" where
  "handleIncomingMessage E clk uuid now jMessage response =
     handle (dispatch_incoming E clk uuid now jMessage response) (\<lambda>e.
       case e of
         Json_Exc _ \<Rightarrow> ret invalid_format
       | _ \<Rightarrow> lift (handleIncomingErrorMessage E uuid now jMessage (what e)))"

text \<open>
  The client half. The chain of \<open>if\<close>s starts anew at the second and the third test; the types exclude
  one another.
\<close>

definition dispatch_outgoing :: "('s, 'j) env \<Rightarrow> string \<Rightarrow> ('s node, unit) act" where
  "dispatch_outgoing E response =
     (let J = e_json E in
      seq (lift (json_parse J response)) (\<lambda>jData.
      seq (lift (json_index J jData ''type'')) (\<lambda>t.
      seq (if of_type E t ERROR_RESPONSE
           then seq (lift (ErrorMessageResponse_of_json J jData)) handleOutgoingErrorMessage
           else ret ()) (\<lambda>_.
      seq (if of_type E t BLOCKCHAIN_ERROR_RESPONSE
           then seq (lift (BlockchainErrorMessageResponse_of_json J jData))
                  (handleOutgoingBlockchainErrorMessage E)
           else ret ()) (\<lambda>_.
        if of_type E t CONNECT_RESPONSE then
          seq (lift (ConnectionMessageResponse_of_json J jData)) handleOutgoingConnectionMessage
        else if of_type E t TEXT_MESSAGE_RESPONSE then
          seq (lift (TextMessageResponse_of_json J jData)) handleOutgoingTextMessage
        else if of_type E t PEER_LIST_RESPONSE then
          seq (lift (PeerListMessageResponse_of_json J jData)) handleOutgoingPeerListMessage
        else if of_type E t BLOCK_RANGE_RESPONSE then
          seq (lift (BlockRangeMessageResponse_of_json J jData)) handleOutgoingBlockRangeMessage
        else if of_type E t DISCONNECT_RESPONSE then
          seq (lift (DisconnectionMessageResponse_of_json J jData)) handleOutgoingDisconnectionMessage
        else ret ())))))"

definition handleOutgoingMessage :: "('s, 'j) env \<Rightarrow> string \<Rightarrow> ('s node, unit) act" where
  "handleOutgoingMessage E response = handle (dispatch_outgoing E response) (\<lambda>_. ret ())"

end
