(* ===== verification/DC_Network.thy ===== *)
theory DC_Network
  imports DC_ChatService
begin

text \<open>
  The two ends of a connection: \<open>network::TCPServer\<close> (src/infra/network/TCPServer.cpp),
  \<open>network::TCPClient\<close> (src/infra/network/TCPClient.cpp) and what the sockets under them do to a text
  (src/service/network/SocketServer.cpp, SocketClient.cpp). The operating system's sockets are the
  parameter \<open>net\<close>: what comes back for a text sent to a peer, \<open>None\<close> if it cannot be sent.
\<close>

definition BUFFER_SIZE :: nat where
  "BUFFER_SIZE = 32768"

text \<open>
  One \<open>recv\<close> into a buffer of which the last byte is kept for a NUL: \<open>k\<close> of the bytes sent have
  arrived. The server passes the bytes on with their number; the client makes a C string of them.
\<close>

definition server_recv :: "nat \<Rightarrow> string \<Rightarrow> string option" where
  "server_recv k sent =
     (let buffer = take (min k (BUFFER_SIZE - 1)) sent in if buffer = [] then None else Some buffer)"

definition receiveMessage :: "nat \<Rightarrow> string \<Rightarrow> string" where
  "receiveMessage k sent = c_str (take (min k (BUFFER_SIZE - 1)) sent)"

subsection \<open>TCPServer\<close>

text \<open>What one request needs from outside: fresh identifiers, the clock and the local time.\<close>

record request_env =
  rq_now :: u64       \<comment> \<open>\<open>getTimestamp()\<close> during validation\<close>
  rq_uuid :: string
  rq_ts :: u64        \<comment> \<open>\<open>getTimestamp()\<close> of the response\<close>
  rq_clk :: local_clock

definition is_block_json :: "('j, 'x) json_lib_scheme \<Rightarrow> 'j \<Rightarrow> bool" where
  "is_block_json J j \<longleftrightarrow> json_contains J j ''previousHash'' \<and> json_contains J j ''payloadHash''"

definition serve :: "('s, 'j) env \<Rightarrow> request_env \<Rightarrow> string \<Rightarrow> ('s node, string) act" where
  "serve E q message =
     seq (lift (json_parse (e_json E) message)) (\<lambda>jData.
       if is_block_json (e_json E) jData then
         on_store (onIncomingBlock (e_json E) (e_sha E) (e_crypto E) (e_chain E) (e_cfg E)
           (rq_now q) (rq_uuid q) (rq_ts q) jData)
       else handleIncomingMessage E (rq_clk q) (rq_uuid q) (rq_ts q) jData ''{}'')"

text \<open>The handler of the server: \<open>None\<close> if nothing is sent back.\<close>

definition onMessage :: "('s, 'j) env \<Rightarrow> request_env \<Rightarrow> string \<Rightarrow> ('s node, string option) act" where
  "onMessage E q message = handle (seq (serve E q message) (\<lambda>r. ret (Some r))) (\<lambda>_. ret None)"

subsection \<open>TCPClient\<close>

type_synonym net = "user_peer \<Rightarrow> string \<Rightarrow> string option"

text \<open>The message is given as its \<open>serialize\<close>d JSON value.\<close>

definition TCPClient_sendMessage :: "('s, 'j) env \<Rightarrow> net \<Rightarrow> user_peer \<Rightarrow> 'j \<Rightarrow> ('s node, unit) act" where
  "TCPClient_sendMessage E net to jMessage =
     seq (lift (json_dump (e_json E) jMessage)) (\<lambda>serializedMessage.
       if length serializedMessage > BUFFER_SIZE then lift (Inl (Std_Exc ''Message is too big''))
       else case net to serializedMessage of
              None \<Rightarrow> ret ()
            | Some response \<Rightarrow> handleOutgoingMessage E response)"

text \<open>
  The callback that sends a block: an unreachable peer counts as success; an answer that is no JSON
  text, or a blockchain error, as failure.
\<close>

definition sendCallback :: "('s, 'j) env \<Rightarrow> net \<Rightarrow> string \<Rightarrow> user_peer \<Rightarrow> bool res" where
  "sendCallback E net raw p =
     (case net p raw of
        None \<Rightarrow> Inr True
      | Some response \<Rightarrow>
          (case json_parse (e_json E) response of
             Inl _ \<Rightarrow> Inr False
           | Inr jResponse \<Rightarrow>
               Inr (\<not> (json_contains (e_json E) jResponse ''type'' \<and>
                       of_type E (json_ref (e_json E) jResponse ''type'') BLOCKCHAIN_ERROR_RESPONSE))))"

definition store_and_broadcast :: "('s, 'j) env \<Rightarrow> net \<Rightarrow> block \<Rightarrow> ('s node, bool) act" where
  "store_and_broadcast E net b =
     seq (query (\<lambda>n. Inr (getPeers (n_peers n)))) (\<lambda>ps.
       on_store (\<lambda>s. bnd (storeAndBroadcastBlock (e_json E) (e_chain E) b ps (sendCallback E net) s)
         (\<lambda>(stored, _, s'). Inr (stored, s'))))"

text \<open>After a failed broadcast: the local copy is removed and the receiver is told to do the same.\<close>

definition undo_message ::
  "('s, 'j) env \<Rightarrow> string \<Rightarrow> u64 \<Rightarrow> block \<Rightarrow> text_message \<Rightarrow> ('s node, string) act" where
  "undo_message E uuid ts b m =
     seq (on_store (removeMessageByBlockHashOrId (e_msgs E) (hash b) (m_id m))) (\<lambda>_.
       lift (json_dump (e_json E) (BlockchainErrorMessageResponse_serialize (e_json E)
         (BlockchainErrorMessageResponse_create uuid ts (m_to m)
           ''Block was not stored (maybe duplicate  or fork)'' (hash b) (m_id m)))))"

text \<open>
  What follows once the text has been sent and answered: the local copy, the contact, the block. The
  text for \<open>errorMessageClient\<close>, if any, is the result.
\<close>

definition after_delivery ::
  "('s, 'j) env \<Rightarrow> net \<Rightarrow> string \<Rightarrow> u64 \<Rightarrow> block \<Rightarrow> text_message \<Rightarrow> string \<Rightarrow> string \<Rightarrow>
   ('s node, string option) act" where
  "after_delivery E net uuid ts b textMessage serializedMessage response =
     seq (handleOutgoingMessage E response) (\<lambda>_.
     seq (on_store (Service_insertSecretMessage (e_msgs E) textMessage serializedMessage (hash b))) (\<lambda>_.
     seq (on_store (\<lambda>s. bnd (addChatPeer (e_peers E) (m_to textMessage) s) (\<lambda>s'. Inr ((), s')))) (\<lambda>_.
     seq (store_and_broadcast E net b) (\<lambda>stored.
       if stored then ret None
       else seq (undo_message E uuid ts b textMessage) (\<lambda>raw. ret (Some raw))))))"

text \<open>The whole exchange; \<open>textMessage\<close> is the argument with its block hash filled in.\<close>

definition sendSecretMessage ::
  "('s, 'j) env \<Rightarrow> net \<Rightarrow> string \<Rightarrow> u64 \<Rightarrow> text_message \<Rightarrow> ('s node, string option) act" where
  "sendSecretMessage E net uuid ts m =
     seq (query (\<lambda>n. createBlockFromMessage (e_sha E) (e_crypto E) (e_chain E) (e_cfg E) m Block
            (n_store n))) (\<lambda>b.
     let textMessage = TextMessage_setBlockHash (hash b) m in
     seq (lift (bnd (config_get (e_cfg E) PRIVATE_KEY)
            (TextMessage_serialize (e_json E) (e_crypto E) textMessage))) (\<lambda>jMessage.
     seq (lift (json_dump (e_json E) jMessage)) (\<lambda>serializedMessage.
       if length serializedMessage > BUFFER_SIZE then lift (Inl (Std_Exc ''Message is too big''))
       else case net (m_to m) serializedMessage of
              None \<Rightarrow> ret None
            | Some response \<Rightarrow>
                after_delivery E net uuid ts b textMessage serializedMessage response)))"

text \<open>
  The three loops over peers. \<open>fresh\<close> gives the identifier and the time of the message for each peer.
\<close>

definition TCPClient_connect ::
  "('s, 'j) env \<Rightarrow> net \<Rightarrow> (user_peer \<Rightarrow> string \<times> u64) \<Rightarrow> string \<Rightarrow> user_peer list \<Rightarrow> ('s node, unit) act" where
  "TCPClient_connect E net fresh lastHash tos =
     seq (lift (local_peer (e_cfg E))) (\<lambda>from.
       each (\<lambda>to. TCPClient_sendMessage E net to (ConnectionMessage_serialize (e_json E)
         (ConnectionMessage_create (fst (fresh to)) (snd (fresh to)) from to lastHash))) tos)"

definition TCPClient ::
  "('s, 'j) env \<Rightarrow> net \<Rightarrow> (user_peer \<Rightarrow> string \<times> u64) \<Rightarrow> string \<Rightarrow> ('s node, unit) act" where
  "TCPClient E net fresh lastHash =
     seq (query (\<lambda>n. Inr (getHosts (n_peers n)))) (\<lambda>hs.
       TCPClient_connect E net fresh lastHash (map (\<lambda>h. UserPeer (host h) (port h) '''') hs))"

definition connectToAllPeers ::
  "('s, 'j) env \<Rightarrow> net \<Rightarrow> (user_peer \<Rightarrow> string \<times> u64) \<Rightarrow> ('s node, unit) act" where
  "connectToAllPeers E net fresh =
     seq (query (\<lambda>n. Inr (getPeers (n_peers n)))) (TCPClient_connect E net fresh ''0'')"

definition TCPClient_disconnect ::
  "('s, 'j) env \<Rightarrow> net \<Rightarrow> (user_peer \<Rightarrow> string \<times> u64) \<Rightarrow> ('s node, unit) act" where
  "TCPClient_disconnect E net fresh =
     seq (lift (local_peer (e_cfg E))) (\<lambda>from.
     seq (query (\<lambda>n. Inr (getPeers (n_peers n)))) (\<lambda>ps.
       each (\<lambda>p. TCPClient_sendMessage E net p (DisconnectionMessage_serialize (e_json E)
         (DisconnectionMessage_create (fst (fresh p)) (snd (fresh p)) from p))) ps))"

end
