(* ===== verification/DC_NodeProofs.thy ===== *)
theory DC_NodeProofs
  imports DC_Network
begin

text \<open>
  What every computation of a node keeps, whatever a peer sends and wherever it throws: the invariants
  of the three repositories and of the peer list, and the chain, which only a block can extend.
\<close>

definition wired :: "'s IChainRepo \<Rightarrow> 's IMessageRepo \<Rightarrow> 's IPeerRepo \<Rightarrow> ('s, 'j) env \<Rightarrow> bool" where
  "wired R M P E \<longleftrightarrow> e_chain E = R \<and> e_msgs E = M \<and> e_peers E = P"

definition node_ok ::
  "('s \<Rightarrow> bool) \<Rightarrow> ('s \<Rightarrow> bool) \<Rightarrow> ('s \<Rightarrow> bool) \<Rightarrow> 's node \<Rightarrow> bool" where
  "node_ok cinv minv pinv n \<longleftrightarrow> cinv (n_store n) \<and> minv (n_store n) \<and> pinv (n_store n) \<and>
     peers_inv (n_peers n)"

text \<open>The environment \<open>ChatApplication::init\<close> builds from the three SQLite repositories.\<close>

definition node_env ::
  "'j json_lib \<Rightarrow> (bytes \<Rightarrow> bytes) \<Rightarrow> ICrypto \<Rightarrow> config_data \<Rightarrow>
   (text_message list \<Rightarrow> text_message list) \<Rightarrow> sqlite \<Rightarrow> (db, 'j) env" where
  "node_env J SHA256 C cfg srt Q = \<lparr> e_json = J, e_sha = SHA256, e_crypto = C, e_chain = ChainDB Q,
     e_msgs = MessageDB J C cfg srt Q, e_peers = PeerDB Q, e_cfg = cfg \<rparr>"

lemma node_env_simps [simp]:
  "e_json (node_env J S C cfg srt Q) = J" "e_sha (node_env J S C cfg srt Q) = S"
  "e_crypto (node_env J S C cfg srt Q) = C" "e_chain (node_env J S C cfg srt Q) = ChainDB Q"
  "e_msgs (node_env J S C cfg srt Q) = MessageDB J C cfg srt Q"
  "e_peers (node_env J S C cfg srt Q) = PeerDB Q" "e_cfg (node_env J S C cfg srt Q) = cfg"
  by (simp_all add: node_env_def)

lemma node_env_wired [simp]:
  "wired (ChainDB Q) (MessageDB J C cfg srt Q) (PeerDB Q) (node_env J S C cfg srt Q)"
  by (simp add: wired_def)

text \<open>The clock is small enough for the timestamps an incoming block may have.\<close>

definition clock_ok :: "(block \<Rightarrow> bool) \<Rightarrow> u64 \<Rightarrow> bool" where
  "clock_ok timely now \<longleftrightarrow> (\<forall>b. timestamp b \<le> now + 300000 \<longrightarrow> timely b)"

subsection \<open>The loop over the peers\<close>

lemma peer_list_loop_eq:
  "peer_list_loop ps me bound i = filter (\<lambda>p. p \<noteq> me) (take (bound - i) (drop i (peers ps)))"
proof (induction ps me bound i rule: peer_list_loop.induct)
  case (1 ps me bound i)
  show ?case
  proof (cases "i < bound \<and> i < length (peers ps)")
    case True
    then have t: "take (bound - i) (drop i (peers ps)) =
      peers ps ! i # take (bound - Suc i) (drop (Suc i) (peers ps))"
      by (simp add: Cons_nth_drop_Suc [symmetric] take_Cons' Suc_diff_Suc)
    show ?thesis
      using 1 True unfolding t by (subst peer_list_loop.simps) (auto simp: getPeer_def)
  next
    case False
    then show ?thesis by (subst peer_list_loop.simps) (auto simp: getPeer_def)
  qed
qed

subsection \<open>Chat messages keep the invariants and the chain\<close>

lemmas chat_handlers =
  handleOutgoingBlockchainErrorMessage_def handleOutgoingErrorMessage_def
  handleIncomingConnectionMessage_def handleOutgoingConnectionMessage_def
  handleIncomingTextMessage_def handleOutgoingTextMessage_def
  handleIncomingPeerListMessage_def handleOutgoingPeerListMessage_def
  handleIncomingDisconnectionMessage_def handleOutgoingDisconnectionMessage_def
  handleIncomingBlockRangeMessage_def handleOutgoingBlockRangeMessage_def

context node_store
begin

text \<open>The invariants, together with the chain as it is.\<close>

lemma keeps_insert_message:
  "keeps (\<lambda>n. node_ok cinv minv pinv n \<and> chain (n_store n) = c)
     (on_store (Service_insertSecretMessage M m dump h))"
proof (rule keeps_on_store, elim conjE)
  fix n x s
  assume n: "node_ok cinv minv pinv n" "chain (n_store n) = c"
    and i: "Service_insertSecretMessage M m dump h (n_store n) = Inr (x, s)"
  with message_ops_keep(1) [of "n_store n" m dump h x s] insert_frame [of m dump h "n_store n" x s]
  show "node_ok cinv minv pinv (n\<lparr>n_store := s\<rparr>) \<and> chain (n_store (n\<lparr>n_store := s\<rparr>)) = c"
    by (simp add: node_ok_def Service_insertSecretMessage_def)
qed

lemma keeps_remove_message:
  "keeps (\<lambda>n. node_ok cinv minv pinv n \<and> chain (n_store n) = c)
     (on_store (removeMessageByBlockHashOrId M h i))"
proof (rule keeps_on_store, elim conjE)
  fix n x s
  assume n: "node_ok cinv minv pinv n" "chain (n_store n) = c"
    and i: "removeMessageByBlockHashOrId M h i (n_store n) = Inr (x, s)"
  then have "removeMessageByBlockHash M h (n_store n) = Inr (True, s)"
    using remove_block [of "n_store n" h] by (auto simp: removeMessageByBlockHashOrId_def node_ok_def)
  with n message_ops_keep(2) [of "n_store n" h True s] remove_frame [of h "n_store n" True s]
  show "node_ok cinv minv pinv (n\<lparr>n_store := s\<rparr>) \<and> chain (n_store (n\<lparr>n_store := s\<rparr>)) = c"
    by (simp add: node_ok_def)
qed

lemma keeps_add_chat_peer:
  "keeps (\<lambda>n. node_ok cinv minv pinv n \<and> chain (n_store n) = c)
     (on_store (\<lambda>s. bnd (addChatPeer P p s) (\<lambda>s'. Inr ((), s'))))"
proof (rule keeps_on_store, elim conjE)
  fix n x s
  assume n: "node_ok cinv minv pinv n" "chain (n_store n) = c"
    and i: "bnd (addChatPeer P p (n_store n)) (\<lambda>s'. Inr ((), s')) = Inr (x, s)"
  then have "repoAddPeer P p (n_store n) = Inr s" by (auto simp: addChatPeer_def)
  with n peer_op_keeps [of "n_store n" p s] add_frame [of p "n_store n" s]
  show "node_ok cinv minv pinv (n\<lparr>n_store := s\<rparr>) \<and> chain (n_store (n\<lparr>n_store := s\<rparr>)) = c"
    by (simp add: node_ok_def)
qed

lemmas keeps_store = keeps_insert_message keeps_remove_message keeps_add_chat_peer

lemma keeps_incoming:
  assumes E: "wired R M P E"
  shows "keeps (\<lambda>n. node_ok cinv minv pinv n \<and> chain (n_store n) = c)
    (handleIncomingMessage E clk uuid now j response)"
proof -
  have e: "e_chain E = R" "e_msgs E = M" "e_peers E = P" using E by (simp_all add: wired_def)
  have u: "keeps (\<lambda>n. node_ok cinv minv pinv n \<and> chain (n_store n) = c)
      (update (\<lambda>n. n\<lparr>n_peers := addPeer p (n_peers n)\<rparr>))"
    "keeps (\<lambda>n. node_ok cinv minv pinv n \<and> chain (n_store n) = c)
      (update (\<lambda>n. n\<lparr>n_peers := removePeer p (n_peers n)\<rparr>))" for p
    by (rule keeps_update; auto simp: node_ok_def)+
  show ?thesis
    unfolding handleIncomingMessage_def dispatch_incoming_def chat_handlers e Let_def
    by (intro keeps_handle keeps_seq keeps_if keeps_store keeps_ret keeps_lift keeps_query u)
      (auto split: exc.split)
qed

lemma keeps_outgoing:
  assumes E: "wired R M P E"
  shows "keeps (\<lambda>n. node_ok cinv minv pinv n \<and> chain (n_store n) = c)
    (handleOutgoingMessage E response)"
proof -
  have e: "e_chain E = R" "e_msgs E = M" "e_peers E = P" using E by (simp_all add: wired_def)
  show ?thesis
    unfolding handleOutgoingMessage_def dispatch_outgoing_def chat_handlers e Let_def
    by (intro keeps_handle keeps_seq keeps_if keeps_store keeps_ret keeps_lift keeps_query keeps_each
        keeps_update) (auto simp: node_ok_def)
qed


subsection \<open>Requests\<close>

text \<open>One request extends the chain by at most one block, and only by one the checks accept.\<close>

lemma onMessage_chain:
  assumes E: "wired R M P E" and n: "node_ok cinv minv pinv n" and t: "clock_ok timely (rq_now q)"
    and n': "n' = snd (onMessage E q raw n)"
  shows "node_ok cinv minv pinv n' \<and> (chain (n_store n') = chain (n_store n) \<or>
    (\<exists>j b. json_parse (e_json E) raw = Inr j \<and> Block_of_json (e_json E) j = Inr b \<and>
       accepts (e_sha E) (e_crypto E) (rq_now q) (chain (n_store n)) b \<and>
       insert_ok (chain (n_store n)) b \<and> chain (n_store n') = chain (n_store n) @ [c_block b]))"
proof -
  let ?a = "serve E q raw"
  have a: "n' = snd (?a n)"
    unfolding n' onMessage_def by (auto simp: act_simps split: prod.splits sum.splits)
  show ?thesis
  proof (cases "json_parse (e_json E) raw")
    case (Inl e)
    then show ?thesis using n a by (simp add: serve_def act_simps)
  next
    case j: (Inr j)
    show ?thesis
    proof (cases "is_block_json (e_json E) j")
      case False
      then have "n' = snd (handleIncomingMessage E (rq_clk q) (rq_uuid q) (rq_ts q) j ''{}'' n)"
        using a j by (simp add: serve_def act_simps)
      then show ?thesis
        using keeps_incoming [OF E, of "chain (n_store n)"] n by (simp add: keeps_def)
    next
      case True
      let ?f = "onIncomingBlock (e_json E) (e_sha E) (e_crypto E) R (e_cfg E) (rq_now q) (rq_uuid q)
        (rq_ts q) j"
      have a': "n' = snd (on_store ?f n)"
        using a j True E by (simp add: serve_def act_simps wired_def)
      show ?thesis
      proof (cases "?f (n_store n)")
        case (Inl e)
        then show ?thesis using n a' by (simp add: on_store_def)
      next
        case (Inr r)
        obtain resp s where r: "r = (resp, s)" by (cases r)
        have s: "n' = n\<lparr>n_store := s\<rparr>" using a' Inr r by (simp add: on_store_def)
        have cl: "timestamp b \<le> rq_now q + 300000 \<Longrightarrow> timely b" for b
          using t by (simp add: clock_ok_def)
        have inv: "cinv (n_store n)" "minv (n_store n)" "pinv (n_store n)" "peers_inv (n_peers n)"
          using n by (simp_all add: node_ok_def)
        from onIncomingBlock_effect [OF inv(1) cl Inr [unfolded r]]
        have "cinv s \<and> (s = n_store n \<or> (\<exists>b ok. Block_of_json (e_json E) j = Inr b \<and>
            accepts (e_sha E) (e_crypto E) (rq_now q) (chain (n_store n)) b \<and>
            insertBlock R b (n_store n) = Inr (ok, s) \<and>
            ok = insert_ok (chain (n_store n)) b \<and>
            chain s = (if ok then chain (n_store n) @ [c_block b] else chain (n_store n))))"
          by blast
        then show ?thesis
          using inv j chain_frame unfolding s by (fastforce simp: node_ok_def split: if_splits)
      qed
    qed
  qed
qed


subsection \<open>What the node sends\<close>

lemma keeps_sendMessage:
  assumes "wired R M P E"
  shows "keeps (\<lambda>n. node_ok cinv minv pinv n \<and> chain (n_store n) = c)
    (TCPClient_sendMessage E net to j)"
  unfolding TCPClient_sendMessage_def
  by (intro keeps_seq keeps_if keeps_lift) (auto split: option.split intro: keeps_outgoing [OF assms])

lemma keeps_connect:
  assumes "wired R M P E"
  shows "keeps (\<lambda>n. node_ok cinv minv pinv n \<and> chain (n_store n) = c) (TCPClient E net fresh h)"
    and "keeps (\<lambda>n. node_ok cinv minv pinv n \<and> chain (n_store n) = c) (connectToAllPeers E net fresh)"
    and "keeps (\<lambda>n. node_ok cinv minv pinv n \<and> chain (n_store n) = c) (TCPClient_disconnect E net fresh)"
  unfolding TCPClient_def connectToAllPeers_def TCPClient_disconnect_def TCPClient_connect_def
  by (intro keeps_seq keeps_each keeps_lift keeps_query keeps_sendMessage [OF assms])+

lemma store_and_broadcast_leads:
  assumes E: "wired R M P E" and t: "timely b"
  shows "leads (\<lambda>n. node_ok cinv minv pinv n \<and> chain (n_store n) = c) (store_and_broadcast E net b)
    (\<lambda>n. node_ok cinv minv pinv n \<and> (chain (n_store n) = c \<or>
       insert_ok c b \<and> chain (n_store n) = c @ [c_block b]))"
  unfolding leads_def
proof (intro allI impI)
  fix n assume n: "node_ok cinv minv pinv n \<and> chain (n_store n) = c"
  let ?s = "n_store n"
  let ?call = "storeAndBroadcastBlock (e_json E) R b (getPeers (n_peers n)) (sendCallback E net) ?s"
  have inv: "cinv ?s" "minv ?s" "pinv ?s" "peers_inv (n_peers n)" "chain ?s = c"
    using n by (simp_all add: node_ok_def)
  show "node_ok cinv minv pinv (snd (store_and_broadcast E net b n)) \<and>
    (chain (n_store (snd (store_and_broadcast E net b n))) = c \<or>
     insert_ok c b \<and> chain (n_store (snd (store_and_broadcast E net b n))) = c @ [c_block b])"
  proof (cases ?call)
    case (Inl e)
    then show ?thesis
      using n E by (simp add: store_and_broadcast_def act_simps wired_def)
  next
    case (Inr r)
    obtain ok sent s where r: "r = (ok, sent, s)" by (cases r)
    have s: "snd (store_and_broadcast E net b n) = n\<lparr>n_store := s\<rparr>"
      using Inr r E by (simp add: store_and_broadcast_def act_simps wired_def)
    have "s = ?s \<or> (\<exists>ok. insertBlock R b ?s = Inr (ok, s))"
      using Inr [unfolded r] by (auto simp: storeAndBroadcastBlock_def split: if_splits)
    then have "minv s" "pinv s" using inv chain_frame by blast+
    then show ?thesis
      using storeAndBroadcastBlock_chain [OF inv(1) t Inr [unfolded r]] inv
      by (auto simp: s node_ok_def)
  qed
qed

lemma after_delivery_leads:
  assumes E: "wired R M P E" and t: "timely b"
  shows "leads (\<lambda>n. node_ok cinv minv pinv n \<and> chain (n_store n) = c)
    (after_delivery E net uuid ts b m raw response)
    (\<lambda>n. node_ok cinv minv pinv n \<and> (chain (n_store n) = c \<or>
       insert_ok c b \<and> chain (n_store n) = c @ [c_block b]))"
proof -
  let ?P = "\<lambda>n. node_ok cinv minv pinv n \<and> chain (n_store n) = c"
  let ?Q = "\<lambda>n. node_ok cinv minv pinv n \<and> (chain (n_store n) = c \<or>
       insert_ok c b \<and> chain (n_store n) = c @ [c_block b])"
  have e: "e_chain E = R" "e_msgs E = M" "e_peers E = P" using E by (simp_all add: wired_def)
  have Q: "keeps ?Q a" if "\<And>c. keeps (\<lambda>n. node_ok cinv minv pinv n \<and> chain (n_store n) = c) a" for a
    using that by (auto simp: keeps_def)
  have undo: "keeps ?Q (undo_message E uuid ts b m)"
    by (rule Q, unfold undo_message_def e) (intro keeps_seq keeps_store keeps_lift)
  have PQ: "?Q n" if "?P n" for n using that by simp
  show ?thesis
    unfolding after_delivery_def e
    by (intro leads_seq [of ?P, OF _ _ PQ] keeps_outgoing [OF E] keeps_store
        leads_seq_then [OF store_and_broadcast_leads [OF E t]] keeps_if keeps_seq keeps_ret undo)
qed

lemma sendSecretMessage_chain:
  assumes E: "wired R M P E" and n: "node_ok cinv minv pinv n"
    and t: "\<And>b. timestamp b = m_timestamp m \<Longrightarrow> timely b"
    and n': "n' = snd (sendSecretMessage E net uuid ts m n)"
  shows "node_ok cinv minv pinv n' \<and> (chain (n_store n') = chain (n_store n) \<or>
    (\<exists>b. createBlockFromMessage (e_sha E) (e_crypto E) R (e_cfg E) m Block (n_store n) = Inr b \<and>
       insert_ok (chain (n_store n)) b \<and> chain (n_store n') = chain (n_store n) @ [c_block b]))"
proof (cases "createBlockFromMessage (e_sha E) (e_crypto E) R (e_cfg E) m Block (n_store n)")
  case (Inl e)
  then show ?thesis
    using n n' E by (simp add: sendSecretMessage_def act_simps wired_def)
next
  case (Inr b)
  then have tb: "timely b"
    by (intro t) (auto simp: createBlockFromMessage_def Let_def)
  have "n' = n \<or> (\<exists>m' raw response. n' = snd (after_delivery E net uuid ts b m' raw response n))"
    using Inr E
    by (auto simp: n' sendSecretMessage_def act_simps wired_def Let_def
        split: sum.splits option.splits prod.splits)
  then show ?thesis
  proof (elim disjE exE)
    fix m' raw response
    assume "n' = snd (after_delivery E net uuid ts b m' raw response n)"
    then show ?thesis
      using after_delivery_leads [OF E tb, of "chain (n_store n)" net uuid ts m' raw response] n Inr
      by (simp add: leads_def)
  qed (use n in simp)
qed

end

end
