(* ===== verification/DC_Reach.thy ===== *)
theory DC_Reach
  imports DC_NodeProofs
begin

text \<open>
  A node as a state machine. Its server thread answers requests while its other threads send: the steps
  are the calls that touch shared state, in any order, so every interleaving of
  \<open>TCPClient::sendSecretMessage\<close> with incoming requests is a sequence of them. A call of a repository
  is one step; so is the insertion of a received block when the node synchronizes.
\<close>

inductive node_step ::
  "('s, 'j) env \<Rightarrow> (block \<Rightarrow> bool) \<Rightarrow> 's node \<Rightarrow> 's node \<Rightarrow> bool" for E timely where
  request: "clock_ok timely (rq_now q) \<Longrightarrow> node_step E timely n (snd (onMessage E q raw n))"
| reply: "node_step E timely n (snd (handleOutgoingMessage E response n))"
| keep: "node_step E timely n
    (snd (on_store (Service_insertSecretMessage (e_msgs E) m dump h) n))"
| contact: "node_step E timely n
    (snd (on_store (\<lambda>s. bnd (addChatPeer (e_peers E) p s) (\<lambda>s'. Inr ((), s'))) n))"
| publish: "timely b \<Longrightarrow> node_step E timely n (snd (store_and_broadcast E net b n))"
| store: "timely b \<Longrightarrow> node_step E timely n (snd (on_store (insertBlock (e_chain E) b) n))"
| undo: "node_step E timely n (snd (undo_message E uuid ts b m n))"

text \<open>
  Steps of a network whose peers keep to the format: no field of a block contains a NUL, and what the
  node publishes is a valid block on a tip its chain has had.
\<close>

inductive clean_step ::
  "('s, 'j) env \<Rightarrow> ('s \<Rightarrow> block list) \<Rightarrow> (block \<Rightarrow> bool) \<Rightarrow> 's node \<Rightarrow> 's node \<Rightarrow> bool"
  for E chain timely where
  clean_request: "clock_ok timely (rq_now q) \<Longrightarrow>
    (\<And>j b. json_parse (e_json E) raw = Inr j \<Longrightarrow> Block_of_json (e_json E) j = Inr b \<Longrightarrow> c_block b = b) \<Longrightarrow>
    clean_step E chain timely n (snd (onMessage E q raw n))"
| clean_publish: "timely b \<Longrightarrow> valid_block (e_sha E) (e_crypto E) b \<Longrightarrow> c_block b = b \<Longrightarrow>
    (if chain (n_store n) = [] then previousHash b = ''0''
     else previousHash b \<in> hash ` set (chain (n_store n))) \<Longrightarrow>
    clean_step E chain timely n (snd (store_and_broadcast E net b n))"
| clean_other: "node_step E timely n n' \<Longrightarrow> chain (n_store n') = chain (n_store n) \<Longrightarrow>
    clean_step E chain timely n n'"

inductive_simps clean_step_iff: "clean_step E chain timely n n'"

context node_store
begin

lemma undo_keeps:
  assumes "wired R M P E"
  shows "keeps (\<lambda>n. node_ok cinv minv pinv n \<and> chain (n_store n) = c) (undo_message E uuid ts b m)"
proof -
  have e: "e_msgs E = M" using assms by (simp add: wired_def)
  show ?thesis
    unfolding undo_message_def e by (intro keeps_seq keeps_store keeps_lift)
qed

lemma step_invariant:
  assumes "node_step E timely n n'" "wired R M P E" "node_ok cinv minv pinv n"
  shows "node_ok cinv minv pinv n' \<and> (\<exists>l. chain (n_store n') = chain (n_store n) @ l)"
  using assms
proof (induction rule: node_step.induct)
  case (request q n raw)
  then show ?case using onMessage_chain [OF request(2,3,1) refl, of raw] by auto
next
  case (reply n response)
  then show ?case using keeps_outgoing [of E "chain (n_store n)" response] by (simp add: keeps_def)
next
  case (keep n m dump h)
  then show ?case using keeps_insert_message [of "chain (n_store n)" m dump h]
    by (simp add: keeps_def wired_def)
next
  case (contact n p)
  then show ?case using keeps_add_chat_peer [of "chain (n_store n)" p]
    by (simp add: keeps_def wired_def)
next
  case (publish b n net)
  then show ?case
    using store_and_broadcast_leads [OF publish(2,1), of "chain (n_store n)" net] by (auto simp: leads_def)
next
  case (store b n)
  then show ?case
    using chain_repo.insert [OF chain_repo_axioms, of "n_store n" b] chain_frame [of b "n_store n"]
    by (auto simp: on_store_def node_ok_def wired_def split: sum.split prod.split)
next
  case (undo n uuid ts b m)
  then show ?case
    using undo_keeps [OF undo(1), of "chain (n_store n)" uuid ts b m] by (simp add: keeps_def)
qed

text \<open>From a good state every reachable state is good, and the chain only grows.\<close>

lemma reachable_invariant:
  assumes "(node_step E timely)\<^sup>*\<^sup>* n n'" "wired R M P E" "node_ok cinv minv pinv n"
  shows "node_ok cinv minv pinv n' \<and> (\<exists>l. chain (n_store n') = chain (n_store n) @ l)"
  using assms(1)
proof (induction rule: rtranclp_induct)
  case base
  then show ?case using assms(3) by simp
next
  case (step x y)
  then show ?case using step_invariant [OF step(2) assms(2)] by fastforce
qed

lemma clean_is_step: "clean_step E chain timely n n' \<Longrightarrow> node_step E timely n n'"
  by (induction rule: clean_step.induct) (auto intro: node_step.intros)

text \<open>An old tip that is not yet a predecessor is still the tip.\<close>

lemma insert_ok_old_tip:
  assumes s: "cinv s" and v: "valid_chain S C (chain s)" and b: "insert_ok (chain s) b" "c_block b = b"
    and p: "previousHash b \<in> hash ` set (chain s)" and len: "sha_len S"
  shows "previousHash b = tip_hash (chain s)"
proof -
  obtain i where i: "i < length (chain s)" "previousHash b = hash (chain s ! i)"
    using p by (auto simp: in_set_conv_nth)
  have "valid_block S C (chain s ! i)"
    using v nth_mem [OF i(1)] by (simp add: valid_chain_def)
  then have "hash (chain s ! i) \<noteq> ''0''"
    by (rule valid_block_hash [OF _ len])
  then have n: "previousHash b \<notin> previousHash ` set (chain s)"
    using b i by (simp add: insert_ok_def c_block_id)
  have l: "linked ''0'' (chain s)" using v by (simp add: valid_chain_def)
  have "Suc i = length (chain s)"
  proof (rule ccontr)
    assume "Suc i \<noteq> length (chain s)"
    then have lt: "Suc i < length (chain s)" using i by simp
    from linked_nth [OF l lt] have "previousHash (chain s ! Suc i) = previousHash b"
      using i by simp
    with n lt show False by (metis imageI nth_mem)
  qed
  moreover have ne: "chain s \<noteq> []" using i(1) by auto
  ultimately have "last (chain s) = chain s ! i"
    using last_conv_nth [OF ne] by (metis diff_Suc_1)
  with ne i(2) show ?thesis by (simp add: tip_hash_def)
qed

lemma clean_step_valid:
  assumes st: "clean_step E chain timely n n'" and E: "wired R M P E"
    and n: "node_ok cinv minv pinv n" and v: "valid_chain (e_sha E) (e_crypto E) (chain (n_store n))"
    and len: "sha_len (e_sha E)"
  shows "valid_chain (e_sha E) (e_crypto E) (chain (n_store n'))"
  using st
proof cases
  case (clean_request q raw)
  from onMessage_chain [OF E n clean_request(2) clean_request(1)]
  consider "chain (n_store n') = chain (n_store n)" |
    j b where "json_parse (e_json E) raw = Inr j" "Block_of_json (e_json E) j = Inr b"
      "accepts (e_sha E) (e_crypto E) (rq_now q) (chain (n_store n)) b"
      "chain (n_store n') = chain (n_store n) @ [c_block b]" by blast
  then show ?thesis
  proof cases
    case 2
    with clean_request(3) have c: "c_block b = b" by blast
    then have "previousHash b = tip_hash (chain (n_store n))"
      using 2(3) extends_tip_clean [of b] by (simp add: accepts_def c_block_id)
    with 2 c v show ?thesis by (simp add: valid_chain_snoc accepts_def)
  qed (use v in simp)
next
  case (clean_publish b net)
  have P: "leads (\<lambda>m. node_ok cinv minv pinv m \<and> chain (n_store m) = chain (n_store n))
    (store_and_broadcast E net b) (\<lambda>m. node_ok cinv minv pinv m \<and>
      (chain (n_store m) = chain (n_store n) \<or> insert_ok (chain (n_store n)) b \<and>
       chain (n_store m) = chain (n_store n) @ [c_block b]))"
    by (rule store_and_broadcast_leads [OF E clean_publish(2)])
  then consider "chain (n_store n') = chain (n_store n)" |
    "insert_ok (chain (n_store n)) b" "chain (n_store n') = chain (n_store n) @ [b]"
    using n clean_publish(1,4) by (auto simp: leads_def)
  then show ?thesis
  proof cases
    case 2
    have "previousHash b = tip_hash (chain (n_store n))"
      using clean_publish(4,5) insert_ok_old_tip [OF _ v 2(1) _ _ len] n
      by (cases "chain (n_store n) = []") (auto simp: node_ok_def)
    with 2 v clean_publish(3) show ?thesis by (simp add: valid_chain_snoc)
  qed (use v in simp)
qed (use v in simp)

lemma clean_reachable_valid:
  assumes "(clean_step E chain timely)\<^sup>*\<^sup>* n n'" "wired R M P E" "node_ok cinv minv pinv n"
    and "valid_chain (e_sha E) (e_crypto E) (chain (n_store n))" "sha_len (e_sha E)"
  shows "node_ok cinv minv pinv n' \<and> valid_chain (e_sha E) (e_crypto E) (chain (n_store n'))"
  using assms(1)
proof (induction rule: rtranclp_induct)
  case (step x y)
  then show ?case
    using clean_step_valid [OF step(2) assms(2)] step_invariant [OF clean_is_step [OF step(2)] assms(2)]
      assms(5) by blast
qed (use assms in simp)

end

end
