(* ===== verification/DC_JsonText.thy ===== *)
theory DC_JsonText
  imports DC_Json DC_Hex
begin

text \<open>
  A concrete JSON library with text: \<open>jt_lib\<close> is \<open>jv_lib\<close> with a printer and a parser over the values
  \<open>jv\<close>. It shows that the laws assumed of the third-party library can hold together; strings are
  written in hexadecimal, so no text of it contains a NUL.
\<close>

function jv_text :: "jv \<Rightarrow> string" where
  "jv_text JNull = ''n''"
| "jv_text (JStr s) = ''s'' @ toHex (bytes_of_string s) @ ''.''"
| "jv_text (JNum n) = ''#'' @ to_string n @ ''.''"
| "jv_text (JArr js) = ''['' @ concat (map (\<lambda>j. '','' @ jv_text j) js) @ '']''"
| "jv_text (JObj kvs) =
     ''{'' @ concat (map (\<lambda>kv. '','' @ toHex (bytes_of_string (fst kv)) @ ''.'' @ jv_text (snd kv)) kvs) @ ''}''"
  by pat_completeness auto
termination
proof (relation "measure size")
  show "(j, JArr js) \<in> measure size" if "j \<in> set js" for j js
    using size_list_estimation' [OF that, of "size j" size] by simp
  show "(snd kv, JObj kvs) \<in> measure size" if "kv \<in> set kvs" for kv kvs
    using size_list_estimation' [OF that, of "size (snd kv)" "size_prod (\<lambda>_. 0) size"]
    by (cases kv) auto
qed auto

definition until_dot :: "string \<Rightarrow> string \<times> string" where
  "until_dot s = (takeWhile (\<lambda>c. c \<noteq> CHR ''.'') s, drop 1 (dropWhile (\<lambda>c. c \<noteq> CHR ''.'') s))"

definition read_hex :: "string \<Rightarrow> string option" where
  "read_hex s = (case fromHex s of Inl _ \<Rightarrow> None | Inr bs \<Rightarrow> Some (string_of_bytes bs))"

fun jv_read :: "nat \<Rightarrow> string \<Rightarrow> (jv \<times> string) option"
  and jv_read_list :: "nat \<Rightarrow> string \<Rightarrow> (jv list \<times> string) option"
  and jv_read_obj :: "nat \<Rightarrow> string \<Rightarrow> ((string \<times> jv) list \<times> string) option" where
  "jv_read 0 _ = None"
| "jv_read (Suc n) [] = None"
| "jv_read (Suc n) (c # s) =
     (if c = CHR ''n'' then Some (JNull, s)
      else if c = CHR ''s'' then
        map_option (\<lambda>t. (JStr t, snd (until_dot s))) (read_hex (fst (until_dot s)))
      else if c = CHR ''#'' then
        (case strto 10 (fst (until_dot s)) of
           Some (False, v) \<Rightarrow> Some (JNum v, snd (until_dot s)) | _ \<Rightarrow> None)
      else if c = CHR ''['' then map_option (\<lambda>(js, r). (JArr js, r)) (jv_read_list n s)
      else if c = CHR ''{'' then map_option (\<lambda>(kvs, r). (JObj kvs, r)) (jv_read_obj n s)
      else None)"
| "jv_read_list 0 _ = None"
| "jv_read_list (Suc n) s =
     (case s of
        [] \<Rightarrow> None
      | c # s' \<Rightarrow>
          if c = CHR '']'' then Some ([], s')
          else case jv_read n s' of
                 None \<Rightarrow> None
               | Some (j, r) \<Rightarrow> map_option (\<lambda>(js, r'). (j # js, r')) (jv_read_list n r))"
| "jv_read_obj 0 _ = None"
| "jv_read_obj (Suc n) s =
     (case s of
        [] \<Rightarrow> None
      | c # s' \<Rightarrow>
          if c = CHR ''}'' then Some ([], s')
          else case read_hex (fst (until_dot s')) of
                 None \<Rightarrow> None
               | Some k \<Rightarrow>
                   (case jv_read n (snd (until_dot s')) of
                      None \<Rightarrow> None
                    | Some (v, r) \<Rightarrow> map_option (\<lambda>(kvs, r'). ((k, v) # kvs, r')) (jv_read_obj n r)))"

definition jt_parse :: "string \<Rightarrow> jv res" where
  "jt_parse s =
     (case jv_read (Suc (length s)) s of Some (j, []) \<Rightarrow> Inr j | _ \<Rightarrow> Inl (Json_Exc ''parse_error''))"

definition jt_lib :: "jv json_lib" where
  "jt_lib = jv_lib\<lparr>json_dump := (\<lambda>j. Inr (jv_text j)), json_pretty := (\<lambda>j. Inr (jv_text j)),
     json_parse := jt_parse\<rparr>"

subsection \<open>The parser reads what the printer writes\<close>

lemma digits_no_dot:
  "CHR ''.'' \<notin> set (toHex d)" "CHR ''.'' \<notin> set (to_string n)"
proof -
  show "CHR ''.'' \<notin> set (toHex d)"
    using toHex_chars(1) [of "CHR ''.''" d] by (auto simp: is_digit_in_def digit_val_def)
  show "CHR ''.'' \<notin> set (to_string n)"
    using to_string_is_digits [of "CHR ''.''" n] by (auto simp: is_digit_in_def digit_val_def)
qed

lemma until_dot_app: "CHR ''.'' \<notin> set s \<Longrightarrow> until_dot (s @ CHR ''.'' # r) = (s, r)"
  by (induction s) (auto simp: until_dot_def)

lemma read_hex_text [simp]: "read_hex (toHex (bytes_of_string s)) = Some s"
  by (simp add: read_hex_def)

lemma jv_text_pos: "0 < length (jv_text j)"
  by (cases j rule: jv_text.cases) auto

lemma jv_read_text:
  "length (jv_text j) < n \<Longrightarrow> jv_read n (jv_text j @ r) = Some (j, r)"
proof (induction j arbitrary: n r rule: jv_text.induct)
  case (4 js)
  have list: "length (concat (map (\<lambda>j. '','' @ jv_text j) xs)) + 1 < k \<Longrightarrow> set xs \<subseteq> set js \<Longrightarrow>
     jv_read_list k (concat (map (\<lambda>j. '','' @ jv_text j) xs) @ CHR '']'' # r) = Some (xs, r)"
    for xs k
  proof (induction xs arbitrary: k)
    case Nil
    then show ?case by (cases k) auto
  next
    case (Cons x xs)
    then show ?case using "4.IH" [of x] jv_text_pos [of x] by (cases k) auto
  qed
  show ?case using 4(2) list [of js "n - 1"] by (cases n) auto
next
  case (5 kvs)
  let ?f = "\<lambda>kv. '','' @ toHex (bytes_of_string (fst kv)) @ ''.'' @ jv_text (snd kv)"
  have obj: "length (concat (map ?f xs)) + 1 < k \<Longrightarrow> set xs \<subseteq> set kvs \<Longrightarrow>
     jv_read_obj k (concat (map ?f xs) @ CHR ''}'' # r) = Some (xs, r)" for xs k
  proof (induction xs arbitrary: k)
    case Nil
    then show ?case by (cases k) auto
  next
    case (Cons x xs)
    then show ?case using "5.IH" [of x] jv_text_pos [of "snd x"]
      by (cases k) (auto simp: until_dot_app digits_no_dot)
  qed
  show ?case using 5(2) obj [of kvs "n - 1"] by (cases n) auto
qed (use strto_to_string in \<open>auto simp: until_dot_app digits_no_dot Suc_less_eq2\<close>)

lemma jv_text_no_nul: "CHR 0x00 \<notin> set (jv_text j)"
  by (induction j rule: jv_text.induct) auto

lemma jt_parse_text: "jt_parse (jv_text j) = Inr j"
  using jv_read_text [of j "Suc (length (jv_text j))" "[]"] by (simp add: jt_parse_def)

lemma jt_laws: "json_laws jt_lib"
proof -
  have "json_laws jt_lib = json_laws jv_lib"
    unfolding json_laws_def objlike_def jt_lib_def by simp
  then show ?thesis by (simp add: jv_laws)
qed

lemma jt_text_laws: "json_text_laws jt_lib"
  by (simp add: json_text_laws_def jt_lib_def jt_parse_text jv_text_no_nul)

end
