(* ===== verification/DC_Fixtures.thy ===== *)
theory DC_Fixtures
  imports DC_Reach DC_JsonText
begin

text \<open>
  The objects a started node wires together, and concrete ones the witnesses of the properties run on:
  the textual JSON library, the cryptography and digest of the repository's tests, a SQLite that gives
  integers back as they were bound, and a database with three empty tables.
\<close>

definition db_node_ok :: "sqlite \<Rightarrow> db node \<Rightarrow> bool" where
  "db_node_ok Q n = node_ok (chain_db_inv Q) message_db_inv (peer_db_inv Q) n"

subsection \<open>Concrete instances\<close>

definition lite :: sqlite where
  "lite = \<lparr> sq_open = (\<lambda>_. True), sq_errmsg = '''', sq_int = (\<lambda>s. s) \<rparr>"

lemma lite_timely [simp]: "db_timely lite b"
  by (simp add: db_timely_def lite_def)

lemma lite_ports [simp]: "port_column lite"
  by (simp add: port_column_def lite_def)

lemma lite_clock [simp]: "clock_ok (db_timely lite) now"
  by (simp add: clock_ok_def)

lemma xor_digest [simp]: "sha_len sha256_bytes"
  by (simp add: sha_len_def sha256_bytes_def)

definition tests_crypto :: ICrypto where
  "tests_crypto = XORCrypto word_of_nat"

lemma tests_crypto_meets: "icrypto tests_crypto xor_key_pair (\<lambda>k. k \<noteq> [])"
  unfolding tests_crypto_def by (rule xorc.icrypto_axioms)

definition alice_key :: string where "alice_key = toHex [7]"
definition bob_key :: string where "bob_key = toHex [42]"

definition alice :: user_peer where "alice = UserPeer ''127.0.0.1'' 8001 alice_key"
definition bob :: user_peer where "bob = UserPeer ''127.0.0.1'' 8002 bob_key"

definition alice_cfg :: config_data where
  "alice_cfg = [HOST \<mapsto> ''127.0.0.1'', PORT \<mapsto> ''8001'', PUBLIC_KEY \<mapsto> alice_key,
     PRIVATE_KEY \<mapsto> alice_key]"

definition hello :: text_message where
  "hello = TextMessage_create ''6f1c'' 1700000000000 alice bob ''hello''"

lemma fixture_keys [simp]:
  "text_keys tests_crypto xor_key_pair alice_key alice_key"
  "text_keys tests_crypto xor_key_pair bob_key bob_key"
  by (simp_all add: text_keys_def tests_crypto_def XORCrypto_def xor_key_pair_def alice_key_def
      bob_key_def)

lemma fixture_texts [simp]:
  "CHR 0x00 \<notin> set alice_key" "CHR 0x00 \<notin> set bob_key"
  by (simp_all add: alice_key_def bob_key_def)

lemma fixtures_simps [simp]:
  "publicKey alice = alice_key" "publicKey bob = bob_key" "alice_cfg PRIVATE_KEY = Some alice_key"
  "m_from hello = alice" "m_to hello = bob" "m_type hello = TEXT_MESSAGE" "m_text hello = ''hello''"
  by (simp_all add: alice_def bob_def UserPeer_def alice_cfg_def hello_def
      TextMessage_create_def TextMessage_def Message_def secret_message.defs text_message.defs
      message_ext_defs)

definition fresh_node :: "db node" where
  "fresh_node = \<lparr> n_store = fresh_db, n_peers = \<lparr> hosts = [], peers = [] \<rparr>, n_newBlocks = [],
     n_global = GlobalState \<rparr>"

lemma fresh_node_ok [simp]: "db_node_ok lite fresh_node" "n_store fresh_node = fresh_db"
  by (simp_all add: db_node_ok_def node_ok_def fresh_node_def peers_inv_def message_db_inv_def
      peer_db_inv_def) (simp_all add: fresh_db_def db_ready_def empty_table_def)

abbreviation alice_env :: "(db, jv) env" where
  "alice_env \<equiv> node_env jt_lib sha256_bytes tests_crypto alice_cfg
     (sort_key (\<lambda>m. unat (m_timestamp m))) lite"

subsection \<open>A chain of one block\<close>

text \<open>The block of \<open>hello\<close> on a fresh database, and the database once it is stored.\<close>

definition hello_block :: block where
  "hello_block =
     (case createBlockFromMessage sha256_bytes tests_crypto (ChainDB lite) alice_cfg hello Block fresh_db
      of Inl _ \<Rightarrow> Block | Inr b \<Rightarrow> b)"

lemma hello_block:
  "createBlockFromMessage sha256_bytes tests_crypto (ChainDB lite) alice_cfg hello Block fresh_db =
     Inr hello_block"
  "valid_block sha256_bytes tests_crypto hello_block" "previousHash hello_block = ''0''"
  "compareBlockWithMessage sha256_bytes tests_crypto hello_block hello = Inr None"
  "c_block hello_block = hello_block" "timestamp hello_block = m_timestamp hello"
proof -
  have "\<exists>b'. createBlockFromMessage sha256_bytes tests_crypto (ChainDB lite) alice_cfg hello Block fresh_db =
      Inr b' \<and> valid_block sha256_bytes tests_crypto b' \<and> previousHash b' = tip_hash (db_chain fresh_db) \<and>
      compareBlockWithMessage sha256_bytes tests_crypto b' hello = Inr None \<and>
      timestamp b' = m_timestamp hello \<and>
      (CHR 0x00 \<notin> set (publicKey (m_from hello)) \<longrightarrow> c_block b' = b')"
    unfolding tests_crypto_def
    by (rule bsv.createBlockFromMessage_valid [of lite fresh_db alice_cfg alice_key])
      (simp_all flip: tests_crypto_def)
  then show "createBlockFromMessage sha256_bytes tests_crypto (ChainDB lite) alice_cfg hello Block fresh_db =
     Inr hello_block"
  "valid_block sha256_bytes tests_crypto hello_block" "previousHash hello_block = ''0''"
  "compareBlockWithMessage sha256_bytes tests_crypto hello_block hello = Inr None"
  "c_block hello_block = hello_block" "timestamp hello_block = m_timestamp hello"
    by (auto simp: hello_block_def)
qed

definition hello_db :: db where
  "hello_db = (case insertBlock (ChainDB lite) hello_block fresh_db of Inl _ \<Rightarrow> fresh_db | Inr (_, d) \<Rightarrow> d)"

lemma hello_db [simp]:
  "insertBlock (ChainDB lite) hello_block fresh_db = Inr (True, hello_db)"
  "chain_db_inv lite hello_db" "db_chain hello_db = [hello_block]"
  "valid_chain sha256_bytes tests_crypto [hello_block]"
proof -
  obtain d where d: "insertBlock (ChainDB lite) hello_block fresh_db = Inr (True, d)" "chain_db_inv lite d"
    "db_chain d = [hello_block]"
    using cdb.insert [of lite fresh_db hello_block] by (auto simp: insert_ok_def hello_block(3,5))
  moreover from d(1) have "d = hello_db" by (simp add: hello_db_def)
  ultimately show "insertBlock (ChainDB lite) hello_block fresh_db = Inr (True, hello_db)"
    "chain_db_inv lite hello_db" "db_chain hello_db = [hello_block]" by simp_all
  show "valid_chain sha256_bytes tests_crypto [hello_block]"
    by (simp add: valid_chain_def hello_block)
qed

text \<open>A node without peers publishes it.\<close>

lemma publish_hello:
  "snd (store_and_broadcast alice_env (\<lambda>_ _. None) hello_block fresh_node) = fresh_node\<lparr>n_store := hello_db\<rparr>"
  by (simp add: store_and_broadcast_def act_simps storeAndBroadcastBlock_def jt_lib_def getPeers_def)
    (simp add: fresh_node_def)

lemma hello_node_ok [simp]: "db_node_ok lite (fresh_node\<lparr>n_store := hello_db\<rparr>)"
proof -
  have "node_step alice_env (db_timely lite) fresh_node (fresh_node\<lparr>n_store := hello_db\<rparr>)"
    using node_step.publish [of "db_timely lite" hello_block alice_env fresh_node "\<lambda>_ _. None"]
    by (simp add: publish_hello)
  from nst.step_invariant [OF this node_env_wired] fresh_node_ok(1) show ?thesis
    by (simp add: db_node_ok_def)
qed

subsection \<open>Facts the witnesses share\<close>

lemma alice_local [simp]: "local_peer alice_cfg = Inr alice"
proof -
  have p: "to_string 8001 = ''8001''"
    by (simp add: to_string.simps digit_char_def char_of_eq_iff take_bit_eq_mod)
  have "stoi (to_string 8001) = Inr (int 8001)" by (rule stoi_to_string) simp
  then have "stoi ''8001'' = Inr 8001" by (simp add: p)
  then show ?thesis
    by (simp add: local_peer_def alice_cfg_def config_get_def alice_def)
qed

lemma hello_time [simp]: "m_timestamp hello = 1700000000000"
  by (simp add: hello_def TextMessage_create_def TextMessage_def Message_def secret_message.defs
      text_message.defs message_ext_defs)

lemma hello_accepted [simp]: "accepts sha256_bytes tests_crypto 1700000000000 [] hello_block"
  by (simp add: accepts_def hello_block extends_tip_def)

lemma hello_hash [simp]: "hash hello_block \<noteq> ''0''" "c_str (hash hello_block) = hash hello_block"
  using valid_block_hash [OF hello_block(2)] valid_block_hash_clean [OF hello_block(2)] by simp_all

text \<open>Offering the block again fails: it does not extend itself.\<close>

lemma hello_again:
  "validateIncomingBlock sha256_bytes tests_crypto (ChainDB lite) 1700000000000 hello_block hello_db =
     Inr (Some ''Previous block not found in local chain'')"
proof -
  have "validateSingleBlock sha256_bytes tests_crypto hello_block = Inr None"
    by (simp add: validateSingleBlock_None hello_block)
  then show ?thesis
    by (simp add: validateIncomingBlock_def cdb.tip [OF hello_db(2)] cdb.find_hash [OF hello_db(2)]
        hello_block hello_hash(1) [symmetric])
qed

lemma jt_dump [simp]: "json_dump jt_lib j = Inr (jv_text j)"
  by (simp add: jt_lib_def)

subsection \<open>A block with a NUL\<close>

text \<open>Signed and hashed over a payload hash that is one NUL.\<close>

definition nul_draft :: block where
  "nul_draft = \<lparr> hash = '''', previousHash = ''0'', payloadHash = [CHR 0x00],
     authorPublicKey = alice_key, signature = '''', timestamp = 0 \<rparr>"

definition nul_block :: block where
  "nul_block = computeHash sha256_bytes (nul_draft\<lparr>signature :=
     toHex (sha256_bytes (7 # bytes_of_string (toStringForHash nul_draft)))\<rparr>)"

lemma nul_block_fields [simp]:
  "previousHash nul_block = ''0''" "timestamp nul_block = 0" "authorPublicKey nul_block = alice_key"
  "toStringForHash nul_block = toStringForHash nul_draft"
  "hash nul_block = sha256 sha256_bytes (toStringForHash nul_draft)"
  by (simp_all add: nul_block_def nul_draft_def toStringForHash_def)

lemma nul_block_accepted: "accepts sha256_bytes tests_crypto now [] nul_block"
proof -
  have "verifyBlockSignature tests_crypto nul_block = Inr True"
    by (simp add: verifyBlockSignature_def Let_def)
      (simp add: nul_block_def tests_crypto_def XORCrypto_def alice_key_def xor_verify_iff)
  then show ?thesis by (simp add: accepts_def valid_block_def extends_tip_def)
qed

lemma nul_block_changes:
  "sha256 sha256_bytes (toStringForHash (c_block nul_block)) \<noteq> hash nul_block"
proof -
  have k: "alice_key = ''07''"
    by (simp add: alice_key_def toHex_def hex_byte_def digit_char_def char_of_eq_iff take_bit_eq_mod)
  have z: "to_string 0 = ''0''"
    by (simp add: to_string.simps digit_char_def char_of_eq_iff take_bit_eq_mod)
  have c: "toStringForHash (c_block nul_block) = ''0||07|0''"
    and n: "toStringForHash nul_draft = ''0|'' @ [CHR 0x00] @ ''|07|0''"
    by (simp_all add: toStringForHash_def nul_block_def nul_draft_def k z c_str_def computeHash_def)
  have "sha256_bytes (bytes_of_string (toStringForHash (c_block nul_block))) ! 2 = 124"
    "sha256_bytes (bytes_of_string (toStringForHash nul_draft)) ! 2 = 0"
    unfolding c n by (simp_all add: bytes_of_string_def sha256_bytes_def numeral_2_eq_2)
  then have "sha256_bytes (bytes_of_string (toStringForHash (c_block nul_block))) \<noteq>
      sha256_bytes (bytes_of_string (toStringForHash nul_draft))" by auto
  then show ?thesis by (simp add: sha256_def toHex_inj)
qed

subsection \<open>A message stored with its block\<close>

lemma fresh_messages [simp]: "message_db_inv fresh_db" "db_messages fresh_db = []"
  using fresh_node_ok by (simp_all add: db_node_ok_def node_ok_def db_messages_def message_rows_def
      fresh_db_def empty_table_def)

definition hello_kept :: text_message where
  "hello_kept = TextMessage_setBlockHash (hash hello_block) hello"

definition kept_db :: db where
  "kept_db = (case MessageDB_insertSecretMessage lite hello_kept ''{}'' (hash hello_block) hello_db of
     Inl _ \<Rightarrow> hello_db | Inr (_, d) \<Rightarrow> d)"

lemma kept_db [simp]:
  "chain_db_inv lite kept_db" "db_chain kept_db = [hello_block]" "message_db_inv kept_db"
  "db_messages kept_db = [stored hello_kept ''{}'' (hash hello_block)]"
proof -
  obtain t where t: "hello_db = fresh_db\<lparr>db_data := (db_data fresh_db)\<lparr>blocks_t := t\<rparr>\<rparr>"
    using chain_frame_db [of lite hello_block fresh_db True hello_db] hello_db(1)
    by (auto simp: ChainDB_def)
  have m: "message_db_inv hello_db" "db_messages hello_db = []"
    by (subst t, simp)+
  obtain d where d: "MessageDB_insertSecretMessage lite hello_kept ''{}'' (hash hello_block) hello_db =
      Inr (True, d)" "message_db_inv d" "db_messages d = [stored hello_kept ''{}'' (hash hello_block)]"
    using MessageDB_insert [OF m(1), of lite hello_kept "''{}''" "hash hello_block"] by (auto simp: m(2))
  then have k: "d = kept_db" by (simp add: kept_db_def)
  from d(1) have "chain_db_inv lite d = chain_db_inv lite hello_db \<and> db_chain d = db_chain hello_db"
    by (auto simp: MessageDB_insertSecretMessage_def dest!: message_frame_db [OF _ sql_writes(2)])
  with d k show "chain_db_inv lite kept_db" "db_chain kept_db = [hello_block]" "message_db_inv kept_db"
    "db_messages kept_db = [stored hello_kept ''{}'' (hash hello_block)]" by simp_all
qed

lemma hello_kept [simp]:
  "m_id hello_kept = ''6f1c''" "m_blockHash hello_kept = hash hello_block"
  "m_text hello_kept = ''hello''" "block_matches sha256_bytes hello_block hello_kept"
proof -
  have "block_matches sha256_bytes hello_block hello"
    using compareBlockWithMessage_valid [of tests_crypto hello_block sha256_bytes hello] hello_block(2,4)
    by (auto simp: valid_block_def)
  then show "block_matches sha256_bytes hello_block hello_kept"
    by (simp add: block_matches_def hello_kept_def TextMessage_setBlockHash_def)
qed (simp_all add: hello_kept_def TextMessage_setBlockHash_def hello_def TextMessage_create_def
    TextMessage_def Message_def secret_message.defs text_message.defs message_ext_defs)

subsection \<open>Sizes of texts\<close>

text \<open>The texts of the fixtures are far below the size of the buffers.\<close>

lemma length_to_string_le: "n < 10 ^ k \<Longrightarrow> 0 < k \<Longrightarrow> length (to_string n) \<le> k"
proof (induction k arbitrary: n)
  case (Suc k)
  show ?case
  proof (cases "n < 10")
    case False
    then have "n div 10 < 10 ^ k" "0 < k" using Suc.prems by (auto intro: gr0I)
    then have "length (to_string (n div 10)) \<le> k" using Suc.IH by simp
    then show ?thesis using False by (subst to_string.simps) simp
  qed (simp add: to_string.simps)
qed simp

lemma length_word64_text: "length (to_string (unat (n :: u64))) \<le> 20"
  using unat_u64_bound [of n] by (intro length_to_string_le) simp_all

lemma jv_string_length [simp]:
  "length (jv_text (JStr s)) = 2 * length s + 2"
  by (simp add: bytes_of_string_def)

lemma created_sizes:
  assumes "createBlockFromMessage sha256_bytes tests_crypto R cfg m b0 s = Inr b"
  shows "length (payloadHash b) = 64" "length (signature b) = 64" "authorPublicKey b = publicKey (m_from m)"
  using assms xor_digest sha256_length [OF xor_digest]
  by (auto simp: createBlockFromMessage_def Let_def tests_crypto_def XORCrypto_def xor_sign_def sha_len_def)


lemma jv_nodes [simp]:
  "json_null jt_lib = JNull" "json_of_string jt_lib = JStr" "json_of_uint jt_lib = JNum"
  "json_array jt_lib = JArr" "json_set jt_lib = jv_set" "json_ref jt_lib = jv_ref"
  by (simp_all add: jt_lib_def jv_lib_def)

lemma hello_text: "length (jv_text (Block_toJson jt_lib hello_block)) \<le> 800"
proof -
  have "length (hash hello_block) = 64" "length (payloadHash hello_block) = 64"
    "length (signature hello_block) = 64" "authorPublicKey hello_block = alice_key"
    using hello_block(2) sha256_length [OF xor_digest] created_sizes [OF hello_block(1)]
    by (simp_all add: valid_block_def)
  then show ?thesis
    using length_word64_text [of "timestamp hello_block"]
    by (simp add: Block_toJson_def Let_def hello_block(3) alice_key_def)
qed

lemma peer_texts: "length (jv_text (UserPeer_toJson jt_lib alice)) \<le> 200" "length (jv_text (UserPeer_toJson jt_lib bob)) \<le> 200"
  using length_to_string_le [of 8001 4] length_to_string_le [of 8002 4]
  by (simp_all add: UserPeer_toJson_def Let_def alice_def bob_def UserPeer_def alice_key_def bob_key_def)

lemma base_text:
  fixes m :: "'a message_scheme"
  assumes "m_from m \<in> {alice, bob}" "m_to m \<in> {alice, bob}" "length (m_id m) \<le> 36"
  shows "length (jv_text (getBasicSerialization jt_lib m)) \<le> 800"
  using assms peer_texts length_word64_text [of "m_timestamp m"]
  by (cases "m_type m") (auto simp: getBasicSerialization_def Let_def)

lemma concat_filter_length: "length (concat (map f (filter P xs))) \<le> length (concat (map f xs))"
  by (induction xs) simp_all

lemma jv_set_length: "length (jv_text (jv_set j k v)) \<le> length (jv_text j) + 2 * length k + length (jv_text v) + 3"
  by (cases j) (auto simp: bytes_of_string_def intro: le_SucI concat_filter_length)

lemma jv_ref_length: "length (jv_text (jv_ref j k)) \<le> length (jv_text j)"
proof (cases "map_of (jv_fields j) k")
  case (Some v)
  then obtain kvs where j: "j = JObj kvs" "(k, v) \<in> set kvs"
    by (cases j) (auto dest: map_of_SomeD)
  then obtain xs ys where "kvs = xs @ (k, v) # ys" by (auto dest: split_list)
  then show ?thesis using Some by (simp add: jv_ref_def j(1))
qed (use jv_text_pos [of j] in \<open>simp add: jv_ref_def Suc_le_eq\<close>)

lemma payload_text:
  "length (jv_text (set_payload jt_lib j k v)) \<le> 2 * length (jv_text j) + 2 * length k + length (jv_text v) + 20"
  using jv_set_length [of j "''payload''" "jv_set (jv_ref j ''payload'') k v"]
    jv_set_length [of "jv_ref j ''payload''" k v] jv_ref_length [of j "''payload''"]
  by (simp add: set_payload_def)

end
