(* ===== verification/DC_Sockets.thy ===== *)
theory DC_Sockets
  imports DC_Network
begin

text \<open>
  \<open>network::SocketClient\<close> and \<open>network::SocketServer\<close> (src/service/network/SocketClient.cpp,
  SocketServer.cpp) as state machines. What a Windows socket call returns is an argument; a socket is
  open or \<open>INVALID_SOCKET\<close>. \<open>wsa\<close> counts the \<open>WSAStartup\<close> calls not yet undone by \<open>WSACleanup\<close>.
\<close>

subsection \<open>SocketClient\<close>

record socket_client =
  sc_open :: bool            \<comment> \<open>\<open>clientSocket != INVALID_SOCKET\<close>\<close>
  sc_initialized :: bool
  sc_connected :: bool

type_synonym wsa = nat

definition ensureInitialized :: "bool \<Rightarrow> socket_client \<times> wsa \<Rightarrow> (socket_client \<times> wsa) res" where
  "ensureInitialized startup_ok = (\<lambda>(c, w).
     if \<not> sc_initialized c then
       if \<not> startup_ok then Inl (Std_Exc ''Failed to initialize Winsock'')
       else Inr (c\<lparr>sc_initialized := True\<rparr>, Suc w)
     else Inr (c, w))"

definition no_client :: socket_client where
  "no_client = \<lparr> sc_open = False, sc_initialized = False, sc_connected = False \<rparr>"

definition SocketClient :: "bool \<Rightarrow> wsa \<Rightarrow> (socket_client \<times> wsa) res" where
  "SocketClient startup_ok w = ensureInitialized startup_ok (no_client, w)"

definition client_disconnect :: "socket_client \<Rightarrow> socket_client" where
  "client_disconnect c = c\<lparr>sc_open := False, sc_connected := False\<rparr>"

text \<open>The results of \<open>socket\<close>, \<open>inet_pton\<close> (on the host up to its first NUL) and \<open>connect\<close>.\<close>

record connect_env =
  ce_startup :: bool
  ce_socket :: bool
  ce_pton :: "string \<Rightarrow> bool"
  ce_connect :: "string \<Rightarrow> u16 \<Rightarrow> bool"

definition connectTo ::
  "connect_env \<Rightarrow> string \<Rightarrow> u16 \<Rightarrow> socket_client \<times> wsa \<Rightarrow> (bool \<times> socket_client \<times> wsa) res" where
  "connectTo e toHost toPort = (\<lambda>(c, w).
     bnd (ensureInitialized (ce_startup e) (client_disconnect c, w)) (\<lambda>(c, w).
       if \<not> ce_socket e then Inr (False, c\<lparr>sc_open := False\<rparr>, w)
       else
         let c = c\<lparr>sc_open := True\<rparr> in
         if \<not> ce_pton e (c_str toHost) then Inr (False, c\<lparr>sc_open := False\<rparr>, w)
         else if \<not> ce_connect e (c_str toHost) toPort
         then Inr (False, c\<lparr>sc_open := False, sc_connected := False\<rparr>, w)
         else Inr (True, c\<lparr>sc_connected := True\<rparr>, w)))"

definition client_sendMessage :: "bool \<Rightarrow> string \<Rightarrow> socket_client \<Rightarrow> bool" where
  "client_sendMessage send_ok message c = (if \<not> sc_connected c then False else send_ok)"

text \<open>\<open>k\<close> bytes of \<open>sent\<close> have arrived; \<open>recv\<close> gives 0 at the end of the stream or an error.\<close>

definition client_receiveMessage :: "nat \<Rightarrow> string \<Rightarrow> socket_client \<Rightarrow> (string \<times> socket_client) res" where
  "client_receiveMessage k sent c =
     (if \<not> sc_connected c then Inl (Std_Exc ''Not connected to server'')
      else if take (min k (BUFFER_SIZE - 1)) sent = '''' then Inr ('''', c\<lparr>sc_connected := False\<rparr>)
      else Inr (receiveMessage k sent, c))"

text \<open>The destructor.\<close>

definition client_destroy :: "socket_client \<times> wsa \<Rightarrow> wsa" where
  "client_destroy = (\<lambda>(c, w). if sc_initialized c then w - 1 else w)"

text \<open>The move constructor and the move assignment: the new object and what is left of the source.\<close>

definition client_move :: "socket_client \<Rightarrow> socket_client \<times> socket_client" where
  "client_move other = (other, no_client)"

definition client_move_assign :: "socket_client \<Rightarrow> socket_client \<Rightarrow> socket_client \<times> socket_client" where
  "client_move_assign this other =
     (let c = client_disconnect this in
      (c\<lparr>sc_open := sc_open other, sc_initialized := sc_initialized other,
         sc_connected := sc_connected other\<rparr>, no_client))"

text \<open>A connected client has an open socket on an initialized library.\<close>

definition client_inv :: "socket_client \<Rightarrow> bool" where
  "client_inv c \<longleftrightarrow> (sc_connected c \<longrightarrow> sc_open c \<and> sc_initialized c)"

lemma connectTo_inv:
  assumes "connectTo e h p (c, w) = Inr (ok, c', w')"
  shows "client_inv c' \<and> sc_initialized c' \<and> sc_connected c' = ok \<and> sc_open c' = ok \<and>
    w' = (if sc_initialized c then w else Suc w)"
  using assms
  by (auto simp: connectTo_def client_disconnect_def ensureInitialized_def client_inv_def Let_def
      split: if_splits)

lemma client_inv_simps [simp]:
  "client_inv no_client" "client_inv (client_disconnect c)"
  "client_inv c \<Longrightarrow> client_inv (fst (client_move c))" "client_inv (snd (client_move c))"
  "client_inv d \<Longrightarrow> client_inv (fst (client_move_assign c d))" "client_inv (snd (client_move_assign c d))"
  by (simp_all add: client_inv_def no_client_def client_disconnect_def client_move_def
      client_move_assign_def Let_def)

text \<open>
  A local client that is constructed, connected and destroyed leaves the count of \<open>WSAStartup\<close> as it
  was.
\<close>

lemma client_scope_balanced:
  assumes "SocketClient ok w = Inr (c, w1)" "connectTo e h p (c, w1) = Inr (r, c', w')"
  shows "client_destroy (c', w') = w"
  using assms connectTo_inv [OF assms(2)]
  by (auto simp: SocketClient_def ensureInitialized_def no_client_def client_destroy_def split: if_splits)

text \<open>
  An assignment to an initialized client forgets one of the two \<open>WSAStartup\<close>s: destroying both objects
  undoes only one.
\<close>

lemma move_assign_leaks:
  assumes "sc_initialized a" "sc_initialized b"
  shows "client_destroy (snd (client_move_assign a b), client_destroy (fst (client_move_assign a b), w)) =
    w - 1"
  using assms by (simp add: client_move_assign_def Let_def client_destroy_def no_client_def
      client_disconnect_def)

subsection \<open>A free port\<close>

text \<open>
  \<open>SocketClient::findFreePort\<close>: the results of the five socket calls; what is left over is the pair of
  the \<open>WSAStartup\<close> count and the number of open sockets.
\<close>

record find_env =
  fe_startup :: bool
  fe_socket :: bool
  fe_bind :: bool
  fe_getsockname :: bool
  fe_port :: u16            \<comment> \<open>\<open>ntohs(boundAddr.sin_port)\<close>\<close>

definition findFreePort :: "find_env \<Rightarrow> wsa \<times> nat \<Rightarrow> u16 res \<times> wsa \<times> nat" where
  "findFreePort e = (\<lambda>(w, open_sockets).
     if \<not> fe_startup e then (Inl (Std_Exc ''WSAStartup failed''), w, open_sockets)
     else
       let w = w + 1 in
       if \<not> fe_socket e then (Inl (Std_Exc ''Failed to create socket''), w - 1, open_sockets)
       else
         let open_sockets = open_sockets + 1 in
         if \<not> fe_bind e then (Inl (Std_Exc ''Bind failed''), w - 1, open_sockets - 1)
         else if \<not> fe_getsockname e
         then (Inl (Std_Exc ''getsockname failed''), w - 1, open_sockets - 1)
         else (Inr (fe_port e), w - 1, open_sockets - 1))"

lemma findFreePort_balanced: "snd (findFreePort e r) = r"
  by (cases r) (simp add: findFreePort_def Let_def)

subsection \<open>SocketServer\<close>

record socket_server =
  ss_open :: bool          \<comment> \<open>\<open>listenSocket != INVALID_SOCKET\<close>\<close>
  ss_listening :: bool     \<comment> \<open>\<open>isListening\<close>\<close>
  ss_port :: u16

text \<open>The constructor, with the results of \<open>WSAStartup\<close>, \<open>socket\<close> and \<open>bind\<close>.\<close>

definition SocketServer :: "bool \<Rightarrow> bool \<Rightarrow> bool \<Rightarrow> u16 \<Rightarrow> wsa \<Rightarrow> socket_server res \<times> wsa" where
  "SocketServer startup_ok socket_ok bind_ok p w =
     (if \<not> startup_ok then (Inl (Std_Exc ''Failed to initialize Winsock''), w)
      else
        let w = w + 1 in
        if \<not> socket_ok then (Inl (Std_Exc ''Failed to create socket''), w - 1)
        else if \<not> bind_ok then (Inl (Std_Exc ''Failed to bind socket''), w - 1)
        else (Inr \<lparr> ss_open = True, ss_listening = False, ss_port = p \<rparr>, w))"

definition server_stop :: "socket_server \<Rightarrow> socket_server" where
  "server_stop v = v\<lparr>ss_listening := False\<rparr>"

text \<open>The destructor, the move constructor and the move assignment.\<close>

definition server_destroy :: "socket_server \<Rightarrow> wsa \<Rightarrow> wsa" where
  "server_destroy v w = w - 1"

definition server_move :: "socket_server \<Rightarrow> socket_server \<times> socket_server" where
  "server_move other = (other, other\<lparr>ss_open := False, ss_listening := False\<rparr>)"

definition server_move_assign :: "socket_server \<Rightarrow> socket_server \<Rightarrow> socket_server \<times> socket_server" where
  "server_move_assign this other =
     ((server_stop this)\<lparr>ss_open := ss_open other, ss_port := ss_port other, ss_listening := ss_listening other\<rparr>,
      other\<lparr>ss_open := False, ss_listening := False\<rparr>)"

definition server_getPort :: "socket_server \<Rightarrow> u16" where
  "server_getPort v = ss_port v"

text \<open>
  A server that is constructed and destroyed, or cannot be constructed, leaves the count of
  \<open>WSAStartup\<close> as it was; once it has been moved, its destruction undoes the \<open>WSAStartup\<close> the new
  object still needs.
\<close>

lemma server_scope_balanced:
  "case SocketServer a b c p w of (Inl _, w') \<Rightarrow> w' = w | (Inr v, w') \<Rightarrow> server_destroy v w' = w"
  by (simp add: SocketServer_def server_destroy_def Let_def)

lemma moved_server_unbalanced:
  assumes "SocketServer True True True p w = (Inr v, w')" "server_move v = (new, old)"
  shows "ss_open new \<and> server_destroy old w' = w"
  using assms by (auto simp: SocketServer_def server_move_def server_destroy_def)

text \<open>\<open>startAsync\<close> starts a thread and detaches it; the thread sets the flag once it listens.\<close>

definition startAsync :: "socket_server \<Rightarrow> bool" where
  "startAsync v \<longleftrightarrow> \<not> ss_listening v"

text \<open>The server of the chat owns one such socket and shares the services, which are the environment.\<close>

definition TCPServer :: "bool \<Rightarrow> bool \<Rightarrow> bool \<Rightarrow> u16 \<Rightarrow> wsa \<Rightarrow> socket_server res \<times> wsa" where [simp]:
  "TCPServer startup_ok socket_ok bind_ok p w = SocketServer startup_ok socket_ok bind_ok p w"

definition TCPServer_start :: "socket_server \<Rightarrow> unit res" where
  "TCPServer_start v =
     (if startAsync v then Inr () else Inl (Std_Exc ''Failed to start server''))"

text \<open>
  What the thread meets: a call of \<open>stop\<close> on another thread while it waits in \<open>accept\<close>, or the return of
  \<open>accept\<close>: it fails, or a client has sent a text of which \<open>k\<close> bytes have arrived. The flag of \<open>Incoming\<close>
  says that \<open>stop\<close> was called during that turn.
\<close>

datatype accepted = Accept_Failed | Accepted nat string

datatype server_event = Stop_Called | Incoming request_env accepted bool

text \<open>
  The loop over the connections: the answers, in order. The flag is read once per turn and not while
  the thread waits in \<open>accept\<close>. The handler is that of \<open>TCPServer::start\<close>, with the clock and
  identifiers of each request.
\<close>

fun listen_loop :: "('s, 'j) env \<Rightarrow> bool \<Rightarrow> server_event list \<Rightarrow> ('s node, string option list) act" where
  "listen_loop E flag [] = ret []"
| "listen_loop E flag (Stop_Called # es) = listen_loop E False es"
| "listen_loop E flag (Incoming q a stopped # es) =
     (let flag = (flag \<and> \<not> stopped);
          next_turn = (if flag then listen_loop E flag es else ret [])
      in case a of
           Accept_Failed \<Rightarrow> next_turn
         | Accepted k sent \<Rightarrow>
             (case server_recv k sent of
                None \<Rightarrow> next_turn
              | Some buffer \<Rightarrow>
                  seq (onMessage E q buffer) (\<lambda>answer.
                  seq next_turn (\<lambda>answers. ret (answer # answers)))))"

text \<open>
  The body of the thread. If the handler throws, the flag is cleared and the exception leaves the
  thread; so does the one of a failed \<open>listen\<close>.
\<close>

definition listenMessages ::
  "('s, 'j) env \<Rightarrow> bool \<Rightarrow> server_event list \<Rightarrow> socket_server \<Rightarrow> ('s node, string option list \<times> socket_server) act" where
  "listenMessages E listen_ok es v =
     (if \<not> listen_ok then lift (Inl (Std_Exc ''Failed to listen on socket''))
      else
        handle (seq (listen_loop E True es) (\<lambda>answers.
            ret (answers, v\<lparr>ss_listening := list_all (\<lambda>e. case e of Stop_Called \<Rightarrow> False | Incoming _ _ s \<Rightarrow> \<not> s) es\<rparr>)))
          (\<lambda>_. lift (Inl (Std_Exc ''Failed to handle message''))))"

text \<open>The texts the loop hands to the handler when nobody stops it.\<close>

definition requests :: "(request_env \<times> accepted) list \<Rightarrow> (request_env \<times> string) list" where
  "requests cs = List.map_filter (\<lambda>(q, a). case a of Accept_Failed \<Rightarrow> None
     | Accepted k sent \<Rightarrow> map_option (\<lambda>b. (q, b)) (server_recv k sent)) cs"

lemma requests_simps [simp]:
  "requests [] = []" "requests ((q, Accept_Failed) # cs) = requests cs"
  "requests ((q, Accepted k sent) # cs) =
     (case server_recv k sent of None \<Rightarrow> requests cs | Some b \<Rightarrow> (q, b) # requests cs)"
  by (simp_all add: requests_def List.map_filter_simps split: option.split)

text \<open>The handler never throws a C++ exception, so no request stops the server.\<close>

lemma onMessage_total: "\<exists>a n'. onMessage E q raw n = (Inr a, n') \<or> onMessage E q raw n = (Inl Undefined, n')"
proof -
  obtain r n' where r: "seq (serve E q raw) (\<lambda>r. ret (Some r)) n = (r, n')"
    by (cases "seq (serve E q raw) (\<lambda>r. ret (Some r)) n")
  then show ?thesis
    by (cases r) (auto simp: onMessage_def handle_def ret_def)
qed

lemma listen_loop_answers:
  "fst (listen_loop E True (map (\<lambda>(q, a). Incoming q a False) cs) n) = Inr as \<Longrightarrow> length as = length (requests cs)"
proof (induction cs arbitrary: n as)
  case (Cons c cs)
  obtain q a where c: "c = (q, a)" by (cases c)
  show ?case
  proof (cases a)
    case (Accepted k sent)
    show ?thesis
    proof (cases "server_recv k sent")
      case (Some b)
      then obtain x n' as' where "onMessage E q b n = (Inr x, n')"
        "fst (listen_loop E True (map (\<lambda>(q, a). Incoming q a False) cs) n') = Inr as'" "as = x # as'"
        using Cons.prems c Accepted by (auto simp: seq_def ret_def split: prod.splits sum.splits)
      with Cons.IH Some c Accepted show ?thesis by auto
    qed (use Cons c Accepted in auto)
  qed (use Cons c in auto)
qed (auto simp: ret_def)

text \<open>A stopped server serves the connection it is waiting for, and only that one.\<close>

lemma stopped_serves_one:
  assumes "server_recv k sent = Some raw"
  shows "listen_loop E True (Stop_Called # Incoming q (Accepted k sent) s # es) n =
    seq (onMessage E q raw) (\<lambda>answer. ret [answer]) n"
  using assms by (simp add: seq_def ret_def Let_def split: prod.split sum.split)

end
