(* ===== verification/DC_ConsoleUI.thy ===== *)
theory DC_ConsoleUI
  imports DC_Prelude
begin

text \<open>
  \<open>ui::ConsoleUI\<close> (src/ui/cli/ConsoleUI.hpp, ConsoleUI.cpp): the line editor and the command history.
  The record holds the fields of the class the keys work on and the local \<open>input\<close> of the input
  thread. What is drawn on the console (the Windows calls) is not modelled.
\<close>

definition MAX_HISTORY_SIZE :: nat where
  "MAX_HISTORY_SIZE = 100"

record console =
  running :: bool
  currentInput :: string
  commandHistory :: "string list"
  historyIndex :: nat
  cursorPosition :: nat
  con_input :: string       \<comment> \<open>\<open>std::string input\<close> of \<open>startInputLoop\<close>\<close>

definition ConsoleUI :: console where
  "ConsoleUI = \<lparr> running = False, currentInput = '''', commandHistory = [], historyIndex = 0,
     cursorPosition = 0, con_input = '''' \<rparr>"

definition addToHistory :: "string \<Rightarrow> console \<Rightarrow> console" where
  "addToHistory command u =
     (if command = '''' then u
      else if commandHistory u \<noteq> [] \<and> last (commandHistory u) = command then u
      else
        let h = commandHistory u @ [command];
            h = (if length h > MAX_HISTORY_SIZE then tl h else h)
        in u\<lparr>commandHistory := h, historyIndex := length h\<rparr>)"

text \<open>Both directions put the recalled line into \<open>input\<close> with the cursor at its end.\<close>

definition recall :: "string \<Rightarrow> console \<Rightarrow> console" where
  "recall s u = u\<lparr>con_input := s, currentInput := s, cursorPosition := length s\<rparr>"

definition navigateHistoryUp :: "console \<Rightarrow> console" where
  "navigateHistoryUp u =
     (if commandHistory u = [] then u
      else if historyIndex u > 0 then
        let i = historyIndex u - 1 in recall (commandHistory u ! i) (u\<lparr>historyIndex := i\<rparr>)
      else u)"

definition navigateHistoryDown :: "console \<Rightarrow> console" where
  "navigateHistoryDown u =
     (if commandHistory u = [] then u
      else if historyIndex u < length (commandHistory u) then
        let i = historyIndex u + 1; u = u\<lparr>historyIndex := i\<rparr>
        in if i \<ge> length (commandHistory u) then recall '''' u
           else recall (commandHistory u ! i) u
      else u)"

text \<open>\<open>std::string::erase(pos, 1)\<close> and \<open>insert(pos, 1, ch)\<close>: a position past the end throws.\<close>

definition str_erase :: "nat \<Rightarrow> string \<Rightarrow> string res" where
  "str_erase pos s =
     (if pos > length s then Inl (Out_Of_Range ''basic_string'')
      else Inr (take pos s @ drop (Suc pos) s))"

definition str_insert :: "nat \<Rightarrow> char \<Rightarrow> string \<Rightarrow> string res" where
  "str_insert pos c s =
     (if pos > length s then Inl (Out_Of_Range ''basic_string'')
      else Inr (take pos s @ c # drop pos s))"

text \<open>\<open>ch\<close> is a signed \<open>char\<close>: codes from 128 on are negative and ignored.\<close>

definition handleKeyPress :: "nat \<Rightarrow> console \<Rightarrow> console res" where
  "handleKeyPress ch u =
     (if ch = 8 \<or> ch = 127 then
        if con_input u \<noteq> '''' \<and> cursorPosition u > 0 then
          bnd (str_erase (cursorPosition u - 1) (con_input u)) (\<lambda>s.
            Inr (u\<lparr>con_input := s, cursorPosition := cursorPosition u - 1, currentInput := s\<rparr>))
        else Inr u
      else if ch \<ge> 32 \<and> ch \<le> 126 then
        bnd (str_insert (cursorPosition u) (char_of ch) (con_input u)) (\<lambda>s.
          Inr (u\<lparr>con_input := s, cursorPosition := cursorPosition u + 1, currentInput := s\<rparr>))
      else Inr u)"

definition handleExtendedKey :: "nat \<Rightarrow> console \<Rightarrow> console res" where
  "handleExtendedKey extendedCode u =
     (if extendedCode = 72 then Inr (navigateHistoryUp u)
      else if extendedCode = 80 then Inr (navigateHistoryDown u)
      else if extendedCode = 75 then
        Inr (if cursorPosition u > 0 then u\<lparr>cursorPosition := cursorPosition u - 1\<rparr> else u)
      else if extendedCode = 77 then
        Inr (if cursorPosition u < length (con_input u)
             then u\<lparr>cursorPosition := cursorPosition u + 1\<rparr> else u)
      else if extendedCode = 71 then Inr (u\<lparr>cursorPosition := 0\<rparr>)
      else if extendedCode = 79 then Inr (u\<lparr>cursorPosition := length (con_input u)\<rparr>)
      else if extendedCode = 83 then
        if cursorPosition u < length (con_input u) then
          bnd (str_erase (cursorPosition u) (con_input u)) (\<lambda>s.
            Inr (u\<lparr>con_input := s, currentInput := s\<rparr>))
        else Inr u
      else Inr u)"

text \<open>What \<open>_getch\<close> reads: a code, or the prefix of an extended key with the code that follows it.\<close>

datatype keypress = Code nat | Extended nat | Prefix_Only

text \<open>
  One turn of the input loop: the new state and the line handed to the handler, if Enter ended one.
  \<open>stops\<close> says for which lines the handler calls \<open>stop()\<close>.
\<close>

definition input_turn :: "(string \<Rightarrow> bool) \<Rightarrow> keypress \<Rightarrow> console \<Rightarrow> (string option \<times> console) res" where
  "input_turn stops k u =
     (case k of
        Code ch \<Rightarrow>
          if ch = 13 \<or> ch = 10 then
            let (line, u) =
                  (if con_input u \<noteq> '''' then
                     let inputCopy = con_input u;
                         u = addToHistory inputCopy u;
                         u = u\<lparr>con_input := '''', currentInput := '''', cursorPosition := 0\<rparr>;
                         u = u\<lparr>historyIndex := length (commandHistory u)\<rparr>
                     in (Some inputCopy, if stops inputCopy then u\<lparr>running := False\<rparr> else u)
                   else (None, u))
            in Inr (line, if running u then u\<lparr>cursorPosition := 0\<rparr> else u)
          else bnd (handleKeyPress ch u) (\<lambda>u. Inr (None, u))
      | Extended code \<Rightarrow> bnd (handleExtendedKey code u) (\<lambda>u. Inr (None, u))
      | Prefix_Only \<Rightarrow> Inr (None, u))"

definition startInputLoop :: "console \<Rightarrow> console" where
  "startInputLoop u = u\<lparr>running := True, con_input := '''', cursorPosition := 0,
     historyIndex := length (commandHistory u)\<rparr>"

definition setCurrentInput :: "string \<Rightarrow> console \<Rightarrow> console" where
  "setCurrentInput s u = u\<lparr>currentInput := s\<rparr>"

definition console_stop :: "console \<Rightarrow> console" where
  "console_stop u = (if running u then u\<lparr>running := False\<rparr> else u)"

text \<open>The loop over a sequence of keys, while \<open>running\<close>: the lines it hands over.\<close>

fun input_loop :: "(string \<Rightarrow> bool) \<Rightarrow> keypress list \<Rightarrow> console \<Rightarrow> (string list \<times> console) res" where
  "input_loop stops [] u = Inr ([], u)"
| "input_loop stops (k # ks) u =
     (if running u then
        bnd (input_turn stops k u) (\<lambda>(line, u').
        bnd (input_loop stops ks u') (\<lambda>(lines, u'').
          Inr ((case line of None \<Rightarrow> lines | Some l \<Rightarrow> l # lines), u'')))
      else Inr ([], u))"

subsection \<open>The invariant of the editor\<close>

definition printable :: "string \<Rightarrow> bool" where
  "printable s \<longleftrightarrow> (\<forall>c \<in> set s. 32 \<le> (of_char c :: nat) \<and> (of_char c :: nat) \<le> 126)"

lemma printable_parts:
  "printable s \<Longrightarrow> printable (take n s)" "printable s \<Longrightarrow> printable (drop n s)"
  by (auto simp: printable_def dest: in_set_takeD in_set_dropD)

lemma printable_append [simp]: "printable (s @ t) \<longleftrightarrow> printable s \<and> printable t"
  by (auto simp: printable_def)

lemma printable_Cons [simp]:
  "printable (c # s) \<longleftrightarrow> 32 \<le> (of_char c :: nat) \<and> (of_char c :: nat) \<le> 126 \<and> printable s"
  and printable_Nil [simp]: "printable []"
  by (auto simp: printable_def)

text \<open>
  The cursor is within the line, the index within the history, the history is bounded and holds no
  empty line and no line twice in a row.
\<close>

definition console_inv :: "console \<Rightarrow> bool" where
  "console_inv u \<longleftrightarrow> cursorPosition u \<le> length (con_input u) \<and>
     historyIndex u \<le> length (commandHistory u) \<and> length (commandHistory u) \<le> MAX_HISTORY_SIZE \<and>
     printable (con_input u) \<and> (\<forall>l \<in> set (commandHistory u). l \<noteq> '''' \<and> printable l) \<and>
     distinct_adj (commandHistory u)"

lemma ConsoleUI_inv [simp]: "console_inv ConsoleUI"
  by (simp add: console_inv_def ConsoleUI_def printable_def)

lemma startInputLoop_inv: "console_inv u \<Longrightarrow> console_inv (startInputLoop u)"
  by (simp add: console_inv_def startInputLoop_def printable_def)

lemma addToHistory_fields [simp]:
  "con_input (addToHistory c u) = con_input u" "cursorPosition (addToHistory c u) = cursorPosition u"
  "running (addToHistory c u) = running u"
  by (simp_all add: addToHistory_def Let_def)

lemma addToHistory_history:
  "commandHistory (addToHistory c u) =
     (if c = '''' \<or> (commandHistory u \<noteq> [] \<and> last (commandHistory u) = c) then commandHistory u
      else if length (commandHistory u) \<ge> MAX_HISTORY_SIZE then tl (commandHistory u) @ [c]
      else commandHistory u @ [c])"
  by (cases "commandHistory u") (simp_all add: addToHistory_def Let_def MAX_HISTORY_SIZE_def)

lemma addToHistory_inv:
  assumes "console_inv u" "printable c"
  shows "console_inv (addToHistory c u)"
proof -
  have "distinct_adj (tl (commandHistory u))"
    using assms(1) by (cases "commandHistory u") (auto simp: console_inv_def dest: distinct_adj_ConsD)
  moreover have "l \<in> set (tl (commandHistory u)) \<Longrightarrow> l \<in> set (commandHistory u)" for l
    by (cases "commandHistory u") auto
  moreover have "last (tl (commandHistory u)) = last (commandHistory u)"
    if "tl (commandHistory u) \<noteq> []"
    using that by (cases "commandHistory u") auto
  ultimately show ?thesis
    using assms unfolding console_inv_def addToHistory_history
    by (auto simp: addToHistory_def Let_def distinct_adj_append_iff MAX_HISTORY_SIZE_def)
qed

lemma recall_inv:
  "console_inv u \<Longrightarrow> printable s \<Longrightarrow> console_inv (recall s u)"
  by (simp add: console_inv_def recall_def)

lemma navigate_inv:
  assumes "console_inv u"
  shows "console_inv (navigateHistoryUp u)" "console_inv (navigateHistoryDown u)"
proof -
  have nth: "printable (commandHistory u ! i)" if "i < length (commandHistory u)" for i
    using assms that by (simp add: console_inv_def)
  have idx: "console_inv (u\<lparr>historyIndex := i\<rparr>)" if "i \<le> length (commandHistory u)" for i
    using assms that by (simp add: console_inv_def)
  have le: "historyIndex u \<le> length (commandHistory u)" using assms by (simp add: console_inv_def)
  show "console_inv (navigateHistoryUp u)"
    unfolding navigateHistoryUp_def Let_def
    using assms le by (auto intro!: recall_inv idx nth)
  show "console_inv (navigateHistoryDown u)"
    unfolding navigateHistoryDown_def Let_def
    using assms le by (auto intro!: recall_inv idx nth)
qed

text \<open>The position is always in range, so no key throws; and the invariant is kept.\<close>

lemma handleKeyPress_inv:
  assumes "console_inv u"
  shows "\<exists>u'. handleKeyPress ch u = Inr u' \<and> console_inv u' \<and> running u' = running u"
proof -
  have c: "cursorPosition u \<le> length (con_input u)" "printable (con_input u)"
    using assms by (simp_all add: console_inv_def)
  then show ?thesis
    using assms c printable_parts [OF c(2)]
    by (auto simp: handleKeyPress_def str_erase_def str_insert_def console_inv_def)
qed

lemma handleExtendedKey_inv:
  assumes "console_inv u"
  shows "\<exists>u'. handleExtendedKey k u = Inr u' \<and> console_inv u' \<and> running u' = running u"
proof -
  have c: "cursorPosition u \<le> length (con_input u)" "printable (con_input u)"
    using assms by (simp_all add: console_inv_def)
  have r: "running (navigateHistoryUp u) = running u" "running (navigateHistoryDown u) = running u"
    by (simp_all add: navigateHistoryUp_def navigateHistoryDown_def recall_def Let_def)
  show ?thesis
    using assms c printable_parts [OF c(2)] navigate_inv [OF assms] r
    by (auto simp: handleExtendedKey_def str_erase_def console_inv_def)
qed

lemma input_turn_inv:
  assumes "console_inv u"
  shows "\<exists>line u'. input_turn stops k u = Inr (line, u') \<and> console_inv u' \<and>
    (\<forall>l. line = Some l \<longrightarrow> l = con_input u \<and> l \<noteq> '''')"
proof (cases k)
  case (Code ch)
  show ?thesis
  proof (cases "ch = 13 \<or> ch = 10")
    case True
    have "console_inv (addToHistory (con_input u) u)"
      using assms by (intro addToHistory_inv) (auto simp: console_inv_def)
    then show ?thesis
      using True Code assms by (auto simp: input_turn_def Let_def console_inv_def printable_def)
  next
    case False
    then show ?thesis using Code handleKeyPress_inv [OF assms, of ch] by (auto simp: input_turn_def)
  qed
next
  case (Extended c)
  then show ?thesis using handleExtendedKey_inv [OF assms, of c] by (auto simp: input_turn_def)
qed (use assms in \<open>simp add: input_turn_def\<close>)

lemma input_loop_inv:
  "console_inv u \<Longrightarrow> \<exists>ls u'. input_loop stops ks u = Inr (ls, u') \<and> console_inv u' \<and> '''' \<notin> set ls"
proof (induction ks arbitrary: u)
  case (Cons k ks)
  show ?case
  proof (cases "running u")
    case True
    obtain line u1 where 1: "input_turn stops k u = Inr (line, u1)" "console_inv u1"
      "\<forall>l. line = Some l \<longrightarrow> l = con_input u \<and> l \<noteq> ''''"
      using input_turn_inv [OF Cons.prems] by blast
    from Cons.IH [OF this(2)] obtain ls u2 where
      "input_loop stops ks u1 = Inr (ls, u2)" "console_inv u2" "'''' \<notin> set ls" by blast
    with 1 True show ?thesis by (auto split: option.split)
  qed (use Cons.prems in simp)
qed simp

subsection \<open>The editor as two strings around the cursor\<close>

definition before_after :: "console \<Rightarrow> string \<times> string" where
  "before_after u = (take (cursorPosition u) (con_input u), drop (cursorPosition u) (con_input u))"

text \<open>What a key does to the text before and after the cursor.\<close>

fun edit :: "keypress \<Rightarrow> string \<times> string \<Rightarrow> string \<times> string" where
  "edit (Code ch) (l, r) =
     (if ch = 8 \<or> ch = 127 then (butlast l, r)
      else if 32 \<le> ch \<and> ch \<le> 126 then (l @ [char_of ch], r) else (l, r))"
| "edit (Extended k) (l, r) =
     (if k = 75 then (if l = [] then (l, r) else (butlast l, last l # r))
      else if k = 77 then (if r = [] then (l, r) else (l @ [hd r], tl r))
      else if k = 71 then ([], l @ r)
      else if k = 79 then (l @ r, [])
      else if k = 83 then (l, tl r) else (l, r))"
| "edit Prefix_Only z = z"

definition edit_key :: "keypress \<Rightarrow> bool" where
  "edit_key k \<longleftrightarrow> k \<notin> {Code 13, Code 10, Extended 72, Extended 80}"

lemma take_butlast_cursor: "0 < n \<Longrightarrow> n \<le> length s \<Longrightarrow> take (n - 1) s = butlast (take n s)"
  by (simp add: butlast_take)

lemma last_take_cursor: "0 < n \<Longrightarrow> n \<le> length s \<Longrightarrow> drop (n - 1) s = last (take n s) # drop n s"
  by (cases n) (auto simp: take_Suc_conv_app_nth Cons_nth_drop_Suc)

lemma edit_refines:
  assumes u: "console_inv u" and k: "edit_key k"
  shows "\<exists>u'. input_turn stops k u = Inr (None, u') \<and> before_after u' = edit k (before_after u)"
proof -
  have c: "cursorPosition u \<le> length (con_input u)" using u by (simp add: console_inv_def)
  let ?n = "cursorPosition u" and ?s = "con_input u"
  show ?thesis
  proof (cases k)
    case (Code ch)
    then have "ch \<noteq> 13" "ch \<noteq> 10" using k by (auto simp: edit_key_def)
    moreover have "take (?n - 1) (take (?n - 1) ?s @ drop (Suc (?n - 1)) ?s) = butlast (take ?n ?s)"
      "drop (?n - 1) (take (?n - 1) ?s @ drop (Suc (?n - 1)) ?s) = drop ?n ?s" if "0 < ?n"
      using c that by (auto simp: min_def butlast_take)
    ultimately show ?thesis
      using Code c by (auto simp: input_turn_def handleKeyPress_def before_after_def str_erase_def
          str_insert_def min_def)
  next
    case (Extended e)
    then have "e \<noteq> 72" "e \<noteq> 80" using k by (auto simp: edit_key_def)
    moreover have "take (?n - Suc 0) ?s = butlast (take ?n ?s)"
      "drop (?n - Suc 0) ?s = last (take ?n ?s) # drop ?n ?s" if "0 < ?n"
      using take_butlast_cursor [OF that c] last_take_cursor [OF that c] by simp_all
    moreover have "0 < ?n" if "?s \<noteq> []" "length ?s = ?n"
      using that by (metis length_greater_0_conv)
    ultimately show ?thesis
      using Extended c
      by (auto simp: input_turn_def handleExtendedKey_def before_after_def str_erase_def min_def
          take_Suc_conv_app_nth hd_drop_conv_nth hd_conv_nth tl_drop drop_Suc)
  qed (auto simp: input_turn_def)
qed

subsection \<open>Typing, submitting and recalling a line\<close>

lemma type_line:
  assumes "printable t" "running u" "cursorPosition u = length (con_input u)"
  shows "\<exists>u'. input_loop stops (map (\<lambda>c. Code (of_char c)) t @ ks) u =
      input_loop stops ks u' \<and> con_input u' = con_input u @ t \<and> running u' \<and>
      cursorPosition u' = length (con_input u') \<and> commandHistory u' = commandHistory u"
  using assms
proof (induction t arbitrary: u)
  case (Cons c t)
  let ?u = "u\<lparr>con_input := con_input u @ [c], cursorPosition := cursorPosition u + 1,
    currentInput := con_input u @ [c]\<rparr>"
  have c: "32 \<le> (of_char c :: nat)" "(of_char c :: nat) \<le> 126" using Cons.prems by simp_all
  then have "input_turn stops (Code (of_char c)) u = Inr (None, ?u)"
    using Cons.prems by (simp add: input_turn_def handleKeyPress_def str_insert_def)
  then have step: "input_loop stops (map (\<lambda>c. Code (of_char c)) (c # t) @ ks) u =
      input_loop stops (map (\<lambda>c. Code (of_char c)) t @ ks) ?u"
    using Cons.prems by (cases "input_loop stops (map (\<lambda>c. Code (of_char c)) t @ ks) ?u") auto
  have "\<exists>u'. input_loop stops (map (\<lambda>c. Code (of_char c)) t @ ks) ?u =
      input_loop stops ks u' \<and> con_input u' = con_input ?u @ t \<and> running u' \<and>
      cursorPosition u' = length (con_input u') \<and> commandHistory u' = commandHistory ?u"
    using Cons.prems by (intro Cons.IH) auto
  then show ?case unfolding step by simp
qed auto

lemma submit_line:
  assumes "con_input u \<noteq> ''''"
  shows "\<exists>u'. input_turn stops (Code 13) u = Inr (Some (con_input u), u') \<and>
    con_input u' = '''' \<and> cursorPosition u' = 0 \<and> commandHistory u' \<noteq> [] \<and>
    last (commandHistory u') = con_input u \<and> historyIndex u' = length (commandHistory u') \<and>
    running u' = (running u \<and> \<not> stops (con_input u))"
  using assms by (auto simp: input_turn_def Let_def addToHistory_history)

lemma recall_last:
  assumes "commandHistory u \<noteq> []" "historyIndex u = length (commandHistory u)"
  shows "\<exists>u'. input_turn stops (Extended 72) u = Inr (None, u') \<and>
    con_input u' = last (commandHistory u) \<and> cursorPosition u' = length (con_input u')"
  using assms by (simp add: input_turn_def handleExtendedKey_def navigateHistoryUp_def Let_def
      recall_def last_conv_nth)

end
