(* ===== verification/DC_App.thy ===== *)
theory DC_App
  imports DC_Sockets DC_NodeProofs DC_ConsoleUI DC_Util
begin

text \<open>
  \<open>app::ChatApplication\<close> (src/app/ChatApplication.cpp): starting a node and synchronizing it, the
  commands of the user, and the shutdown. A command yields the text it prints.
\<close>

definition PEERS_BATCH_SIZE :: u32 where "PEERS_BATCH_SIZE = 12"
definition BLOCKS_BATCH_SIZE :: u32 where "BLOCKS_BATCH_SIZE = 4"

text \<open>The separators \<open>" \t"\<close>.\<close>

definition blanks :: string where
  "blanks = [CHR 0x20, CHR 0x09]"

abbreviation nl :: string where "nl \<equiv> [CHR 0x0A]"

subsection \<open>Listing peers\<close>

definition peer_lines :: "nat \<Rightarrow> user_peer \<Rightarrow> string" where
  "peer_lines i p = to_string (i + 1) @ ''. '' @ host p @ '':'' @ to_string (unat (port p)) @ nl @
     ''   Public Key: '' @ take 8 (publicKey p) @ ''...'' @ nl"

definition peers_text :: "string \<Rightarrow> string \<Rightarrow> user_peer list \<Rightarrow> string" where
  "peers_text title label ps = title @ nl @ label @ to_string (length ps) @ nl @
     concat (map (\<lambda>i. peer_lines i (ps ! i)) [0..<length ps])"

definition handlePeersCommand :: "('s node, string) act" where
  "handlePeersCommand = query (\<lambda>n.
     let ps = getPeers (n_peers n) in
     Inr (if ps = [] then ''[INFO] No connected peers''
          else peers_text ''[PEERS LIST]'' ''Total peers: '' ps))"

definition handleChatsCommand :: "('s, 'j) env \<Rightarrow> ('s node, string) act" where
  "handleChatsCommand E =
     seq (query (\<lambda>n. getAllChatPeers (e_peers E) (n_store n) [])) (\<lambda>ps.
       ret (if ps = [] then ''[INFO] No chat peers found'' @ nl
            else peers_text ''[CHAT PEERS LIST]'' ''Total chats: '' ps))"

subsection \<open>Sending\<close>

definition usage_send :: string where
  "usage_send = ''[ERROR] Invalid command format. Usage: /send <host:port> <message> or /send all <message>'' @ nl"

text \<open>
  What the arguments of \<open>/send\<close> ask for, or the text of the error; the port is an \<open>int\<close>, and \<open>stoi\<close>
  may throw.
\<close>

datatype send_command = Send_Error string | Send_All string | Send_To string int string

definition all_digits :: "string \<Rightarrow> bool" where
  "all_digits s \<longleftrightarrow> list_all (\<lambda>c. is_digit_in 10 c) s"

definition parse_send :: "string \<Rightarrow> send_command res" where
  "parse_send args =
     (case find_first_not_of blanks args of
        None \<Rightarrow> Inr (Send_Error usage_send)
      | Some start \<Rightarrow>
          let command = drop start args in
          if take 3 command = ''all'' then
            (case find_from (CHR '' '') 3 command of
               None \<Rightarrow> Inr (Send_Error (''[ERROR] Invalid command format. Usage: /send all <message>'' @ nl))
             | Some spaceAfterAll \<Rightarrow>
                 let message = drop (spaceAfterAll + 1) command in
                 if message = '''' then Inr (Send_Error (''[ERROR] Message cannot be empty'' @ nl))
                 else Inr (Send_All message))
          else
            (case find_char (CHR '' '') command of
               None \<Rightarrow> Inr (Send_Error usage_send)
             | Some spacePos \<Rightarrow>
                 let hostPort = take spacePos command; message = drop (spacePos + 1) command in
                 (case find_char (CHR '':'') hostPort of
                    None \<Rightarrow> Inr (Send_Error (''[ERROR] Invalid host:port format. Usage: /send <host:port> <message> or /send all <message>'' @ nl))
                  | Some colonPos \<Rightarrow>
                      let toHost = take colonPos hostPort; portStr = drop (colonPos + 1) hostPort in
                      if portStr = '''' \<or> \<not> all_digits portStr
                      then Inr (Send_Error (''[ERROR] Port must be a number. Usage: /send <host:port> <message> or /send all <message>'' @ nl))
                      else bnd (stoi portStr) (\<lambda>p. Inr (Send_To toHost p message)))))"

text \<open>For each peer: the identifier and time of the message, and those of the error message.\<close>

type_synonym fresh = "user_peer \<Rightarrow> (string \<times> u64) \<times> (string \<times> u64)"

definition send_text ::
  "('s, 'j) env \<Rightarrow> net \<Rightarrow> fresh \<Rightarrow> user_peer \<Rightarrow> string \<Rightarrow> user_peer \<Rightarrow> ('s node, unit) act" where
  "send_text E net fresh me message to =
     (let ((i, t), (i', t')) = fresh to in
      seq (sendSecretMessage E net i' t' (TextMessage_create i t me to message)) (\<lambda>_. ret ()))"

text \<open>Sending to all: an error for one peer is collected and dropped, the next one is tried.\<close>

definition send_all ::
  "('s, 'j) env \<Rightarrow> net \<Rightarrow> fresh \<Rightarrow> user_peer \<Rightarrow> string \<Rightarrow> ('s node, string) act" where
  "send_all E net fresh me message =
     seq (query (\<lambda>n. Inr (getPeers (n_peers n)))) (\<lambda>ps.
       if ps = [] then ret (''[INFO] No online peers to send message to'' @ nl)
       else seq (each (\<lambda>p. handle (send_text E net fresh me message p) (\<lambda>_. ret ())) ps)
              (\<lambda>_. ret ''''))"

definition handleSendCommand ::
  "('s, 'j) env \<Rightarrow> net \<Rightarrow> fresh \<Rightarrow> user_peer \<Rightarrow> string \<Rightarrow> ('s node, string) act" where
  "handleSendCommand E net fresh me args =
     handle
       (seq (lift (parse_send args)) (\<lambda>command.
          case command of
            Send_Error e \<Rightarrow> ret e
          | Send_All message \<Rightarrow> send_all E net fresh me message
          | Send_To h p message \<Rightarrow>
              seq (query (\<lambda>n. findPeer \<lparr> host = h, port = word_of_int p \<rparr> (n_peers n))) (\<lambda>to.
              seq (send_text E net fresh me message to) (\<lambda>_.
                ret (''[INFO] Message sent to '' @ h @ '':'' @ to_string (nat p) @ nl)))))
       (\<lambda>e. ret (''[ERROR] '' @ what e @ nl))"

subsection \<open>Reading a chat\<close>

definition trim :: "string \<Rightarrow> string" where
  "trim s =
     (let s = (case find_first_not_of blanks s of None \<Rightarrow> '''' | Some i \<Rightarrow> drop i s) in
      case find_last_not_of blanks s of None \<Rightarrow> '''' | Some i \<Rightarrow> take (i + 1) s)"

definition message_line :: "local_clock \<Rightarrow> string \<Rightarrow> string list \<Rightarrow> text_message \<Rightarrow> string res" where
  "message_line clk myPublicKey invalidIds m =
     bnd (timestampToString clk (m_timestamp m)) (\<lambda>formattedTime.
       Inr (''['' @ formattedTime @ ''] '' @
         (if publicKey (m_from m) = myPublicKey then ''YOU'' else ''PEER'') @ '': '' @ m_text m @
         (if m_id m \<in> set invalidIds then '' [INVALID]'' else '''') @ nl))"

definition history_text ::
  "local_clock \<Rightarrow> string \<Rightarrow> string \<Rightarrow> u16 \<Rightarrow> text_message list \<Rightarrow> string list \<Rightarrow> string res" where
  "history_text clk myPublicKey h p ms invalidIds =
     bnd (traverse (message_line clk myPublicKey invalidIds) ms) (\<lambda>ls.
       Inr (''[CHAT HISTORY with '' @ h @ '':'' @ to_string (unat p) @ '']'' @ nl @
         ''Total messages: '' @ to_string (length ms) @
         (if invalidIds \<noteq> [] then '' ('' @ to_string (length invalidIds) @ '' invalid)'' else '''') @ nl @
         concat ls))"

definition chat_history ::
  "('s, 'j) env \<Rightarrow> local_clock \<Rightarrow> string \<Rightarrow> 's \<Rightarrow> string res" where
  "chat_history E clk hostPort s =
     (case find_char (CHR '':'') hostPort of
        None \<Rightarrow> Inr (''[ERROR] Invalid host:port format. Usage: /chat <host:port>'' @ nl)
      | Some colonPos \<Rightarrow>
          let h = take colonPos hostPort; portStr = drop (colonPos + 1) hostPort in
          if portStr = '''' \<or> \<not> all_digits portStr
          then Inr (''[ERROR] Port must be a number. Usage: /chat <host:port>'' @ nl)
          else bnd (stoi portStr) (\<lambda>i.
            let p = (word_of_int i :: u16) in
            bnd (findPublicKeyByUserHost (e_peers E) \<lparr> host = h, port = p \<rparr> '''' s) (\<lambda>(found, peerPublicKey).
              if \<not> found
              then Inr (''[ERROR] No peer found with address '' @ h @ '':'' @ to_string (unat p) @
                     ''. Try /chats to see available chats.'' @ nl)
              else
                bnd (config_get (e_cfg E) PUBLIC_KEY) (\<lambda>myPublicKey.
                bnd (Service_findChatMessages (e_msgs E) myPublicKey peerPublicKey s []) (\<lambda>ms.
                  if ms = []
                  then Inr (''[INFO] No messages found with peer at '' @ h @ '':'' @ to_string (unat p) @ nl)
                  else
                    bnd (findInvalidChatMessageIDs (e_sha E) (e_crypto E) (e_msgs E) (e_chain E) s ms [])
                      (history_text clk myPublicKey h p ms))))))"

definition handleChatCommand ::
  "('s, 'j) env \<Rightarrow> local_clock \<Rightarrow> string \<Rightarrow> ('s node, string) act" where
  "handleChatCommand E clk args =
     (let hostPort = trim args in
      if hostPort = ''''
      then ret (''[ERROR] Please specify a peer host:port. Usage: /chat <host:port>'' @ nl)
      else handle (query (\<lambda>n. chat_history E clk hostPort (n_store n)))
             (\<lambda>e. ret (''[ERROR] Failed to retrieve chat history: '' @ what e @ nl)))"

subsection \<open>The commands\<close>

datatype command =
  Cmd_Exit | Cmd_Peers | Cmd_Chats | Cmd_Chat string | Cmd_Chat_Usage | Cmd_Send string | Cmd_Help
| Cmd_Echo string | Cmd_None

text \<open>The chain of tests of \<open>run\<close>: exact names first, then prefixes.\<close>

definition parse_command :: "string \<Rightarrow> command" where
  "parse_command inp =
     (if inp = ''/exit'' then Cmd_Exit
      else if inp = ''/peers'' then Cmd_Peers
      else if inp = ''/chats'' then Cmd_Chats
      else if take 5 inp = ''/chat'' then
        (if length inp > 6 then Cmd_Chat (drop 5 inp) else Cmd_Chat_Usage)
      else if take 5 inp = ''/send'' then Cmd_Send (drop 5 inp)
      else if take 5 inp = ''/help'' then Cmd_Help
      else if inp \<noteq> '''' then Cmd_Echo inp else Cmd_None)"

definition handleHelpCommand :: string where
  "handleHelpCommand =
     ''[COMMAND HELP]'' @ nl @ ''Available commands:'' @ nl @
     ''  /help                   - Show this help message'' @ nl @
     ''  /exit                   - Exit the application'' @ nl @
     ''  /peers                  - Show list of online peers'' @ nl @
     ''  /chats                  - Show all your chat conversations'' @ nl @
     ''  /chat <host:port>       - View chat history with specific peer'' @ nl @
     ''  /send <host:port> <message> - Send a message to a specific peer'' @ nl @ nl @
     ''Examples:'' @ nl @ ''  /chat 127.0.0.1:8001'' @ nl @
     ''  /send 127.0.0.1:8001 Hello, how are you?'' @ nl"

text \<open>\<open>shutdown\<close>: the peers are told, then the database is closed.\<close>

definition shutdown ::
  "(db, 'j) env \<Rightarrow> net \<Rightarrow> (user_peer \<Rightarrow> string \<times> u64) \<Rightarrow> (db node, unit) act" where
  "shutdown E net fresh =
     seq (TCPClient_disconnect E net fresh) (\<lambda>_.
       on_store (\<lambda>d. bnd (DBFile_close d) (\<lambda>d'. Inr ((), d'))))"

definition run_command ::
  "(db, 'j) env \<Rightarrow> net \<Rightarrow> fresh \<Rightarrow> local_clock \<Rightarrow> user_peer \<Rightarrow> string \<Rightarrow> (db node, string) act" where
  "run_command E net fresh clk me inp =
     (case parse_command inp of
        Cmd_Exit \<Rightarrow> seq (shutdown E net (\<lambda>p. fst (fresh p))) (\<lambda>_. ret ''[SYSTEM] Shutting down...'')
      | Cmd_Peers \<Rightarrow> handlePeersCommand
      | Cmd_Chats \<Rightarrow> handleChatsCommand E
      | Cmd_Chat args \<Rightarrow> handleChatCommand E clk args
      | Cmd_Chat_Usage \<Rightarrow> ret (''[ERROR] Invalid command format. Usage: /chat <host:port>'' @ nl)
      | Cmd_Send args \<Rightarrow> handleSendCommand E net fresh me args
      | Cmd_Help \<Rightarrow> ret handleHelpCommand
      | Cmd_Echo s \<Rightarrow> ret (''[YOU] '' @ s @ nl)
      | Cmd_None \<Rightarrow> ret '''')"

subsection \<open>Starting\<close>

text \<open>What the start needs from outside: the file, the free port, the results of the socket calls.\<close>

record start_env =
  st_file :: disk_file
  st_freePort :: "u16 res"
  st_startup :: bool
  st_socket :: bool
  st_bind :: bool

text \<open>
  The first half of \<open>init\<close>: configuration, database, services. A default configuration generated here
  is written to the file, the configuration in memory stays as it was loaded.
\<close>

definition open_tables :: "sqlite \<Rightarrow> db \<Rightarrow> db res" where
  "open_tables Q d = bnd (ChainDB_init Q d) (\<lambda>d. bnd (MessageDB_init Q d) (PeerDB_init Q))"

definition init_services ::
  "'j json_lib \<Rightarrow> (bytes \<Rightarrow> bytes) \<Rightarrow> ICrypto \<Rightarrow> (text_message list \<Rightarrow> text_message list) \<Rightarrow> sqlite \<Rightarrow>
   start_env \<Rightarrow> db \<Rightarrow> ((db, 'j) env \<times> db node \<times> user_peer \<times> block \<times> socket_server) res" where
  "init_services J SHA256 C srt Q st d =
     bnd (JsonConfig J C (st_freePort st) (st_file st)) (\<lambda>config.
     bnd (config_isValid J config) (\<lambda>valid.
     bnd (if valid then Inr config
          else bnd (generatedDefaultConfig J C (st_freePort st) (cfg_file config)) (\<lambda>f.
                 Inr (config\<lparr>cfg_file := f\<rparr>))) (\<lambda>config.
     bnd (bnd (config_get (cfg_data config) PORT) stoi) (\<lambda>p.
     bnd (config_get (cfg_data config) HOST) (\<lambda>h.
     bnd (config_get (cfg_data config) PUBLIC_KEY) (\<lambda>k.
     bnd (loadTrustedPeerList J config) (\<lambda>peerList.
     bnd (open_tables Q d) (\<lambda>d.
     bnd (findTip (ChainDB Q) Block d) (\<lambda>(_, tip).
     bnd (PeerService peerList) (\<lambda>ps.
     bnd (fst (TCPServer (st_startup st) (st_socket st) (st_bind st) (word_of_int p) 0)) (\<lambda>server.
       Inr (node_env J SHA256 C (cfg_data config) srt Q,
            \<lparr> n_store = d, n_peers = ps, n_newBlocks = [], n_global = GlobalState \<rparr>,
            UserPeer h (word_of_int p) k, tip, server))))))))))))"

subsection \<open>Synchronizing\<close>

text \<open>
  A computation that may not return is \<open>None\<close>. \<open>while (start < limit) { ...; start += step; }\<close> on
  32-bit integers is such a loop: the sum wraps.
\<close>

partial_function (option) batch_loop ::
  "u32 \<Rightarrow> u32 \<Rightarrow> (u32 \<Rightarrow> ('n, unit) act) \<Rightarrow> u32 \<Rightarrow> 'n \<Rightarrow> (unit res \<times> 'n) option" where
  "batch_loop step limit f start n =
     (if start < limit then
        (case f start n of
           (Inl e, n') \<Rightarrow> Some (Inl e, n')
         | (Inr _, n') \<Rightarrow> batch_loop step limit f (start + step) n')
      else Some (Inr (), n))"

definition then_loop ::
  "('n \<Rightarrow> ('a res \<times> 'n) option) \<Rightarrow> ('a \<Rightarrow> 'n \<Rightarrow> ('b res \<times> 'n) option) \<Rightarrow> 'n \<Rightarrow> ('b res \<times> 'n) option" where
  "then_loop a f n =
     (case a n of
        None \<Rightarrow> None
      | Some (Inl e, n') \<Rightarrow> Some (Inl e, n')
      | Some (Inr x, n') \<Rightarrow> f x n')"

definition returns :: "('n, 'a) act \<Rightarrow> 'n \<Rightarrow> ('a res \<times> 'n) option" where
  "returns a n = Some (a n)"

definition request_peers ::
  "('s, 'j) env \<Rightarrow> net \<Rightarrow> (u32 \<Rightarrow> string \<times> u64) \<Rightarrow> user_peer \<Rightarrow> user_peer \<Rightarrow> u32 \<Rightarrow> ('s node, unit) act" where
  "request_peers E net fresh from to start =
     TCPClient_sendMessage E net to (PeerListMessage_serialize (e_json E)
       (PeerListMessage_create (fst (fresh start)) (snd (fresh start)) from to start PEERS_BATCH_SIZE))"

definition request_blocks ::
  "('s, 'j) env \<Rightarrow> net \<Rightarrow> (u32 \<Rightarrow> string \<times> u64) \<Rightarrow> user_peer \<Rightarrow> user_peer \<Rightarrow> string \<Rightarrow> u32 \<Rightarrow>
   ('s node, unit) act" where
  "request_blocks E net fresh from to lastHash start =
     TCPClient_sendMessage E net to (BlockRangeMessage_serialize (e_json E)
       (BlockRangeMessage_create (fst (fresh start)) (snd (fresh start)) from to start
         BLOCKS_BATCH_SIZE lastHash))"

text \<open>The two loops, run only if some peer answered; \<open>peersToReceive\<close> is read before the first.\<close>

definition receive_batches ::
  "('s, 'j) env \<Rightarrow> net \<Rightarrow> (u32 \<Rightarrow> string \<times> u64) \<Rightarrow> (u32 \<Rightarrow> string \<times> u64) \<Rightarrow> user_peer \<Rightarrow> string \<Rightarrow>
   's node \<Rightarrow> (unit res \<times> 's node) option" where
  "receive_batches E net freshP freshB from lastHash n =
     (if getPeersCount (n_peers n) > 0 then
        then_loop (returns (query (\<lambda>n. getPeer 0 (n_peers n)))) (\<lambda>to.
        then_loop (batch_loop PEERS_BATCH_SIZE (getPeersToReceive (n_global n))
                     (request_peers E net freshP from to) 0) (\<lambda>_ n.
          batch_loop BLOCKS_BATCH_SIZE (getMissingBlocksCount (n_global n))
            (request_blocks E net freshB from to lastHash) 0 n)) n
      else Some (Inr (), n))"

text \<open>The blocks received, if they validate, are inserted one by one; each result is ignored.\<close>

definition store_blocks :: "('s, 'j) env \<Rightarrow> block list \<Rightarrow> ('s node, unit) act" where
  "store_blocks E bs = each (\<lambda>b. seq (on_store (insertBlock (e_chain E) b)) (\<lambda>_. ret ())) bs"

definition accept_blocks :: "('s, 'j) env \<Rightarrow> ('s node, unit) act" where
  "accept_blocks E =
     seq (query (\<lambda>n. validateNewBlocks (e_sha E) (e_crypto E) (e_chain E) (n_newBlocks n) (n_store n)))
       (\<lambda>(valid, _).
         if valid then seq (query (\<lambda>n. Inr (getNewBlocks (n_newBlocks n)))) (store_blocks E)
         else ret ())"

text \<open>The second half of \<open>init\<close>; the result of \<open>validateLocalChain\<close> is not used.\<close>

definition synchronize ::
  "('s, 'j) env \<Rightarrow> net \<Rightarrow> (user_peer \<Rightarrow> string \<times> u64) \<Rightarrow> (u32 \<Rightarrow> string \<times> u64) \<Rightarrow>
   (u32 \<Rightarrow> string \<times> u64) \<Rightarrow> user_peer \<Rightarrow> string \<Rightarrow> 's node \<Rightarrow> (unit res \<times> 's node) option" where
  "synchronize E net fresh freshP freshB from lastHash =
     then_loop (returns (seq (TCPClient E net fresh lastHash) (\<lambda>_.
       seq (query (\<lambda>n. validateLocalChain (e_sha E) (e_crypto E) (e_chain E) (n_store n))) (\<lambda>_.
       query (\<lambda>n. findTipIndex (e_chain E) 0 (n_store n)))))) (\<lambda>_.
     then_loop (receive_batches E net freshP freshB from lastHash) (\<lambda>_.
     then_loop (returns (accept_blocks E)) (\<lambda>_.
       returns (connectToAllPeers E net fresh))))"

subsection \<open>The batches\<close>

text \<open>The indices a terminating loop goes through.\<close>

definition batch_starts :: "u32 \<Rightarrow> u32 \<Rightarrow> u32 list" where
  "batch_starts step limit =
     map (\<lambda>i. word_of_nat (i * unat step)) [0..<(unat limit + unat step - 1) div unat step]"

lemma batches_step:
  fixes a b s :: nat
  assumes "a < b" "0 < s"
  shows "(b - a + s - 1) div s = Suc ((b - (a + s) + s - 1) div s)"
proof (cases "a + s < b")
  case True
  then have "b - a + s - 1 = (b - (a + s) + s - 1) + s" by simp
  then show ?thesis using assms by (metis Suc_eq_plus1 div_add_self2 less_not_refl)
next
  case False
  then have "b - a + s - 1 = (b - a - 1) + s" "b - a - 1 < s" "b - (a + s) = 0"
    using assms by auto
  then show ?thesis using assms by (metis Suc_eq_plus1 add_0 div_add_self2 div_less diff_less less_not_refl zero_less_one)
qed

lemma batch_loop_each:
  assumes "0 < unat step" "unat limit + unat step \<le> 2 ^ 32"
  shows "batch_loop step limit f start n =
    Some (each f (map (\<lambda>i. start + word_of_nat (i * unat step))
      [0..<(unat limit - unat start + unat step - 1) div unat step]) n)"
  using assms
proof (induction "unat limit - unat start" arbitrary: start n rule: less_induct)
  case less
  show ?case
  proof (cases "start < limit")
    case False
    then have "unat limit \<le> unat start" by (simp add: word_less_nat_alt)
    then have z: "(unat limit - unat start + unat step - 1) div unat step = 0"
      using less.prems by simp
    show ?thesis
      unfolding z using False by (subst batch_loop.simps) (simp add: ret_def)
  next
    case True
    then have lt: "unat start < unat limit" by (simp add: word_less_nat_alt)
    have sum: "unat (start + step) = unat start + unat step"
      using less.prems lt by (simp add: unat_word_ariths)
    let ?k' = "(unat limit - unat (start + step) + unat step - 1) div unat step"
    have k: "(unat limit - unat start + unat step - 1) div unat step = Suc ?k'"
      unfolding sum by (rule batches_step [OF lt less.prems(1)])
    have list: "map (\<lambda>i. start + word_of_nat (i * unat step)) [0..<Suc ?k'] =
      start # map (\<lambda>i. start + step + word_of_nat (i * unat step)) [0..<?k']"
      by (simp only: map_upt_Suc) (simp add: algebra_simps)
    have "unat limit - unat (start + step) < unat limit - unat start"
      using sum lt less.prems(1) by simp
    from less.hyps [OF this less.prems] show ?thesis
      unfolding k list by (subst batch_loop.simps)
        (simp add: True seq_def split: prod.split sum.split)
  qed
qed

lemma batch_loop_terminates:
  assumes "0 < unat step" "unat limit + unat step \<le> 2 ^ 32"
  shows "batch_loop step limit f 0 n = Some (each f (batch_starts step limit) n)"
  using batch_loop_each [OF assms, of f 0 n] by (simp add: batch_starts_def)

text \<open>
  A limit in the last three values below 2^32 is never reached by steps that are multiples of 4: the
  sum wraps to the front again.
\<close>

lemma quarter_start:
  "4 dvd unat (start :: u32) \<Longrightarrow> 2 ^ 32 - 4 < unat (limit :: u32) \<Longrightarrow> start < limit"
proof -
  assume "4 dvd unat start" "2 ^ 32 - 4 < unat limit"
  moreover have "unat start < 2 ^ 32" using unat_u32_bound [of start] by simp
  moreover have "(4::nat) dvd 2 ^ 32" by simp
  ultimately show ?thesis unfolding word_less_nat_alt by presburger
qed

lemma quarter_step:
  "4 dvd unat (start :: u32) \<Longrightarrow> 4 dvd unat (step :: u32) \<Longrightarrow> 4 dvd unat (start + step)"
  by (simp add: unat_word_ariths dvd_mod)

definition escapes :: "(u32 \<Rightarrow> ('n, unit) act) \<Rightarrow> u32 \<Rightarrow> u32 \<Rightarrow> u32 \<Rightarrow> bool" where
  "escapes f step limit start \<longleftrightarrow>
     (4 dvd unat start \<longrightarrow> 4 dvd unat step \<longrightarrow> 2 ^ 32 - 4 < unat limit \<longrightarrow> (\<exists>s m e. fst (f s m) = Inl e))"

lemma batch_loop_escapes:
  assumes "batch_loop step limit f start n = Some y"
  shows "escapes f step limit start"
proof (rule batch_loop.raw_induct [OF _ assms])
  fix g step limit start y and f :: "u32 \<Rightarrow> ('n, unit) act" and n
  assume ih: "\<And>step limit f start n y. g step limit f start n = Some y \<Longrightarrow> escapes f step limit start"
    and eq: "(if start < limit
      then case f start n of (Inl e, n') \<Rightarrow> Some (Inl e, n')
           | (Inr _, n') \<Rightarrow> g step limit f (start + step) n'
      else Some (Inr (), n)) = Some y"
  show "escapes f step limit start"
  proof (cases "fst (f start n)")
    case (Inl e)
    then show ?thesis unfolding escapes_def by blast
  next
    case (Inr u)
    then have "start < limit \<Longrightarrow> escapes f step limit (start + step)"
      using eq ih by (cases "f start n") (simp split: if_splits)
    then show ?thesis
      unfolding escapes_def using quarter_start [of start limit] quarter_step [of start step] by blast
  qed
qed

lemma batch_loop_diverges_aux:
  assumes "\<And>start n. \<exists>n'. f start n = (Inr (), n')"
    and "4 dvd unat step" "2 ^ 32 - 4 < unat limit"
  shows "batch_loop step limit f 0 n = None"
proof (cases "batch_loop step limit f 0 n")
  case (Some y)
  then obtain start n e where "fst (f start n) = Inl e"
    using batch_loop_escapes [OF Some] assms(2,3) by (auto simp: escapes_def)
  then show ?thesis using assms(1) [of start n] by auto
qed

end
