(* ===== verification/DC_ChainTheorems.thy ===== *)
theory DC_ChainTheorems
  imports DC_Fixtures DC_App
begin

text \<open>
  What the block chain of one node promises: the decision on an incoming block and its effect, blocks
  made for messages, the validation of stored and of received chains, and the queries the protocol
  pages a chain with. The properties that span the whole node are in the root theory.
\<close>

section \<open>Incoming blocks\<close>

lemma accepted_appended:
  assumes "chain_db_inv Q d" "valid_chain SHA256 C (db_chain d)" "sha_len SHA256"
    and "clock_ok (db_timely Q) now" "local_peer cfg = Inr me" "Block_of_json J j = Inr b"
    and "accepts SHA256 C now (db_chain d) b"
  shows "\<exists>d'. onIncomingBlock J SHA256 C (ChainDB Q) cfg now uuid ts j d = Inr (''{}'', d') \<and>
    chain_db_inv Q d' \<and> db_chain d' = db_chain d @ [c_block b] \<and>
    (c_block b = b \<longrightarrow> valid_chain SHA256 C (db_chain d'))"
proof -
  have "db_timely Q b" using assms(4,7) by (simp add: clock_ok_def accepts_def)
  from cdb.insert_accepted [OF assms(1,2,7) this assms(3)] obtain d' where
    "insertBlock (ChainDB Q) b d = Inr (True, d')" "chain_db_inv Q d'"
    "db_chain d' = db_chain d @ [c_block b]" "c_block b = b \<longrightarrow> valid_chain SHA256 C (db_chain d')"
    by blast
  moreover have "validateIncomingBlock SHA256 C (ChainDB Q) now b d = Inr None"
    using assms(7) by (simp add: cdb.validateIncomingBlock_None [OF assms(1)])
  ultimately show ?thesis
    using assms(5,6) by (simp add: onIncomingBlock_def)
qed

text \<open>
  A block that \<open>validateIncomingBlock\<close> accepts is answered with \<open>{}\<close> and is the new tip; a chain that
  was valid stays valid, if no field of the block has a NUL.
\<close>

theorem incoming_block_appended:
  assumes "chain_db_inv Q d" "valid_chain SHA256 C (db_chain d)" "sha_len SHA256"
    and "clock_ok (db_timely Q) now" "local_peer cfg = Inr me" "Block_of_json J j = Inr b"
    and "accepts SHA256 C now (db_chain d) b"
  shows "\<exists>d'. onIncomingBlock J SHA256 C (ChainDB Q) cfg now uuid ts j d = Inr (''{}'', d') \<and>
    chain_db_inv Q d' \<and> db_chain d' = db_chain d @ [c_block b] \<and>
    (c_block b = b \<longrightarrow> valid_chain SHA256 C (db_chain d'))"
  using accepted_appended [OF assms] .

theorem incoming_block_appended_witness:
  "\<exists>d'. onIncomingBlock jt_lib sha256_bytes tests_crypto (ChainDB lite) alice_cfg (m_timestamp hello)
      ''6f1d'' 1 (Block_toJson jt_lib hello_block) fresh_db = Inr (''{}'', d') \<and>
    db_chain d' = [hello_block]"
proof -
  have "Block_of_json jt_lib (Block_toJson jt_lib hello_block) = Inr hello_block"
    by (rule Block_json_roundtrip_aux [OF jt_laws])
  then show ?thesis
    using incoming_block_appended [of lite fresh_db sha256_bytes tests_crypto "m_timestamp hello"
        alice_cfg alice jt_lib "Block_toJson jt_lib hello_block" hello_block "''6f1d''" 1]
      hello_block(5) hello_accepted by auto
qed



section \<open>Blocks made for messages\<close>

text \<open>The service over the SQLite repository and any cryptography that meets its contract.\<close>

lemma created_block:
  assumes "icrypto C key_pair session_key" "chain_db_inv Q d" "cfg PRIVATE_KEY = Some priv"
    and "text_keys C key_pair priv (publicKey (m_from m))"
  shows "\<exists>b'. createBlockFromMessage SHA256 C (ChainDB Q) cfg m b d = Inr b' \<and>
    valid_block SHA256 C b' \<and> previousHash b' = tip_hash (db_chain d) \<and>
    compareBlockWithMessage SHA256 C b' m = Inr None \<and> timestamp b' = m_timestamp m \<and>
    (CHR 0x00 \<notin> set (publicKey (m_from m)) \<longrightarrow> c_block b' = b')"
proof -
  have "blockchain_service (ChainDB Q) db_chain (chain_db_inv Q) (db_timely Q) C key_pair session_key"
    by (intro blockchain_service.intro cdb.chain_repo_axioms assms(1))
  then show ?thesis using assms(2-4) by (rule blockchain_service.createBlockFromMessage_valid)
qed

text \<open>
  The block made for a message of the node itself is signed by its author, hashed, extends the tip and
  agrees with the message.
\<close>

theorem created_block_valid:
  assumes "icrypto C key_pair session_key" "chain_db_inv Q d" "cfg PRIVATE_KEY = Some priv"
    and "text_keys C key_pair priv (publicKey (m_from m))"
  shows "\<exists>b'. createBlockFromMessage SHA256 C (ChainDB Q) cfg m b d = Inr b' \<and>
    valid_block SHA256 C b' \<and> previousHash b' = tip_hash (db_chain d) \<and>
    compareBlockWithMessage SHA256 C b' m = Inr None"
  using created_block [of C key_pair session_key Q d cfg priv m SHA256 b] assms by blast

theorem created_block_valid_witness:
  "\<exists>b'. createBlockFromMessage sha256_bytes tests_crypto (ChainDB lite) alice_cfg hello Block fresh_db = Inr b' \<and>
    valid_block sha256_bytes tests_crypto b' \<and> previousHash b' = ''0''"
proof -
  have "\<exists>b'. createBlockFromMessage sha256_bytes tests_crypto (ChainDB lite) alice_cfg hello Block fresh_db = Inr b' \<and>
    valid_block sha256_bytes tests_crypto b' \<and> previousHash b' = tip_hash (db_chain fresh_db) \<and>
    compareBlockWithMessage sha256_bytes tests_crypto b' hello = Inr None"
    by (rule created_block_valid [OF tests_crypto_meets, where priv = alice_key]) simp_all
  then show ?thesis by auto
qed

text \<open>
  Replicas stay equal: the block one node makes for a message on its chain is appended by every node
  that has the same chain, receives the block as JSON and whose clock is not more than five minutes
  behind.
\<close>

theorem honest_block_replicated:
  assumes "icrypto C key_pair session_key" "json_laws J" "sha_len SHA256"
    and "chain_db_inv Q d" "chain_db_inv Q e" "db_chain e = db_chain d"
    and "valid_chain SHA256 C (db_chain d)" "clock_ok (db_timely Q) now" "local_peer cfg' = Inr me"
    and "cfg PRIVATE_KEY = Some priv" "text_keys C key_pair priv (publicKey (m_from m))"
    and "CHR 0x00 \<notin> set (publicKey (m_from m))" "m_timestamp m \<le> now + 300000"
    and "createBlockFromMessage SHA256 C (ChainDB Q) cfg m Block d = Inr b"
    and "hash b \<notin> hash ` set (db_chain d)"
  shows "\<exists>e'. onIncomingBlock J SHA256 C (ChainDB Q) cfg' now uuid ts (Block_toJson J b) e = Inr (''{}'', e') \<and>
    chain_db_inv Q e' \<and> db_chain e' = db_chain d @ [b] \<and> valid_chain SHA256 C (db_chain e')"
proof -
  have b: "valid_block SHA256 C b" "previousHash b = tip_hash (db_chain d)"
    "timestamp b = m_timestamp m" "c_block b = b"
    using created_block [of C key_pair session_key Q d cfg priv m SHA256 Block] assms(1,4,10-12,14)
    by auto
  have "accepts SHA256 C now (db_chain e) b"
    using b assms(6,13,15) by (simp add: accepts_def extends_tip_def)
  moreover have "valid_chain SHA256 C (db_chain e)" using assms(6,7) by simp
  moreover have "Block_of_json J (Block_toJson J b) = Inr b"
    by (rule Block_json_roundtrip_aux [OF assms(2)])
  ultimately show ?thesis
    using accepted_appended [of Q e SHA256 C now cfg' me J "Block_toJson J b" b uuid ts] assms(3,5,6,8,9)
      b(4) by auto
qed

theorem honest_block_replicated_witness:
  "\<exists>e'. onIncomingBlock jt_lib sha256_bytes tests_crypto (ChainDB lite) alice_cfg 1700000000000 ''6f1d'' 1
      (Block_toJson jt_lib hello_block) fresh_db = Inr (''{}'', e') \<and> db_chain e' = [hello_block]"
proof -
  have "\<exists>e'. onIncomingBlock jt_lib sha256_bytes tests_crypto (ChainDB lite) alice_cfg 1700000000000
      ''6f1d'' 1 (Block_toJson jt_lib hello_block) fresh_db = Inr (''{}'', e') \<and> chain_db_inv lite e' \<and>
    db_chain e' = db_chain fresh_db @ [hello_block] \<and> valid_chain sha256_bytes tests_crypto (db_chain e')"
    by (rule honest_block_replicated [OF tests_crypto_meets jt_laws, where d = fresh_db and cfg = alice_cfg
        and m = hello and me = alice and priv = alice_key]) (simp_all add: hello_block)
  then show ?thesis by auto
qed

section \<open>Stored and received chains\<close>

text \<open>
  C19. \<open>validateLocalChain\<close> is true just of the valid chains: linked from \<open>"0"\<close>, each block signed by its
  author and hashed.
\<close>

theorem local_chain_validation:
  assumes "chain_db_inv Q d"
  shows "(\<exists>log. validateLocalChain SHA256 C (ChainDB Q) d = Inr (True, log)) \<longleftrightarrow>
    linked ''0'' (db_chain d) \<and>
    (\<forall>b \<in> set (db_chain d). verifyBlockSignature C b = Inr True \<and>
       hash b = sha256 SHA256 (toStringForHash b))"
  using cdb.validateLocalChain_True [OF assms] by (simp add: valid_chain_def valid_block_def)

theorem local_chain_validation_witness:
  "\<exists>log. validateLocalChain sha256_bytes tests_crypto (ChainDB lite) hello_db = Inr (True, log)"
  using hello_db(4) by (simp add: local_chain_validation [OF hello_db(2)] valid_chain_def valid_block_def)

text \<open>
  C18. \<open>validateNewBlocks\<close> is true just of the ranges that are linked within, validate block by block, and
  extend the local tip, whose chain may be empty: then the predecessor of the first is not looked at.
\<close>

theorem new_blocks_decision:
  assumes "chain_db_inv Q d"
  shows "(\<exists>log. validateNewBlocks SHA256 C (ChainDB Q) bs d = Inr (True, log)) \<longleftrightarrow>
    (bs = [] \<or> linked (previousHash (hd bs)) bs \<and>
      (\<forall>b \<in> set bs. verifyBlockSignature C b = Inr True \<and> hash b = sha256 SHA256 (toStringForHash b)) \<and>
      (db_chain d = [] \<or> previousHash (hd bs) = tip_hash (db_chain d) \<or>
       c_str (previousHash (hd bs)) = tip_hash (db_chain d)))"
  using cdb.validateNewBlocks_True [OF assms, of SHA256 C bs] by (auto simp: valid_block_def extends_tip_def)

theorem new_blocks_decision_witness:
  "\<exists>log. validateNewBlocks sha256_bytes tests_crypto (ChainDB lite) [hello_block] fresh_db = Inr (True, log)"
  using hello_block(2) by (simp add: new_blocks_decision [OF fresh_db_inv(1)] valid_block_def)



section \<open>The repository\<close>

text \<open>
  C21. \<open>insertBlock\<close> stores a block just if its hash is new and, unless it is a first block, no stored block
  has its predecessor; otherwise it returns false and changes nothing. What is stored is the block with
  its texts cut at the first NUL.
\<close>

theorem insert_block_rule:
  assumes "chain_db_inv Q d" "db_timely Q b"
  shows "\<exists>d'. ChainDB_insertBlock Q b d =
      Inr ((previousHash b = ''0'' \<or> c_str (previousHash b) \<notin> previousHash ` set (db_chain d)) \<and>
           c_str (hash b) \<notin> hash ` set (db_chain d), d') \<and> chain_db_inv Q d' \<and>
    db_chain d' = (if (previousHash b = ''0'' \<or> c_str (previousHash b) \<notin> previousHash ` set (db_chain d)) \<and>
      c_str (hash b) \<notin> hash ` set (db_chain d) then db_chain d @ [c_block b] else db_chain d)"
  using ChainDB_insert [OF assms] by (simp add: insert_ok_def)

theorem insert_block_rule_witness:
  "\<exists>d'. ChainDB_insertBlock lite hello_block hello_db = Inr (False, d') \<and> db_chain d' = [hello_block]"
  using insert_block_rule [OF hello_db(2) lite_timely, of hello_block] by auto

text \<open>
  C31. A block is checked as it is received and stored with its texts cut at the first NUL. If that
  changes the text its hash is made from to one with another digest, the block is accepted, stored, and
  from then on the node's own chain does not validate.
\<close>

theorem nul_block_breaks_chain:
  assumes "chain_db_inv Q d" "valid_chain SHA256 C (db_chain d)" "sha_len SHA256"
    and "clock_ok (db_timely Q) now" "local_peer cfg = Inr me" "Block_of_json J j = Inr b"
    and "accepts SHA256 C now (db_chain d) b"
    and "sha256 SHA256 (toStringForHash (c_block b)) \<noteq> hash b"
  shows "\<exists>d'. onIncomingBlock J SHA256 C (ChainDB Q) cfg now uuid ts j d = Inr (''{}'', d') \<and>
    \<not> (\<exists>log. validateLocalChain SHA256 C (ChainDB Q) d' = Inr (True, log))"
proof -
  obtain d' where d': "onIncomingBlock J SHA256 C (ChainDB Q) cfg now uuid ts j d = Inr (''{}'', d')"
    "chain_db_inv Q d'" "db_chain d' = db_chain d @ [c_block b]"
    using accepted_appended [OF assms(1-7)] by blast
  moreover have "hash (c_block b) \<noteq> sha256 SHA256 (toStringForHash (c_block b))"
    using assms(7,8) valid_block_hash_clean [of SHA256 C b] by (auto simp: accepts_def)
  then have "\<not> valid_chain SHA256 C (db_chain d')"
    by (simp add: d'(3) valid_chain_def valid_block_def)
  ultimately show ?thesis using cdb.validateLocalChain_True [OF d'(2)] by blast
qed

theorem nul_block_witness:
  "\<exists>d'. onIncomingBlock jt_lib sha256_bytes tests_crypto (ChainDB lite) alice_cfg 0 ''6f1d'' 1
      (Block_toJson jt_lib nul_block) fresh_db = Inr (''{}'', d') \<and>
    \<not> (\<exists>log. validateLocalChain sha256_bytes tests_crypto (ChainDB lite) d' = Inr (True, log))"
  by (rule nul_block_breaks_chain [where b = nul_block and me = alice])
    (simp_all add: nul_block_accepted nul_block_changes Block_json_roundtrip_aux [OF jt_laws]
      del: nul_block_fields(5))

section \<open>The form of a block\<close>

text \<open>
  A block sent as a JSON text arrives as it was: whatever \<open>dump\<close> writes of \<open>toJson\<close>, the constructor
  reads back from the parsed text, and a receiver that cuts texts at a NUL changes nothing.
\<close>

theorem block_text_roundtrip:
  assumes "json_laws J" "json_text_laws J" "json_dump J (Block_toJson J b) = Inr raw"
  shows "bnd (json_parse J (c_str raw)) (Block_of_json J) = Inr b"
  using assms Block_json_roundtrip_aux [OF assms(1), of b] by (simp add: json_text_laws_def)

theorem block_text_roundtrip_witness:
  "bnd (json_parse jt_lib (c_str (jv_text (Block_toJson jt_lib hello_block)))) (Block_of_json jt_lib) =
     Inr hello_block"
  by (rule block_text_roundtrip [OF jt_laws jt_text_laws]) simp

text \<open>
  The text a hash and a signature are made from determines the four fields it is made of, if none of
  them contains the separator, as hexadecimal and base64 texts do not.
\<close>

theorem hash_text_injective:
  assumes "bar_free a" "bar_free b" "toStringForHash a = toStringForHash b"
  shows "previousHash a = previousHash b \<and> payloadHash a = payloadHash b \<and>
    authorPublicKey a = authorPublicKey b \<and> timestamp a = timestamp b"
  using assms toStringForHash_inj_aux by blast

theorem hash_text_injective_witness:
  "previousHash (Block\<lparr>hash := ''x''\<rparr>) = previousHash Block"
  using hash_text_injective [of "Block\<lparr>hash := ''x''\<rparr>" Block]
  by (simp add: bar_free_def Block_def toStringForHash_def)

text \<open>
  With the separator in a field it does not: moving text from the payload hash to the predecessor
  changes neither the text nor the hash nor the signature, so a check of the block passes for both or
  for none.
\<close>

theorem hash_text_ambiguous:
  "toStringForHash (b\<lparr>previousHash := p @ ''|'' @ q, payloadHash := r\<rparr>) =
     toStringForHash (b\<lparr>previousHash := p, payloadHash := q @ ''|'' @ r\<rparr>) \<and>
   (validateSingleBlock SHA256 C (b\<lparr>previousHash := p @ ''|'' @ q, payloadHash := r\<rparr>) = Inr None \<longleftrightarrow>
    validateSingleBlock SHA256 C (b\<lparr>previousHash := p, payloadHash := q @ ''|'' @ r\<rparr>) = Inr None)"
proof
  show 1: "toStringForHash (b\<lparr>previousHash := p @ ''|'' @ q, payloadHash := r\<rparr>) =
     toStringForHash (b\<lparr>previousHash := p, payloadHash := q @ ''|'' @ r\<rparr>)"
    by (simp add: toStringForHash_def)
  show "validateSingleBlock SHA256 C (b\<lparr>previousHash := p @ ''|'' @ q, payloadHash := r\<rparr>) = Inr None \<longleftrightarrow>
    validateSingleBlock SHA256 C (b\<lparr>previousHash := p, payloadHash := q @ ''|'' @ r\<rparr>) = Inr None"
    unfolding validateSingleBlock_None valid_block_def verifyBlockSignature_def 1 by simp
qed

section \<open>The database\<close>

text \<open>
  C34. Opening a new database file creates the three tables, empty, in the state every operation keeps.
\<close>

theorem open_tables_establish:
  assumes "sq_open Q p" "port_column Q"
  shows "\<exists>d. open_tables Q (DBFile p no_tables) = Inr d \<and> chain_db_inv Q d \<and> message_db_inv d \<and>
    peer_db_inv Q d \<and> db_chain d = [] \<and> db_messages d = [] \<and> db_peers d = []"
proof -
  let ?t = "\<lparr>blocks_t = Some empty_table, messages_t = Some empty_table, peers_t = Some empty_table\<rparr>"
  let ?d = "\<lparr>db_path = p, db_handle = True, db_locked = False, db_data = ?t\<rparr>"
  have "open_tables Q (DBFile p no_tables) = Inr ?d"
    using assms(1)
    by (simp add: open_tables_def ChainDB_init_def MessageDB_init_def PeerDB_init_def DBFile_open_def
        DBFile_def DBFile_exec_def lock_guard_def unlock_def ensure_open_def no_tables_def
        create_if_missing_def)
  moreover have "chain_db_inv Q ?d" "message_db_inv ?d" "peer_db_inv Q ?d" "db_chain ?d = []"
    "db_messages ?d = []" "db_peers ?d = []"
    using assms(2) by (simp_all add: db_view_defs db_ready_def empty_table_def)
  ultimately show ?thesis by blast
qed

theorem open_tables_witness:
  "\<exists>d. open_tables lite (DBFile ''d-chat.db'' no_tables) = Inr d \<and> chain_db_inv lite d"
  using open_tables_establish [of lite "''d-chat.db''"] lite_ports by (auto simp: lite_def)

text \<open>
  Once the database is closed, as \<open>shutdown\<close> does while the server thread may still run, every
  statement locks the mutex it already holds: undefined behaviour, not an error the callers handle.
\<close>

theorem closed_database_undefined:
  assumes "DBFile_close d = Inr d'"
  shows "ChainDB_insertBlock Q b d' = Inl Undefined \<and> ChainDB_findTip Q tip d' = Inl Undefined \<and>
    ChainDB_hasBlock Q h d' = Inl Undefined \<and> ChainDB_loadAllBlocks Q d' bs = Inl Undefined \<and>
    MessageDB_insertSecretMessage Q m dump h d' = Inl Undefined \<and>
    MessageDB_removeMessageByBlockHash Q h d' = Inl Undefined \<and>
    PeerDB_addPeer Q p d' = Inl Undefined"
proof -
  have c: "\<not> db_handle d'"
    using assms by (auto simp: DBFile_close_def lock_guard_def unlock_def split: if_splits)
  show ?thesis
    by (simp add: closed_statements_undefined [OF c] ChainDB_insertBlock_def ChainDB_findTip_def ChainDB_hasBlock_def
        ChainDB_loadAllBlocks_def MessageDB_insertSecretMessage_def
        MessageDB_removeMessageByBlockHash_def PeerDB_addPeer_def)
qed

theorem closed_database_witness:
  "\<exists>d'. DBFile_close hello_db = Inr d' \<and> ChainDB_insertBlock lite hello_block d' = Inl Undefined"
proof -
  have "db_ready hello_db" using hello_db(2) by (simp add: chain_db_inv_def)
  then obtain d' where d': "DBFile_close hello_db = Inr d'"
    by (simp add: DBFile_close_def lock_guard_def db_ready_def)
  from closed_database_undefined [OF this] d' show ?thesis by blast
qed

end
