(* ===== verification/DC_OpenSSL.thy ===== *)
theory DC_OpenSSL
  imports DC_Crypto
begin

text \<open>
  \<open>crypto::OpenSSLCrypto\<close> (src/service/crypto/OpenSSLCrypto.cpp). OpenSSL is third-party: the values
  its calls compute are the fields of the parameter \<open>openssl\<close>, over its own type of keys \<open>'k\<close>, and
  \<open>os_ok\<close> says which calls succeed (by name, numbered where a method makes the same call twice).
  Freeing a context has no counterpart here.
\<close>

record 'k openssl =
  os_ok :: "string \<Rightarrow> bool"
  os_random :: "nat \<Rightarrow> bytes"                                \<comment> \<open>\<open>RAND_bytes\<close>\<close>
  os_encode :: "bytes \<Rightarrow> string"                             \<comment> \<open>writing through \<open>BIO_f_base64\<close>\<close>
  os_decode :: "string \<Rightarrow> bytes option"                      \<comment> \<open>reading; \<open>None\<close> for a negative length\<close>
  os_write_public :: "'k \<Rightarrow> string option"
  os_write_private :: "'k \<Rightarrow> string option"
  os_read_private :: "string \<Rightarrow> 'k option"
  os_read_public :: "string \<Rightarrow> 'k option"
  os_keygen :: 'k
  os_ecdh :: "'k \<Rightarrow> 'k \<Rightarrow> bytes"
  os_hkdf :: "bytes \<Rightarrow> nat \<Rightarrow> bytes"
  os_gcm_encrypt :: "bytes \<Rightarrow> bytes \<Rightarrow> bytes \<Rightarrow> bytes \<times> bytes"       \<comment> \<open>key, IV, plain: cipher and tag\<close>
  os_gcm_decrypt :: "bytes \<Rightarrow> bytes \<Rightarrow> bytes \<Rightarrow> bytes \<Rightarrow> bytes option" \<comment> \<open>key, IV, cipher, tag\<close>
  os_sign :: "'k \<Rightarrow> bytes \<Rightarrow> bytes"
  os_verify :: "'k \<Rightarrow> bytes \<Rightarrow> bytes \<Rightarrow> int"

text \<open>\<open>if (1 != call(...)) throw std::runtime_error(error);\<close>\<close>

definition guard :: "'k openssl \<Rightarrow> string \<Rightarrow> string \<Rightarrow> 'a res \<Rightarrow> 'a res" where
  "guard L call error r = (if os_ok L call then r else Inl (Std_Exc error))"

subsection \<open>Keys as PEM texts\<close>

definition pemFromEVP :: "'k openssl \<Rightarrow> 'k option \<Rightarrow> bool \<Rightarrow> string" where
  "pemFromEVP L pkey pub =
     (case pkey of
        None \<Rightarrow> ''''
      | Some k \<Rightarrow>
          if \<not> os_ok L ''BIO_new'' then ''''
          else (case (if pub then os_write_public L k else os_write_private L k) of
                  None \<Rightarrow> '''' | Some s \<Rightarrow> s))"

definition evpFromPem :: "'k openssl \<Rightarrow> string \<Rightarrow> 'k option" where
  "evpFromPem L pem =
     (if pem = '''' then None
      else if \<not> os_ok L ''BIO_new_mem_buf'' then None
      else case os_read_private L pem of
             Some k \<Rightarrow> Some k
           | None \<Rightarrow> if \<not> os_ok L ''BIO_new_mem_buf 2'' then None else os_read_public L pem)"

subsection \<open>Random bytes and base64\<close>

definition ssl_generateSecret :: "'k openssl \<Rightarrow> nat \<Rightarrow> bytes res" where
  "ssl_generateSecret L n =
     (if n = 0 then Inr []
      else guard L ''RAND_bytes'' ''RAND_bytes failed'' (Inr (os_random L n)))"

definition ssl_keyToString :: "'k openssl \<Rightarrow> bytes \<Rightarrow> string" where
  "ssl_keyToString L k = (if k = [] then '''' else os_encode L k)"

definition ssl_stringToKey :: "'k openssl \<Rightarrow> string \<Rightarrow> bytes res" where
  "ssl_stringToKey L s =
     (if s = '''' then Inr [] else Inr (case os_decode L s of None \<Rightarrow> [] | Some b \<Rightarrow> b))"

subsection \<open>AES-256-GCM\<close>

definition IV_LEN :: nat where "IV_LEN = 12"
definition TAG_LEN :: nat where "TAG_LEN = 16"

text \<open>\<open>EVP_EncryptInit_ex\<close> is given \<open>key.data()\<close> and reads the 32 bytes of an AES-256 key.\<close>

definition aes_gcm_encrypt :: "'k openssl \<Rightarrow> bytes \<Rightarrow> bytes \<Rightarrow> bytes res" where
  "aes_gcm_encrypt L key plain =
     bnd (ssl_generateSecret L IV_LEN) (\<lambda>iv.
       guard L ''EVP_CIPHER_CTX_new'' ''EVP_CIPHER_CTX_new failed'' (
       guard L ''EVP_EncryptInit_ex'' ''EncryptInit failed'' (
       guard L ''EVP_CTRL_GCM_SET_IVLEN'' ''set_ivlen failed'' (
       guard L ''EVP_EncryptInit_ex 2'' ''set_key_iv failed'' (
       guard L ''EVP_EncryptUpdate'' ''EncryptUpdate failed'' (
       guard L ''EVP_EncryptFinal_ex'' ''EncryptFinal failed'' (
       guard L ''EVP_CTRL_GCM_GET_TAG'' ''GetTag failed'' (
         let (cipher, tag) = os_gcm_encrypt L (take 32 key) iv plain
         in Inr (iv @ tag @ cipher)))))))))"

definition aes_gcm_decrypt :: "'k openssl \<Rightarrow> bytes \<Rightarrow> bytes \<Rightarrow> bytes res" where
  "aes_gcm_decrypt L key inp =
     (if length inp < IV_LEN + TAG_LEN then Inl (Std_Exc ''cipher too short'')
      else
        let iv = take IV_LEN inp;
            tag = take TAG_LEN (drop IV_LEN inp);
            cipher = drop (IV_LEN + TAG_LEN) inp
        in guard L ''EVP_CIPHER_CTX_new'' ''EVP_CIPHER_CTX_new failed'' (
           guard L ''EVP_DecryptInit_ex'' ''DecryptInit failed'' (
           guard L ''EVP_CTRL_GCM_SET_IVLEN'' ''set_ivlen failed'' (
           guard L ''EVP_DecryptInit_ex 2'' ''set_key_iv failed'' (
           guard L ''EVP_DecryptUpdate'' ''DecryptUpdate failed'' (
           guard L ''EVP_CTRL_GCM_SET_TAG'' ''SetTag failed'' (
             case os_gcm_decrypt L (take 32 key) iv cipher tag of
               None \<Rightarrow> Inl (Std_Exc ''DecryptFinal - tag mismatch'')
             | Some plain \<Rightarrow> Inr plain)))))))"

definition ssl_encrypt :: "'k openssl \<Rightarrow> bytes \<Rightarrow> bytes \<Rightarrow> bytes res" where
  "ssl_encrypt L m key =
     (if length key < 32 then Inl (Std_Exc ''Key too short for AES-256-GCM'')
      else aes_gcm_encrypt L key m)"

definition ssl_decrypt :: "'k openssl \<Rightarrow> bytes \<Rightarrow> bytes \<Rightarrow> bytes res" where
  "ssl_decrypt L cipher key =
     (if length key < 32 then Inl (Std_Exc ''Key too short for AES-256-GCM'')
      else aes_gcm_decrypt L key cipher)"

subsection \<open>Key pairs, session keys, signatures\<close>

definition ssl_generateKeyPair :: "'k openssl \<Rightarrow> (bytes \<times> bytes) res" where
  "ssl_generateKeyPair L =
     guard L ''EVP_PKEY_CTX_new_id'' ''EVP_PKEY_CTX_new_id failed'' (
     guard L ''EVP_PKEY_keygen_init'' ''EVP_PKEY_keygen_init failed'' (
     guard L ''EVP_PKEY_CTX_set_ec_paramgen_curve_nid''
       ''EVP_PKEY_CTX_set_ec_paramgen_curve_nid failed'' (
     guard L ''EVP_PKEY_keygen'' ''EVP_PKEY_keygen failed'' (
       let pkey = Some (os_keygen L);
           privPem = pemFromEVP L pkey False;
           pubPem = pemFromEVP L pkey True
       in Inr (bytes_of_string pubPem, bytes_of_string privPem)))))"

definition ssl_createSessionKey :: "'k openssl \<Rightarrow> bytes \<Rightarrow> bytes \<Rightarrow> bytes res" where
  "ssl_createSessionKey L privateKeyPem peerPublicPem =
     (case (evpFromPem L (string_of_bytes privateKeyPem), evpFromPem L (string_of_bytes peerPublicPem)) of
        (Some minePriv, Some peerPublic) \<Rightarrow>
          guard L ''EVP_PKEY_CTX_new'' ''EVP_PKEY_CTX_new failed'' (
          guard L ''EVP_PKEY_derive_init'' ''derive_init failed'' (
          guard L ''EVP_PKEY_derive_set_peer'' ''derive_set_peer failed'' (
          guard L ''EVP_PKEY_derive length'' ''derive_len failed'' (
          guard L ''EVP_PKEY_derive'' ''derive failed'' (
            let secret = os_ecdh L minePriv peerPublic in
            guard L ''EVP_PKEY_CTX_new_id HKDF'' ''HKDF ctx failed'' (
            guard L ''EVP_PKEY_derive_init HKDF'' ''HKDF init failed'' (
            guard L ''EVP_PKEY_CTX_set_hkdf_md'' ''HKDF set md failed'' (
            guard L ''EVP_PKEY_CTX_set1_hkdf_key'' ''HKDF set key failed'' (
            guard L ''EVP_PKEY_derive HKDF'' ''HKDF derive failed'' (
              Inr (os_hkdf L secret 32)))))))))))
      | _ \<Rightarrow> Inl (Std_Exc ''Invalid PEM keys''))"

definition ssl_sign :: "'k openssl \<Rightarrow> bytes \<Rightarrow> bytes \<Rightarrow> bytes res" where
  "ssl_sign L m privateKey =
     (case evpFromPem L (string_of_bytes privateKey) of
        None \<Rightarrow> Inl (Std_Exc ''invalid private key PEM'')
      | Some pkey \<Rightarrow>
          guard L ''EVP_MD_CTX_new'' ''EVP_MD_CTX_new failed'' (
          guard L ''EVP_DigestSignInit'' ''DigestSignInit failed'' (
          guard L ''EVP_DigestSignUpdate'' ''DigestSignUpdate failed'' (
          guard L ''EVP_DigestSignFinal length'' ''DigestSignFinal(len) failed'' (
          guard L ''EVP_DigestSignFinal'' ''DigestSignFinal failed'' (
            Inr (os_sign L pkey m)))))))"

definition ssl_verify :: "'k openssl \<Rightarrow> bytes \<Rightarrow> bytes \<Rightarrow> bytes \<Rightarrow> bool" where
  "ssl_verify L m sig publicKey =
     (case evpFromPem L (string_of_bytes publicKey) of
        None \<Rightarrow> False
      | Some pkey \<Rightarrow>
          if \<not> os_ok L ''EVP_MD_CTX_new'' then False
          else if \<not> os_ok L ''EVP_DigestVerifyInit'' then False
          else if \<not> os_ok L ''EVP_DigestVerifyUpdate'' then False
          else os_verify L pkey m sig = 1)"

definition OpenSSLCrypto :: "'k openssl \<Rightarrow> ICrypto" where
  "OpenSSLCrypto L = \<lparr> generateSecret = ssl_generateSecret L, generateKeyPair = ssl_generateKeyPair L,
     keyToString = ssl_keyToString L, stringToKey = ssl_stringToKey L,
     createSessionKey = ssl_createSessionKey L, encrypt = ssl_encrypt L, decrypt = ssl_decrypt L,
     sign = ssl_sign L, verify = ssl_verify L \<rparr>"

subsection \<open>The contract, from what OpenSSL documents\<close>

text \<open>
  No call fails; random strings have the length asked for; base64 decodes what it encoded and writes
  only its alphabet; a tag has 16 bytes and decryption undoes encryption; the two sides of a
  Diffie-Hellman exchange agree; a derived key has the length asked for; a signature by a private key
  verifies with its public key. \<open>pair a b\<close>: the keys \<open>a\<close> and \<open>b\<close> are the two halves of a pair.
\<close>

definition openssl_laws :: "'k openssl \<Rightarrow> ('k \<Rightarrow> 'k \<Rightarrow> bool) \<Rightarrow> bool" where
  "openssl_laws L pair \<longleftrightarrow>
     (\<forall>call. os_ok L call) \<and>
     (\<forall>n. length (os_random L n) = n) \<and>
     (\<forall>b. b \<noteq> [] \<longrightarrow> os_encode L b \<noteq> '''' \<and> os_decode L (os_encode L b) = Some b) \<and>
     (\<forall>b. CHR 0x00 \<notin> set (os_encode L b) \<and> CHR ''|'' \<notin> set (os_encode L b)) \<and>
     (\<forall>key iv m. length (snd (os_gcm_encrypt L key iv m)) = 16) \<and>
     (\<forall>key iv m. os_gcm_decrypt L key iv (fst (os_gcm_encrypt L key iv m))
        (snd (os_gcm_encrypt L key iv m)) = Some m) \<and>
     (\<forall>a a' b b'. pair a a' \<longrightarrow> pair b b' \<longrightarrow> os_ecdh L a b' = os_ecdh L b a') \<and>
     (\<forall>s n. length (os_hkdf L s n) = n) \<and>
     (\<forall>a a' m. pair a a' \<longrightarrow> os_verify L a' m (os_sign L a m) = 1)"

text \<open>Two byte strings that hold the PEM texts of a pair.\<close>

definition pem_pair :: "'k openssl \<Rightarrow> ('k \<Rightarrow> 'k \<Rightarrow> bool) \<Rightarrow> bytes \<Rightarrow> bytes \<Rightarrow> bool" where
  "pem_pair L pair a A \<longleftrightarrow>
     (\<exists>k k'. evpFromPem L (string_of_bytes a) = Some k \<and> evpFromPem L (string_of_bytes A) = Some k' \<and>
        pair k k')"

lemma guard_ok [simp]: "os_ok L c \<Longrightarrow> guard L c e r = r"
  by (simp add: guard_def)

text \<open>The layout IV, tag, ciphertext is taken apart as it was put together.\<close>

lemma aes_gcm_roundtrip:
  assumes "openssl_laws L pair"
  shows "\<exists>c. aes_gcm_encrypt L key m = Inr c \<and> length c \<ge> IV_LEN + TAG_LEN \<and>
    aes_gcm_decrypt L key c = Inr m"
proof -
  let ?iv = "os_random L IV_LEN"
  obtain cipher tag where ct: "os_gcm_encrypt L (take 32 key) ?iv m = (cipher, tag)"
    by (cases "os_gcm_encrypt L (take 32 key) ?iv m")
  have len: "length ?iv = 12" "length tag = 16"
    using assms ct by (auto simp: openssl_laws_def IV_LEN_def dest: spec [of _ "take 32 key"])
      (metis snd_conv)
  have dec: "os_gcm_decrypt L (take 32 key) ?iv cipher tag = Some m"
    using assms ct unfolding openssl_laws_def by (metis fst_conv snd_conv)
  have ok: "os_ok L call" for call using assms by (simp add: openssl_laws_def)
  have enc: "aes_gcm_encrypt L key m = Inr (?iv @ tag @ cipher)"
    by (simp add: aes_gcm_encrypt_def ssl_generateSecret_def ok ct) (simp add: IV_LEN_def)
  have "aes_gcm_decrypt L key (?iv @ tag @ cipher) = Inr m"
    using dec len by (simp add: aes_gcm_decrypt_def ok Let_def TAG_LEN_def IV_LEN_def)
  with enc len show ?thesis by (auto simp: IV_LEN_def TAG_LEN_def)
qed

lemma OpenSSLCrypto_meets:
  assumes L: "openssl_laws L pair"
  shows "icrypto (OpenSSLCrypto L) (pem_pair L pair) (\<lambda>k. length k = 32)"
proof unfold_locales
  have ok: "os_ok L call" for call using L by (simp add: openssl_laws_def)
  fix a A b B k m s :: bytes
  show "\<exists>s. sign (OpenSSLCrypto L) m a = Inr s" if "pem_pair L pair a A"
    using that by (auto simp: OpenSSLCrypto_def ssl_sign_def pem_pair_def ok)
  show "verify (OpenSSLCrypto L) m s A"
    if "pem_pair L pair a A" "sign (OpenSSLCrypto L) m a = Inr s"
    using that L by (auto simp: OpenSSLCrypto_def ssl_sign_def ssl_verify_def pem_pair_def ok
        openssl_laws_def)
  show "\<exists>k. createSessionKey (OpenSSLCrypto L) a B = Inr k \<and>
      createSessionKey (OpenSSLCrypto L) b A = Inr k \<and> length k = 32"
    if "pem_pair L pair a A" "pem_pair L pair b B"
  proof -
    obtain x x' y y' where "evpFromPem L (string_of_bytes a) = Some x"
      "evpFromPem L (string_of_bytes A) = Some x'" "evpFromPem L (string_of_bytes b) = Some y"
      "evpFromPem L (string_of_bytes B) = Some y'" "pair x x'" "pair y y'"
      using \<open>pem_pair L pair a A\<close> \<open>pem_pair L pair b B\<close> by (auto simp: pem_pair_def)
    moreover have "os_ecdh L x y' = os_ecdh L y x'" "length (os_hkdf L (os_ecdh L x y') 32) = 32"
      using L calculation unfolding openssl_laws_def by blast+
    ultimately show ?thesis
      by (simp add: OpenSSLCrypto_def ssl_createSessionKey_def ok Let_def)
  qed
  show "\<exists>c. encrypt (OpenSSLCrypto L) m k = Inr c \<and> decrypt (OpenSSLCrypto L) c k = Inr m"
    if "length k = 32"
    using aes_gcm_roundtrip [OF L, of k m] that
    by (auto simp: OpenSSLCrypto_def ssl_encrypt_def ssl_decrypt_def)
  show "stringToKey (OpenSSLCrypto L) (keyToString (OpenSSLCrypto L) b) = Inr b"
    using L by (simp add: OpenSSLCrypto_def ssl_stringToKey_def ssl_keyToString_def openssl_laws_def)
  show "CHR 0x00 \<notin> set (keyToString (OpenSSLCrypto L) b)"
    "CHR ''|'' \<notin> set (keyToString (OpenSSLCrypto L) b)"
    using L by (simp_all add: OpenSSLCrypto_def ssl_keyToString_def openssl_laws_def)
qed

text \<open>The contract of \<open>ICrypto\<close> holds wherever OpenSSL does what it documents.\<close>

locale documented_openssl =
  fixes L :: "'k openssl" and pair :: "'k \<Rightarrow> 'k \<Rightarrow> bool"
  assumes documented: "openssl_laws L pair"

sublocale documented_openssl \<subseteq> icrypto "OpenSSLCrypto L" "pem_pair L pair" "\<lambda>k. length k = 32"
  by (rule OpenSSLCrypto_meets [OF documented])

context documented_openssl
begin

text \<open>What \<open>createSessionKey\<close> agrees on encrypts to at least 28 bytes: IV and tag come first.\<close>

lemma sealed_layout:
  assumes "pem_pair L pair a A" "pem_pair L pair b B"
  obtains k c where "createSessionKey (OpenSSLCrypto L) a B = Inr k" "createSessionKey (OpenSSLCrypto L) b A = Inr k"
    "length k = 32" "encrypt (OpenSSLCrypto L) m k = Inr c" "length c \<ge> 28" "decrypt (OpenSSLCrypto L) c k = Inr m"
proof -
  obtain k where k: "createSessionKey (OpenSSLCrypto L) a B = Inr k" "createSessionKey (OpenSSLCrypto L) b A = Inr k"
    "length k = 32" using session [OF assms] by blast
  moreover obtain c where "encrypt (OpenSSLCrypto L) m k = Inr c" "length c \<ge> 28" "decrypt (OpenSSLCrypto L) c k = Inr m"
    using aes_gcm_roundtrip [OF documented, of k m] k(3)
    by (auto simp: OpenSSLCrypto_def ssl_encrypt_def ssl_decrypt_def IV_LEN_def TAG_LEN_def)
  ultimately show thesis using that by blast
qed

end

end
