(* ===== verification/DC_MessageTheorems.thy ===== *)
theory DC_MessageTheorems
  imports DC_Fixtures DC_OpenSSL
begin

text \<open>
  What sending, storing and reading texts promises, the forms of the messages, and the two
  implementations of the cryptography.
\<close>

section \<open>A text from end to end\<close>

text \<open>
  C17. A text that its sender serializes is read by its receiver from the JSON text sent, and by the sender
  from the copy it keeps: both get the message as it was, the signature filled in.
\<close>

theorem text_message_delivered:
  assumes "icrypto C key_pair session_key" "json_laws J" "json_text_laws J"
    and "text_keys C key_pair privA (publicKey (m_from m))"
    and "text_keys C key_pair privB (publicKey (m_to m))" "m_type m = TEXT_MESSAGE"
  shows "\<exists>j s. TextMessage_serialize J C m privA = Inr j \<and>
    (\<forall>raw. json_dump J j = Inr raw \<longrightarrow>
       bnd (json_parse J raw) (\<lambda>j. TextMessage_of_json J C j privB False False) = Inr (m\<lparr>m_signature := s\<rparr>) \<and>
       bnd (json_parse J raw) (\<lambda>j. TextMessage_of_json J C j privA True True) = Inr (m\<lparr>m_signature := s\<rparr>))"
  using icrypto.text_roundtrip [OF assms(1,2,4-6)] assms(3) by (fastforce simp: json_text_laws_def)

theorem text_message_delivered_witness:
  "\<exists>j s. TextMessage_serialize jt_lib tests_crypto hello alice_key = Inr j \<and>
    bnd (json_parse jt_lib (jv_text j)) (\<lambda>j. TextMessage_of_json jt_lib tests_crypto j bob_key False False) =
      Inr (hello\<lparr>m_signature := s\<rparr>)"
proof -
  have keys: "text_keys tests_crypto xor_key_pair alice_key (publicKey (m_from hello))"
    "text_keys tests_crypto xor_key_pair bob_key (publicKey (m_to hello))" "m_type hello = TEXT_MESSAGE"
    by simp_all
  from text_message_delivered [OF tests_crypto_meets jt_laws jt_text_laws keys] show ?thesis by force
qed

section \<open>The message store\<close>

text \<open>
  C25. A message is stored just if its identifier is new; then the lookup by its identifier gives the hash
  it was stored under, and every other lookup what it gave before.
\<close>

theorem message_insert_lookup:
  assumes "message_db_inv d"
  shows "\<exists>d'. MessageDB_insertSecretMessage Q m dump h d =
      Inr (c_str (m_id m) \<notin> st_id ` set (db_messages d), d') \<and> message_db_inv d' \<and>
    (c_str (m_id m) \<notin> st_id ` set (db_messages d) \<longrightarrow>
       MessageDB_findBlockHashByMessageId Q (m_id m) h0 d' = Inr (True, c_str h)) \<and>
    (\<forall>i. c_str i \<noteq> c_str (m_id m) \<longrightarrow>
       MessageDB_findBlockHashByMessageId Q i h0 d' = MessageDB_findBlockHashByMessageId Q i h0 d)"
proof -
  obtain d' where d': "MessageDB_insertSecretMessage Q m dump h d =
      Inr (c_str (m_id m) \<notin> st_id ` set (db_messages d), d')" "message_db_inv d'"
    "db_messages d' = (if c_str (m_id m) \<in> st_id ` set (db_messages d) then db_messages d
      else db_messages d @ [stored m dump h])"
    using MessageDB_insert [OF assms] by blast
  have "find (\<lambda>e. st_id e = c_str (m_id m)) (db_messages d) = None"
    if "c_str (m_id m) \<notin> st_id ` set (db_messages d)"
    using that by (force simp: find_None_iff)
  with d' show ?thesis
    by (auto simp: MessageDB_block_of [OF assms] MessageDB_block_of [OF d'(2)] find_append stored_def
        split: option.split)
qed

theorem message_insert_witness:
  "\<exists>d'. MessageDB_insertSecretMessage lite hello ''x'' ''h'' fresh_db = Inr (True, d') \<and>
    MessageDB_findBlockHashByMessageId lite (m_id hello) '''' d' = Inr (True, ''h'')"
  using message_insert_lookup [OF fresh_messages(1), of lite hello "''x''" "''h''" "''''"] by auto



text \<open>
  C23. On a valid chain \<open>findInvalidChatMessageIDs\<close> gives the identifiers of just the messages that are not
  stored under the hash they carry or whose block is missing or of another author, time or text.
\<close>

theorem invalid_messages_found:
  assumes "chain_db_inv Q d" "message_db_inv d" "valid_chain SHA256 C (db_chain d)"
  shows "findInvalidChatMessageIDs SHA256 C (MessageDB J C' cfg srt Q) (ChainDB Q) d ms [] =
    Inr (map m_id (filter (\<lambda>m. \<not> vouched SHA256 (db_messages d) (db_chain d) m) ms))"
  using msv.findInvalid_valid [OF assms, of J C' cfg srt ms "[]"] by simp

theorem invalid_messages_witness:
  "findInvalidChatMessageIDs sha256_bytes tests_crypto (MessageDB jt_lib tests_crypto alice_cfg id lite)
     (ChainDB lite) kept_db [hello_kept, hello] [] = Inr [m_id hello]"
proof -
  have "m_blockHash hello = ''0''"
    by (simp add: hello_def TextMessage_create_def TextMessage_def Message_def secret_message.defs
        text_message.defs message_ext_defs)
  moreover have "valid_chain sha256_bytes tests_crypto (db_chain kept_db)" by simp
  moreover have "hash hello_block \<noteq> ''''"
    using hello_block(2) sha256_length [OF xor_digest, of "toStringForHash hello_block"]
    by (auto simp: valid_block_def)
  ultimately show ?thesis
    by (subst invalid_messages_found) (simp_all add: vouched_def stored_def)
qed

text \<open>
  A text whose block is on the chain is shown as valid; the same message with a text of another digest
  is shown as invalid.
\<close>

theorem tampered_text_flagged:
  assumes "chain_db_inv Q d" "message_db_inv d" "valid_chain SHA256 C (db_chain d)" "sha_len SHA256"
    and "b \<in> set (db_chain d)" "block_matches SHA256 b m" "m_blockHash m = hash b"
    and "e \<in> set (db_messages d)" "st_id e = c_str (m_id m)" "st_block e = hash b"
    and "sha256 SHA256 (c_str t) \<noteq> sha256 SHA256 (c_str (m_text m))"
  shows "findInvalidChatMessageIDs SHA256 C (MessageDB J C' cfg srt Q) (ChainDB Q) d
    [m, m\<lparr>m_text := t\<rparr>] [] = Inr [m_id m]"
proof -
  have "valid_block SHA256 C b" using assms(3,5) by (simp add: valid_chain_def)
  then have h: "c_str (hash b) = hash b" "hash b \<noteq> ''''"
    using sha256_length [OF assms(4), of "toStringForHash b"]
    by (auto simp: valid_block_hash_clean valid_block_def)
  have "find (\<lambda>x. hash x = hash b) (db_chain d) = Some b"
    using cdb.distinct_hashes [OF assms(1)] assms(5) by (rule find_key_distinct)
  moreover have "find (\<lambda>x. st_id x = st_id e) (db_messages d) = Some e"
    using MessageDB_ids [OF assms(2)] assms(8) by (rule find_key_distinct)
  ultimately have "vouched SHA256 (db_messages d) (db_chain d) m"
    "\<not> vouched SHA256 (db_messages d) (db_chain d) (m\<lparr>m_text := t\<rparr>)"
    using assms(6,7,9-11) h by (auto simp: vouched_def block_matches_def)
  then show ?thesis by (simp add: msv.findInvalid_valid [OF assms(1-3)])
qed

theorem tampered_text_witness:
  "findInvalidChatMessageIDs sha256_bytes tests_crypto (MessageDB jt_lib tests_crypto alice_cfg id lite)
     (ChainDB lite) kept_db [hello_kept, hello_kept\<lparr>m_text := ''hullo''\<rparr>] [] = Inr [''6f1c'']"
proof -
  have "sha256_bytes (bytes_of_string ''hullo'') \<noteq> sha256_bytes (bytes_of_string ''hello'')"
  proof
    assume "sha256_bytes (bytes_of_string ''hullo'') = sha256_bytes (bytes_of_string ''hello'')"
    then have "sha256_bytes (bytes_of_string ''hullo'') ! 1 = sha256_bytes (bytes_of_string ''hello'') ! 1"
      by simp
    then show False by (simp add: bytes_of_string_def sha256_bytes_def)
  qed
  then have "sha256 sha256_bytes (c_str ''hullo'') \<noteq> sha256 sha256_bytes (c_str ''hello'')"
    by (simp add: sha256_def toHex_inj c_str_def)
  then show ?thesis
    using tampered_text_flagged [of lite kept_db sha256_bytes tests_crypto hello_block hello_kept
        "stored hello_kept ''{}'' (hash hello_block)" "''hullo''" jt_lib tests_crypto alice_cfg id]
    by (simp add: stored_def)
qed

text \<open>
  \<open>removeMessageByBlockHashOrId\<close> removes the messages of the block and reports success whatever it
  found; the identifier plays no part.
\<close>

theorem removal_is_by_block:
  assumes "message_db_inv d"
  shows "\<exists>d'. removeMessageByBlockHashOrId (MessageDB J C cfg srt Q) h i d = Inr (True, d') \<and>
    message_db_inv d' \<and> db_messages d' = filter (\<lambda>e. st_block e \<noteq> c_str h) (db_messages d)"
  using msv.removeMessageByBlockHashOrId_effect [OF assms] by blast

theorem removal_is_by_block_witness:
  "\<exists>d'. removeMessageByBlockHashOrId (MessageDB jt_lib tests_crypto alice_cfg id lite)
     (hash hello_block) ''other'' kept_db = Inr (True, d') \<and> db_messages d' = []"
  using removal_is_by_block [OF kept_db(3), of jt_lib tests_crypto alice_cfg id lite "hash hello_block"
      "''other''"]
  by (auto simp: stored_def)

text \<open>
  \<open>removeMessageById\<close> compares the identifier with the integer key of the table: for an identifier that
  is no number it removes nothing, the message of that identifier included, and reports success.
\<close>

theorem removal_by_id_ineffective:
  assumes "message_db_inv d" "\<forall>n. sq_int Q (c_str i) \<noteq> to_string n"
  shows "\<exists>d'. removeMessageById (MessageDB J C cfg srt Q) i d = Inr (True, d') \<and>
    db_messages d' = db_messages d"
proof -
  obtain d' where d': "MessageDB_removeMessageById Q i d = Inr (True, d')"
    "message_rows d' = filter (\<lambda>r. to_string (mr_id r) \<noteq> sq_int Q (c_str i)) (message_rows d)"
    using MessageDB_remove_id [OF assms(1)] by blast
  moreover have "message_rows d' = message_rows d"
    unfolding d'(2) by (intro filter_True ballI) (metis assms(2))
  ultimately show ?thesis by (simp add: MessageDB_def db_messages_def)
qed

theorem removal_by_id_witness:
  "\<exists>d'. removeMessageById (MessageDB jt_lib tests_crypto alice_cfg id lite) (m_id hello_kept) kept_db =
     Inr (True, d') \<and> st_id ` set (db_messages d') = {m_id hello_kept}"
proof -
  have "''6f1c'' \<noteq> to_string n" for n
  proof
    assume "''6f1c'' = to_string n"
    then have "CHR ''f'' \<in> set (to_string n)" by (simp flip: \<open>''6f1c'' = to_string n\<close>)
    from to_string_is_digits [OF this] show False by (simp add: is_digit_in_def digit_val_def)
  qed
  then have "\<forall>n. sq_int lite (c_str (m_id hello_kept)) \<noteq> to_string n"
    by (simp add: lite_def c_str_def)
  from removal_by_id_ineffective [OF kept_db(3) this, of jt_lib tests_crypto alice_cfg id]
  show ?thesis by (auto simp: stored_def c_str_def)
qed

section \<open>The forms of the messages\<close>





section \<open>Cryptography\<close>

text \<open>
  The cryptography of the repository's tests does what texts and blocks need: a signature verifies
  with the signer's key, the two sides of a session agree on a key that decrypts what it encrypted, and a
  key survives being written as text.
\<close>

theorem xor_crypto_contract:
  assumes "a \<noteq> []" "b \<noteq> []"
  shows "\<exists>s k c. sign (XORCrypto rng) m a = Inr s \<and> verify (XORCrypto rng) m s a \<and>
    createSessionKey (XORCrypto rng) a b = Inr k \<and> createSessionKey (XORCrypto rng) b a = Inr k \<and>
    encrypt (XORCrypto rng) m k = Inr c \<and> decrypt (XORCrypto rng) c k = Inr m \<and>
    stringToKey (XORCrypto rng) (keyToString (XORCrypto rng) a) = Inr a"
proof -
  have p: "xor_key_pair a a" "xor_key_pair b b" using assms by (simp_all add: xor_key_pair_def)
  obtain s where "sign (XORCrypto rng) m a = Inr s" "verify (XORCrypto rng) m s a"
    using xorc.sign_verifies [OF p(1)] by blast
  moreover obtain k c where "createSessionKey (XORCrypto rng) a b = Inr k"
    "createSessionKey (XORCrypto rng) b a = Inr k" "encrypt (XORCrypto rng) m k = Inr c"
    "decrypt (XORCrypto rng) c k = Inr m" using xorc.sealed [OF p] by blast
  ultimately show ?thesis using xorc.key_text by blast
qed

theorem xor_crypto_witness:
  "\<exists>s. sign tests_crypto [1, 2] [7] = Inr s \<and> verify tests_crypto [1, 2] s [7]"
  using xor_crypto_contract [of "[7]" "[42]" word_of_nat "[1, 2]"] by (auto simp: tests_crypto_def)

text \<open>
  C29. With what OpenSSL documents, \<open>OpenSSLCrypto\<close> does the same for keys in PEM form, and its sealed texts
  are IV, tag and ciphertext, 28 bytes longer than the ciphertext.
\<close>

theorem openssl_crypto_contract:
  assumes "openssl_laws L pair" "pem_pair L pair a A" "pem_pair L pair b B"
  shows "\<exists>s k c. sign (OpenSSLCrypto L) m a = Inr s \<and> verify (OpenSSLCrypto L) m s A \<and>
    createSessionKey (OpenSSLCrypto L) a B = Inr k \<and> createSessionKey (OpenSSLCrypto L) b A = Inr k \<and>
    length k = 32 \<and> encrypt (OpenSSLCrypto L) m k = Inr c \<and> length c \<ge> 28 \<and>
    decrypt (OpenSSLCrypto L) c k = Inr m \<and>
    stringToKey (OpenSSLCrypto L) (keyToString (OpenSSLCrypto L) a) = Inr a"
proof -
  have D: "documented_openssl L pair" by (rule documented_openssl.intro [OF assms(1)])
  note C = documented_openssl.sealed_layout [OF D assms(2,3), of m] OpenSSLCrypto_meets [OF assms(1)]
  obtain s where "sign (OpenSSLCrypto L) m a = Inr s" "verify (OpenSSLCrypto L) m s A"
    using icrypto.sign_verifies [OF C(2) assms(2)] by blast
  then show ?thesis using C(1) icrypto.key_text [OF C(2)] by metis
qed

text \<open>So the service of the chain keeps its promises over the two implementations the program runs.\<close>

sublocale documented_openssl \<subseteq> service: blockchain_service "ChainDB Q" db_chain "chain_db_inv Q" "db_timely Q"
  "OpenSSLCrypto L" "pem_pair L pair" "\<lambda>k. length k = 32" for Q
  by (intro blockchain_service.intro cdb.chain_repo_axioms OpenSSLCrypto_meets documented)

subsection \<open>A concrete OpenSSL\<close>

text \<open>Every call succeeds; keys are their own PEM texts and the two halves of a pair are equal.\<close>

definition demo_tag :: "bytes \<Rightarrow> bytes" where
  "demo_tag m = take 16 (sha256_bytes m)"

definition demo_ssl :: "string openssl" where
  "demo_ssl = \<lparr> os_ok = (\<lambda>_. True), os_random = (\<lambda>n. replicate n 0), os_encode = toHex,
     os_decode = (\<lambda>s. case fromHex s of Inl _ \<Rightarrow> None | Inr b \<Rightarrow> Some b),
     os_write_public = Some, os_write_private = Some, os_read_private = Some, os_read_public = Some,
     os_keygen = ''k'', os_ecdh = (\<lambda>a b. map2 xor (sha256_bytes (bytes_of_string a))
       (sha256_bytes (bytes_of_string b))),
     os_hkdf = (\<lambda>s n. take n (s @ replicate n 0)),
     os_gcm_encrypt = (\<lambda>key iv m. (m, demo_tag (key @ iv @ m))),
     os_gcm_decrypt = (\<lambda>key iv c t. if t = demo_tag (key @ iv @ c) then Some c else None),
     os_sign = (\<lambda>k m. sha256_bytes (bytes_of_string k @ m)),
     os_verify = (\<lambda>k m s. if s = sha256_bytes (bytes_of_string k @ m) then 1 else 0) \<rparr>"

lemma map2_xor_commute: "length a = length b \<Longrightarrow> map2 xor a b = map2 xor b (a :: bytes)"
  by (induction a b rule: list_induct2) (simp_all add: xor.commute)

lemma demo_ssl_laws: "openssl_laws demo_ssl (=)"
proof -
  have "length (demo_tag m) = 16" for m using xor_digest by (simp add: demo_tag_def sha_len_def)
  moreover have "CHR 0x00 \<notin> set (toHex b) \<and> CHR ''|'' \<notin> set (toHex b)" for b
    using xorc.key_text_clean [of word_of_nat b] by (simp add: XORCrypto_def)
  moreover have "b \<noteq> [] \<Longrightarrow> toHex b \<noteq> ''''" for b by (cases b) (simp_all add: toHex_def hex_byte_def)
  moreover have "map2 xor (sha256_bytes a) (sha256_bytes b) = map2 xor (sha256_bytes b) (sha256_bytes a)"
    for a b using xor_digest by (intro map2_xor_commute) (simp add: sha_len_def)
  ultimately show ?thesis by (simp add: openssl_laws_def demo_ssl_def) (simp add: min_def)
qed

interpretation demo: documented_openssl demo_ssl "(=)"
  by unfold_locales (rule demo_ssl_laws)

theorem openssl_crypto_witness:
  "\<exists>s. sign (OpenSSLCrypto demo_ssl) [1, 2] (bytes_of_string ''k'') = Inr s \<and>
     verify (OpenSSLCrypto demo_ssl) [1, 2] s (bytes_of_string ''k'')"
proof -
  have "pem_pair demo_ssl (=) (bytes_of_string ''k'') (bytes_of_string ''k'')"
    by (simp add: pem_pair_def evpFromPem_def demo_ssl_def)
  from openssl_crypto_contract [OF demo.documented this this, of "[1, 2]"] show ?thesis by blast
qed

end
