(* ===== verification/DC_Sync.thy ===== *)
theory DC_Sync
  imports DC_App
begin

text \<open>
  Synchronizing with one peer: what its server answers to the requests of
  \<open>ChatApplication::init\<close> (src/app/ChatApplication.cpp), what the loop over the batches collects from
  the answers, and what \<open>accept_blocks\<close> makes of it.
\<close>

subsection \<open>Batches cut a list into pages\<close>

lemma concat_pages:
  "concat (map (\<lambda>i. take k (drop (i * k) t)) [0..<n]) = take (n * k) t"
proof (induction n)
  case (Suc n)
  have "take (Suc n * k) t = take (n * k + k) t" by (simp add: add.commute)
  also have "\<dots> = take (n * k) t @ take k (drop (n * k) t)" by (simp only: take_add)
  finally show ?case using Suc by simp
qed simp

lemma batch_index:
  assumes "i < (m + k - 1) div k" "0 < (k::nat)"
  shows "i * k < m"
proof -
  have "Suc i * k \<le> (m + k - 1) div k * k" using assms(1) by (intro mult_le_mono1) simp
  also have "\<dots> \<le> m + k - 1" by (rule div_times_less_eq_dividend)
  finally show ?thesis using assms(2) by simp
qed

lemma batch_start_fits:
  assumes "i < (unat limit + unat (step :: u32) - 1) div unat step" "0 < unat step"
  shows "unat (word_of_nat (i * unat step) :: u32) = i * unat step" "i * unat step < unat (limit :: u32)"
proof -
  show "i * unat step < unat limit" using assms by (rule batch_index)
  then have "i * unat step < 2 ^ 32" using unat_u32_bound [of limit] by simp
  then show "unat (word_of_nat (i * unat step) :: u32) = i * unat step"
    by (simp add: unat_of_nat take_bit_eq_mod del: of_nat_mult)
qed

lemma batch_start_bound:
  "s \<in> set (batch_starts step limit) \<Longrightarrow> 0 < unat step \<Longrightarrow> unat s < unat limit"
  using batch_start_fits [of _ limit step] by (auto simp: batch_starts_def simp del: of_nat_mult)

lemma batch_starts_pages:
  assumes "0 < unat step" "unat limit = length t"
  shows "concat (map (\<lambda>i. take (unat step) (drop (unat i) t)) (batch_starts step limit)) = t"
proof -
  let ?k = "unat step" and ?n = "(unat limit + unat step - 1) div unat step"
  have "length t \<le> ?n * ?k"
    using assms div_mult_mod_eq [of "unat limit + ?k - 1" ?k]
      mod_less_divisor [OF assms(1), of "unat limit + ?k - 1"] by linarith
  moreover have "map (\<lambda>i. take ?k (drop (unat i) t)) (batch_starts step limit) =
      map (\<lambda>i. take ?k (drop (i * ?k) t)) [0..<?n]"
    using batch_start_fits(1) [OF _ assms(1), of _ limit] by (simp add: batch_starts_def del: of_nat_mult)
  ultimately show ?thesis by (simp add: concat_pages)
qed

text \<open>The pages of a peer list, without the peer who asks.\<close>

lemma peer_pages:
  assumes "length (peers ps) \<le> 2 ^ 32 - 12"
  shows "concat (map (\<lambda>s. peer_list_loop ps me (unat (s + PEERS_BATCH_SIZE)) (unat s))
      (batch_starts PEERS_BATCH_SIZE (getPeersCount ps))) = filter (\<lambda>p. p \<noteq> me) (peers ps)"
proof -
  have k: "unat (getPeersCount ps) = length (peers ps)"
    using assms by (simp add: getPeersCount_def unat_of_nat take_bit_eq_mod)
  have sum: "unat (s + PEERS_BATCH_SIZE) - unat s = 12"
    if "s \<in> set (batch_starts PEERS_BATCH_SIZE (getPeersCount ps))" for s
    using batch_start_bound [OF that] k assms by (simp add: PEERS_BATCH_SIZE_def unat_word_ariths)
  have "concat (map (\<lambda>s. peer_list_loop ps me (unat (s + PEERS_BATCH_SIZE)) (unat s))
      (batch_starts PEERS_BATCH_SIZE (getPeersCount ps))) =
    filter (\<lambda>p. p \<noteq> me) (concat (map (\<lambda>s. take 12 (drop (unat s) (peers ps)))
      (batch_starts PEERS_BATCH_SIZE (getPeersCount ps))))"
    using sum by (simp add: peer_list_loop_eq filter_concat comp_def cong: map_cong)
  also have "\<dots> = filter (\<lambda>p. p \<noteq> me) (peers ps)"
    using batch_starts_pages [of PEERS_BATCH_SIZE "getPeersCount ps" "peers ps"] k assms
    by (simp add: PEERS_BATCH_SIZE_def)
  finally show ?thesis .
qed

subsection \<open>One exchange\<close>

text \<open>
  The reply of a peer whose node is in state \<open>ns\<close>: all bytes arrive, and a request that gets no
  answer leaves the client with the empty text.
\<close>

definition server_reply :: "('s, 'j) env \<Rightarrow> request_env \<Rightarrow> 's node \<Rightarrow> string \<Rightarrow> string" where
  "server_reply E q ns sent =
     (case server_recv (length sent) sent of
        None \<Rightarrow> ''''
      | Some raw \<Rightarrow>
          (case fst (onMessage E q raw ns) of
             Inr (Some answer) \<Rightarrow> receiveMessage (length answer) answer
           | _ \<Rightarrow> ''''))"

text \<open>A value is written as a text that fits the buffers.\<close>

definition fits :: "('j, 'x) json_lib_scheme \<Rightarrow> 'j \<Rightarrow> bool" where
  "fits J j \<longleftrightarrow> (\<exists>s. json_dump J j = Inr s \<and> s \<noteq> '''' \<and> length s < BUFFER_SIZE)"

lemma recv_all:
  assumes "length s < BUFFER_SIZE"
  shows "s \<noteq> '''' \<Longrightarrow> server_recv (length s) s = Some s"
    and "CHR 0x00 \<notin> set s \<Longrightarrow> receiveMessage (length s) s = s"
  using assms by (auto simp: server_recv_def receiveMessage_def Let_def min_def BUFFER_SIZE_def c_str_id)

lemma has_base_type:
  "json_laws J \<Longrightarrow> has_base J m j \<Longrightarrow> json_at J j ''type'' = Inr (json_of_string J (fromMessageTypeToString (m_type m)))"
  by (simp add: has_base_def has_field_def)

lemma has_base_index:
  "json_laws J \<Longrightarrow> has_base J m j \<Longrightarrow> json_index J j ''type'' = Inr (json_of_string J (fromMessageTypeToString (m_type m)))"
  by (auto simp: has_base_def has_field_def json_index_def dest: json_at_ref)

lemma of_type_name:
  "json_laws (e_json E) \<Longrightarrow> of_type E (json_of_string (e_json E) (fromMessageTypeToString t)) t' \<longleftrightarrow> t = t'"
  by (simp add: of_type_def json_eq_string_of del: fromMessageTypeToString.simps)

lemma range_serialized:
  assumes "json_laws J"
  shows "has_base J m (BlockRangeMessage_serialize J m)"
    and "\<not> json_contains J (BlockRangeMessage_serialize J m) ''previousHash''"
    and "has_base J r (BlockRangeMessageResponse_serialize J r)"
proof -
  show "has_base J m (BlockRangeMessage_serialize J m)" "has_base J r (BlockRangeMessageResponse_serialize J r)"
    unfolding BlockRangeMessage_serialize_def BlockRangeMessageResponse_serialize_def Let_def
    by (intro has_base_payload has_base_basic assms)+
  show "\<not> json_contains J (BlockRangeMessage_serialize J m) ''previousHash''"
    by (simp add: BlockRangeMessage_serialize_def getBasicSerialization_def set_payload_def Let_def
        json_simps [OF assms])
qed

text \<open>The server answers a request for a range with the range and keeps its state.\<close>

lemma range_request_served:
  assumes J: "json_laws (e_json E)" "json_text_laws (e_json E)"
    and m: "m_type m = BLOCK_RANGE_REQUEST" "json_dump (e_json E) (BlockRangeMessage_serialize (e_json E) m) = Inr raw"
    and bs: "Service_getBlocksByIndexRange (e_chain E) (rg_start m) (rg_count m) (rg_lastHash m)
      (n_store ns) [] = Inr bs"
    and answer: "json_dump (e_json E) (BlockRangeMessageResponse_serialize (e_json E)
      (BlockRangeMessageResponse_create (rq_uuid q) (rq_ts q) (m_to m) (m_from m) bs)) = Inr answer"
  shows "onMessage E q raw ns = (Inr (Some answer), ns)"
proof -
  let ?j = "BlockRangeMessage_serialize (e_json E) m"
  have p: "json_parse (e_json E) raw = Inr ?j"
    using J(2) m(2) by (auto simp: json_text_laws_def)
  have b: "\<not> is_block_json (e_json E) ?j"
    using range_serialized(2) [OF J(1)] by (simp add: is_block_json_def)
  have t: "json_at (e_json E) ?j ''type'' =
      Inr (json_of_string (e_json E) (fromMessageTypeToString BLOCK_RANGE_REQUEST))"
    using has_base_type [OF J(1) range_serialized(1) [OF J(1)], of m] m(1) by simp
  have "dispatch_incoming E (rq_clk q) (rq_uuid q) (rq_ts q) ?j ''{}'' ns = (Inr answer, ns)"
    using bs answer
    by (simp add: dispatch_incoming_def Let_def act_simps t of_type_name [OF J(1)]
        BlockRangeMessage_roundtrip_aux [OF J(1) m(1)] handleIncomingBlockRangeMessage_def
        del: fromMessageTypeToString.simps)
  then have "handleIncomingMessage E (rq_clk q) (rq_uuid q) (rq_ts q) ?j ''{}'' ns = (Inr answer, ns)"
    by (simp add: handleIncomingMessage_def handle_def)
  with p b show ?thesis by (simp add: onMessage_def serve_def act_simps)
qed

lemma range_request_undefined:
  assumes J: "json_laws (e_json E)" "json_text_laws (e_json E)"
    and m: "m_type m = BLOCK_RANGE_REQUEST" "json_dump (e_json E) (BlockRangeMessage_serialize (e_json E) m) = Inr raw"
    and bs: "Service_getBlocksByIndexRange (e_chain E) (rg_start m) (rg_count m)
      (rg_lastHash m) (n_store ns) [] = Inl Undefined"
  shows "onMessage E q raw ns = (Inl Undefined, ns)"
proof -
  let ?j = "BlockRangeMessage_serialize (e_json E) m"
  have p: "json_parse (e_json E) raw = Inr ?j"
    using J(2) m(2) by (auto simp: json_text_laws_def)
  have b: "\<not> is_block_json (e_json E) ?j"
    using range_serialized(2) [OF J(1)] by (simp add: is_block_json_def)
  have t: "json_at (e_json E) ?j ''type'' =
      Inr (json_of_string (e_json E) (fromMessageTypeToString BLOCK_RANGE_REQUEST))"
    using has_base_type [OF J(1) range_serialized(1) [OF J(1)], of m] m(1) by simp
  have "dispatch_incoming E (rq_clk q) (rq_uuid q) (rq_ts q) ?j ''{}'' ns = (Inl Undefined, ns)"
    using bs
    by (simp add: dispatch_incoming_def Let_def act_simps t of_type_name [OF J(1)]
        BlockRangeMessage_roundtrip_aux [OF J(1) m(1)] handleIncomingBlockRangeMessage_def
        del: fromMessageTypeToString.simps)
  then show ?thesis
    using p b by (simp add: onMessage_def serve_def seq_def lift_def handleIncomingMessage_def handle_def)
qed

text \<open>The client appends the blocks of the answer.\<close>

lemma range_response_taken:
  assumes J: "json_laws (e_json E)" "json_text_laws (e_json E)"
    and r: "m_type r = BLOCK_RANGE_RESPONSE"
      "json_dump (e_json E) (BlockRangeMessageResponse_serialize (e_json E) r) = Inr answer"
  shows "handleOutgoingMessage E answer n = (Inr (), n\<lparr>n_newBlocks := n_newBlocks n @ rg_blocks r\<rparr>)"
proof -
  let ?j = "BlockRangeMessageResponse_serialize (e_json E) r"
  have p: "json_parse (e_json E) answer = Inr ?j"
    using J(2) r(2) by (auto simp: json_text_laws_def)
  have t: "json_index (e_json E) ?j ''type'' =
      Inr (json_of_string (e_json E) (fromMessageTypeToString BLOCK_RANGE_RESPONSE))"
    using has_base_index [OF J(1) range_serialized(3) [OF J(1)], of r] r(1) by simp
  show ?thesis
    by (simp add: handleOutgoingMessage_def dispatch_outgoing_def Let_def act_simps p t
        of_type_name [OF J(1)] BlockRangeMessageResponse_roundtrip_aux [OF J(1) r(1)]
        handleOutgoingBlockRangeMessage_def addNewBlockRange_def del: fromMessageTypeToString.simps)
qed

lemma text_serialized:
  assumes "json_laws J" "TextMessage_serialize J C m k = Inr j"
  shows "has_base J m j" "\<not> json_contains J j ''previousHash''"
proof -
  obtain c s where j: "j = text_json J m c s"
    using assms(2) by (auto simp: TextMessage_serialize_def text_json_def Let_def)
  show "has_base J m j"
    unfolding j text_json_def SecretMessage_getBasicSerialization_def
    by (intro has_base_set has_base_payload has_base_basic assms) auto
  show "\<not> json_contains J j ''previousHash''"
    by (simp add: j text_json_def SecretMessage_getBasicSerialization_def set_payload_def
        getBasicSerialization_def Let_def json_simps [OF assms(1)])
qed

text \<open>A text on the server: opened with the own key, handed to the handler with the text it came in.\<close>

lemma text_dispatched:
  assumes J: "json_laws (e_json E)" "json_text_laws (e_json E)"
    and m: "m_type m = TEXT_MESSAGE" "TextMessage_serialize (e_json E) C m k = Inr j"
      "json_dump (e_json E) j = Inr raw"
    and r: "config_get (e_cfg E) PRIVATE_KEY = Inr priv"
      "TextMessage_of_json (e_json E) (e_crypto E) j priv False False = Inr m'"
    and h: "handleIncomingTextMessage E (rq_clk q) (rq_uuid q) (rq_ts q) m' raw n = (r, n')"
  shows "onMessage E q raw n = (case r of Inr answer \<Rightarrow> (Inr (Some answer), n')
    | Inl Undefined \<Rightarrow> (Inl Undefined, n') | _ \<Rightarrow> onMessage E q raw n)"
proof -
  have p: "json_parse (e_json E) raw = Inr j" using J(2) m(3) by (auto simp: json_text_laws_def)
  have t: "json_at (e_json E) j ''type'' =
      Inr (json_of_string (e_json E) (fromMessageTypeToString TEXT_MESSAGE))"
    using has_base_type [OF J(1) text_serialized(1) [OF J(1) m(2)]] m(1) by simp
  have "dispatch_incoming E (rq_clk q) (rq_uuid q) (rq_ts q) j ''{}'' n = (r, n')"
    using m(3) r h
    by (simp add: dispatch_incoming_def Let_def seq_def lift_def t of_type_name [OF J(1)]
        del: fromMessageTypeToString.simps)
  then show ?thesis
    using p text_serialized(2) [OF J(1) m(2)]
    by (simp add: onMessage_def serve_def act_simps is_block_json_def handleIncomingMessage_def handle_def
        split: sum.split exc.split)
qed

subsection \<open>All the batches\<close>

text \<open>The request for the range from \<open>start\<close>, and the answer with the blocks \<open>bs\<close>.\<close>

definition range_request ::
  "('s, 'j) env \<Rightarrow> (u32 \<Rightarrow> string \<times> u64) \<Rightarrow> user_peer \<Rightarrow> user_peer \<Rightarrow> string \<Rightarrow> u32 \<Rightarrow> 'j" where
  "range_request E fresh from to h start =
     BlockRangeMessage_serialize (e_json E) (BlockRangeMessage_create (fst (fresh start)) (snd (fresh start))
       from to start BLOCKS_BATCH_SIZE h)"

definition range_answer ::
  "('s, 'j) env \<Rightarrow> request_env \<Rightarrow> user_peer \<Rightarrow> user_peer \<Rightarrow> block list \<Rightarrow> 'j" where
  "range_answer E q from to bs =
     BlockRangeMessageResponse_serialize (e_json E)
       (BlockRangeMessageResponse_create (rq_uuid q) (rq_ts q) to from bs)"

lemma range_created [simp]:
  "m_type (BlockRangeMessage_create i t from to start k h) = BLOCK_RANGE_REQUEST"
  "m_from (BlockRangeMessage_create i t from to start k h) = from"
  "m_to (BlockRangeMessage_create i t from to start k h) = to"
  "rg_start (BlockRangeMessage_create i t from to start k h) = start"
  "rg_count (BlockRangeMessage_create i t from to start k h) = k"
  "rg_lastHash (BlockRangeMessage_create i t from to start k h) = h"
  "m_type (BlockRangeMessageResponse_create i t to from bs) = BLOCK_RANGE_RESPONSE"
  "rg_blocks (BlockRangeMessageResponse_create i t to from bs) = bs"
  by (simp_all add: BlockRangeMessage_create_def BlockRangeMessageResponse_create_def Message_def
      message_ext_defs)

lemma request_blocks_page:
  assumes J: "json_laws (e_json E)" "json_text_laws (e_json E)" and ES: "e_json ES = e_json E"
    and net: "\<forall>raw. net to raw = Some (server_reply ES q ns raw)"
    and bs: "Service_getBlocksByIndexRange (e_chain ES) start BLOCKS_BATCH_SIZE h (n_store ns) [] = Inr bs"
    and f: "fits (e_json E) (range_request E fresh from to h start)" "fits (e_json E) (range_answer E q from to bs)"
  shows "request_blocks E net fresh from to h start n =
    (Inr (), n\<lparr>n_newBlocks := n_newBlocks n @ bs\<rparr>)"
proof -
  let ?m = "BlockRangeMessage_create (fst (fresh start)) (snd (fresh start)) from to start BLOCKS_BATCH_SIZE h"
  obtain raw answer where raw: "json_dump (e_json E) (BlockRangeMessage_serialize (e_json E) ?m) = Inr raw"
    "raw \<noteq> ''''" "length raw < BUFFER_SIZE"
    and answer: "json_dump (e_json E) (BlockRangeMessageResponse_serialize (e_json E)
      (BlockRangeMessageResponse_create (rq_uuid q) (rq_ts q) to from bs)) = Inr answer"
      "length answer < BUFFER_SIZE"
    using f by (auto simp: fits_def range_request_def range_answer_def)
  have "onMessage ES q raw ns = (Inr (Some answer), ns)"
    using J bs raw(1) answer(1) by (intro range_request_served [of ES ?m]) (simp_all add: ES)
  moreover have "CHR 0x00 \<notin> set answer" using J(2) answer(1) by (auto simp: json_text_laws_def)
  ultimately have "server_reply ES q ns raw = answer"
    using raw(2,3) answer(2) by (simp add: server_reply_def recv_all)
  then show ?thesis
    using range_response_taken [OF J _ answer(1), of n] raw net
    by (simp add: request_blocks_def TCPClient_sendMessage_def act_simps)
qed

lemma each_appends:
  assumes "\<And>i n. i \<in> set is \<Longrightarrow> f i n = (Inr (), n\<lparr>n_newBlocks := n_newBlocks n @ g i\<rparr>)"
  shows "each f is n = (Inr (), n\<lparr>n_newBlocks := n_newBlocks n @ concat (map g is)\<rparr>)"
  using assms
proof (induction "is" arbitrary: n)
  case (Cons i "is")
  have "each f is (n\<lparr>n_newBlocks := n_newBlocks n @ g i\<rparr>) =
      (Inr (), n\<lparr>n_newBlocks := (n_newBlocks n @ g i) @ concat (map g is)\<rparr>)"
    using Cons.IH [of "n\<lparr>n_newBlocks := n_newBlocks n @ g i\<rparr>"] Cons.prems by simp
  then show ?case using Cons.prems [of i n] by (simp add: act_simps)
qed (simp add: ret_def)

subsection \<open>Storing what was collected\<close>

lemma store_blocks_eq:
  "store_new_blocks (e_chain E) bs (n_store n) = Inr s' \<Longrightarrow>
   store_blocks E bs n = (Inr (), n\<lparr>n_store := s'\<rparr>)"
proof (induction bs arbitrary: n)
  case (Cons b bs)
  obtain ok s1 where s1: "insertBlock (e_chain E) b (n_store n) = Inr (ok, s1)"
    "store_new_blocks (e_chain E) bs s1 = Inr s'"
    using Cons.prems by (auto simp: store_new_blocks_def)
  then show ?case
    using Cons.IH [of "n\<lparr>n_store := s1\<rparr>"] by (simp add: store_blocks_def act_simps)
qed (simp add: store_blocks_def store_new_blocks_def ret_def)

text \<open>Past the tip of a valid chain that is extended comes the extension.\<close>

lemma tail_after_tip:
  assumes "valid_chain S C (c @ l)" "sha_len S" "distinct (map hash (c @ l))"
  shows "tail_after (tip_hash c) (c @ l) = Some l"
proof (cases "c = []")
  case False
  let ?i = "length c - 1"
  have "last c \<in> set c" using False by simp
  then have "valid_block S C (last c)" using assms(1) by (simp add: valid_chain_def)
  then have h: "hash (last c) \<noteq> ''0''" "c_str (hash (last c)) = hash (last c)"
    using valid_block_hash valid_block_hash_clean assms(2) by blast+
  have "(c @ l) ! ?i = last c" using False by (simp add: nth_append last_conv_nth)
  moreover have "?i < length (c @ l)" using False by (cases c) simp_all
  ultimately have "index_where (\<lambda>b. hash b = hash (last c)) (c @ l) = Some ?i"
    using index_where_distinct [OF assms(3), of ?i] by simp
  with h False show ?thesis by (simp add: tail_after_def tip_hash_def)
qed (simp add: tail_after_def tip_hash_def)

context node_store
begin

lemma keeps_store_blocks:
  assumes "wired R M P E"
  shows "keeps (\<lambda>n. minv (n_store n) \<and> pinv (n_store n) \<and> peers_inv (n_peers n)) (store_blocks E bs)"
  unfolding store_blocks_def
proof (intro keeps_each keeps_seq keeps_ret)
  fix b
  show "keeps (\<lambda>n. minv (n_store n) \<and> pinv (n_store n) \<and> peers_inv (n_peers n))
      (on_store (insertBlock (e_chain E) b))"
    using assms chain_frame
    by (intro keeps_on_store) (auto simp: wired_def)
qed

lemma accept_blocks_all:
  assumes E: "wired R M P E" and n: "node_ok cinv minv pinv n" "n_newBlocks n = bs"
    and v: "valid_chain (e_sha E) (e_crypto E) (chain (n_store n) @ bs)" "sha_len (e_sha E)"
    and b: "\<forall>b \<in> set bs. c_block b = b \<and> timely b" "distinct (map hash (chain (n_store n) @ bs))"
  shows "\<exists>n'. accept_blocks E n = (Inr (), n') \<and> node_ok cinv minv pinv n' \<and>
    chain (n_store n') = chain (n_store n) @ bs \<and> n_peers n' = n_peers n"
proof -
  have e: "e_chain E = R" and inv: "cinv (n_store n)" using E n by (simp_all add: wired_def node_ok_def)
  have parts: "valid_chain (e_sha E) (e_crypto E) (chain (n_store n))" "linked (tip_hash (chain (n_store n))) bs"
    "\<forall>b \<in> set bs. valid_block (e_sha E) (e_crypto E) b"
    using v(1) by (simp_all add: valid_chain_append)
  then have "bs \<noteq> [] \<Longrightarrow> linked (previousHash (hd bs)) bs \<and> extends_tip (chain (n_store n)) (hd bs)"
    by (cases bs) (simp_all add: extends_tip_def)
  then obtain log where log: "validateNewBlocks (e_sha E) (e_crypto E) R bs (n_store n) = Inr (True, log)"
    using validateNewBlocks_True [OF inv, of "e_sha E" "e_crypto E" bs] parts(3) by blast
  have "\<forall>b \<in> set bs. valid_block (e_sha E) (e_crypto E) b \<and> c_block b = b \<and> timely b"
    using parts(3) b(1) by blast
  from store_new_blocks_all [OF inv parts(1) v(2) parts(2) this b(2)]
  obtain s' where s': "store_new_blocks R bs (n_store n) = Inr s'" "cinv s'" "chain s' = chain (n_store n) @ bs"
    by blast
  have st: "store_blocks E bs n = (Inr (), n\<lparr>n_store := s'\<rparr>)"
    using store_blocks_eq [of E bs n s'] s'(1) by (simp add: e)
  have "minv s' \<and> pinv s' \<and> peers_inv (n_peers n)"
    using keeps_store_blocks [OF E, of bs] n(1) st by (fastforce simp: keeps_def node_ok_def)
  with s' st log n(2) show ?thesis
    by (simp add: accept_blocks_def act_simps e getNewBlocks_def node_ok_def)
qed

end

end
