(* ===== verification/DC_Exchange.thy ===== *)
theory DC_Exchange
  imports DC_Sync DC_ChainTheorems
begin

text \<open>
  One text from end to end: what the server of the receiver makes of it, what every peer makes of the
  block that follows, and what \<open>TCPClient::sendSecretMessage\<close> (src/infra/network/TCPClient.cpp) makes of
  the answers.
\<close>

subsection \<open>The text\<close>

text \<open>What the handler has done when it turns to the time of the text.\<close>

lemma text_handled:
  assumes "db_node_ok Q n"
    and E: "E = node_env J SHA256 C cfg srt Q"
  shows "\<exists>n'. (\<forall>clk uuid ts. handleIncomingTextMessage E clk uuid ts m raw n =
      seq (lift (timestampToString clk (m_timestamp m))) (\<lambda>_. seq (lift (me_at E (m_to m))) (\<lambda>me.
        lift (json_dump J (TextMessageResponse_serialize J (TextMessageResponse_create uuid ts me (m_from m)))))) n') \<and>
    db_node_ok Q n' \<and> db_chain (n_store n') = db_chain (n_store n) \<and>
    db_messages (n_store n') = (if c_str (m_id m) \<in> st_id ` set (db_messages (n_store n))
      then db_messages (n_store n) else db_messages (n_store n) @ [stored m raw (m_blockHash m)]) \<and>
    c_str (publicKey (m_from m)) \<in> publicKey ` set (db_peers (n_store n')) \<and> n_peers n' = n_peers n"
proof -
  have inv: "chain_db_inv Q (n_store n)" "message_db_inv (n_store n)" "peer_db_inv Q (n_store n)"
    using assms(1) by (simp_all add: db_node_ok_def node_ok_def)
  obtain d1 where d1: "insertSecretMessage (MessageDB J C cfg srt Q) m raw (m_blockHash m) (n_store n) =
      Inr (c_str (m_id m) \<notin> st_id ` set (db_messages (n_store n)), d1)"
    "db_messages d1 = (if c_str (m_id m) \<in> st_id ` set (db_messages (n_store n))
      then db_messages (n_store n) else db_messages (n_store n) @ [stored m raw (m_blockHash m)])" "message_db_inv d1"
    using MessageDB_insert [OF inv(2), of Q m raw "m_blockHash m"] by (auto simp: MessageDB_def)
  have f1: "chain_db_inv Q d1" "peer_db_inv Q d1" "db_chain d1 = db_chain (n_store n)" "db_peers d1 = db_peers (n_store n)"
    using nst.insert_frame [OF d1(1)] inv by simp_all
  obtain d2 where d2: "repoAddPeer (PeerDB Q) (m_from m) d1 = Inr d2"
    "db_peers d2 = (if c_str (publicKey (m_from m)) \<in> publicKey ` set (db_peers d1) then db_peers d1
      else db_peers d1 @ [c_peer (m_from m)])" "peer_db_inv Q d2"
    using pdb.add [OF f1(2), of "m_from m"] by auto
  have f2: "db_chain d2 = db_chain d1" "db_messages d2 = db_messages d1" "chain_db_inv Q d2" "message_db_inv d2"
    using nst.add_frame [OF d2(1)] f1(1) d1(3) by simp_all
  have "handleIncomingTextMessage E clk uuid ts m raw n =
      seq (lift (timestampToString clk (m_timestamp m))) (\<lambda>_. seq (lift (me_at E (m_to m))) (\<lambda>me.
        lift (json_dump J (TextMessageResponse_serialize J (TextMessageResponse_create uuid ts me (m_from m))))))
        (n\<lparr>n_store := d2\<rparr>)" for clk uuid ts
    using d1(1) d2(1)
    by (simp add: E handleIncomingTextMessage_def act_simps Service_insertSecretMessage_def addChatPeer_def)
  moreover have "db_node_ok Q (n\<lparr>n_store := d2\<rparr>)"
    using assms(1) f2(3,4) d2(3) by (simp add: db_node_ok_def node_ok_def)
  moreover have "c_str (publicKey (m_from m)) \<in> publicKey ` set (db_peers d2)"
    using d2(2) by (auto simp: c_peer_def UserPeer_def)
  ultimately show ?thesis using d1(2) f1 f2 by (intro exI [of _ "n\<lparr>n_store := d2\<rparr>"]) simp
qed

text \<open>The answer, if the time can be shown; otherwise the text is stored and the behaviour undefined.\<close>

lemma text_stored:
  assumes "icrypto C key_pair session_key" "json_laws J" "json_text_laws J" "db_node_ok Q n"
    and "text_keys C key_pair privA (publicKey (m_from m))" "text_keys C key_pair privB (publicKey (m_to m))"
    and "m_type m = TEXT_MESSAGE" "TextMessage_serialize J C m privA = Inr j" "json_dump J j = Inr raw"
    and "cfg PRIVATE_KEY = Some privB" "cfg PUBLIC_KEY = Some k"
    and "json_dump J (TextMessageResponse_serialize J (TextMessageResponse_create (rq_uuid q) (rq_ts q)
      (UserPeer (host (m_to m)) (port (m_to m)) k) (m_from m))) = Inr ack"
  shows "\<exists>n'. onMessage (node_env J SHA256 C cfg srt Q) q raw n =
      (case timestampToString (rq_clk q) (m_timestamp m) of Inl e \<Rightarrow> (Inl Undefined, n') | Inr _ \<Rightarrow> (Inr (Some ack), n')) \<and>
    db_node_ok Q n' \<and> db_chain (n_store n') = db_chain (n_store n) \<and>
    db_messages (n_store n') = (if c_str (m_id m) \<in> st_id ` set (db_messages (n_store n))
      then db_messages (n_store n) else db_messages (n_store n) @ [stored m raw (m_blockHash m)]) \<and>
    c_str (publicKey (m_from m)) \<in> publicKey ` set (db_peers (n_store n')) \<and> n_peers n' = n_peers n"
proof -
  let ?E = "node_env J SHA256 C cfg srt Q" and ?t = "timestampToString (rq_clk q) (m_timestamp m)"
  obtain s where s: "TextMessage_of_json J C j privB False False = Inr (m\<lparr>m_signature := s\<rparr>)"
    using icrypto.text_roundtrip [OF assms(1,2,5-7)] assms(8) by auto
  let ?m = "m\<lparr>m_signature := s\<rparr>"
  have st: "stored ?m raw h = stored m raw h" for h by (simp add: stored_def)
  have "m_timestamp ?m = m_timestamp m" "m_to ?m = m_to m" "m_from ?m = m_from m" "m_id ?m = m_id m"
    "m_blockHash ?m = m_blockHash m" by simp_all
  note handled = text_handled [OF assms(4) refl, of J SHA256 C cfg srt ?m raw, unfolded st this]
  then obtain n' where n': "\<forall>clk uuid ts. handleIncomingTextMessage ?E clk uuid ts ?m raw n =
      seq (lift (timestampToString clk (m_timestamp m))) (\<lambda>_. seq (lift (me_at ?E (m_to m))) (\<lambda>me.
        lift (json_dump J (TextMessageResponse_serialize J (TextMessageResponse_create uuid ts me (m_from m)))))) n'"
    "db_node_ok Q n'" "db_chain (n_store n') = db_chain (n_store n)"
    "db_messages (n_store n') = (if c_str (m_id m) \<in> st_id ` set (db_messages (n_store n))
      then db_messages (n_store n) else db_messages (n_store n) @ [stored m raw (m_blockHash m)])"
    "c_str (publicKey (m_from m)) \<in> publicKey ` set (db_peers (n_store n'))" "n_peers n' = n_peers n"
    by (elim exE conjE)
  have two: "?t = Inl Undefined \<or> (\<exists>t. ?t = Inr t)" by (simp add: timestampToString_def Let_def split: option.split)
  have "handleIncomingTextMessage ?E (rq_clk q) (rq_uuid q) (rq_ts q) ?m raw n =
      (case ?t of Inl e \<Rightarrow> Inl Undefined | Inr _ \<Rightarrow> Inr ack, n')"
    using n'(1) two assms(11,12) by (auto simp: act_simps me_at_def config_get_def)
  with text_dispatched [of ?E m C privA j raw privB ?m q n _ n'] assms(2,3,7-10) s
  have "onMessage ?E q raw n = (case ?t of Inl e \<Rightarrow> (Inl Undefined, n') | Inr _ \<Rightarrow> (Inr (Some ack), n'))"
    using two by (fastforce simp: config_get_def)
  then show ?thesis using n'(2-6) by (intro exI [of _ n']) simp
qed

subsection \<open>The block\<close>

lemma block_json:
  assumes "json_laws J"
  shows "is_block_json J (Block_toJson J b)"
  by (simp add: is_block_json_def Block_toJson_def Let_def json_simps [OF assms])

lemma onIncomingBlock_frame:
  assumes "chain_db_inv Q d" "clock_ok (db_timely Q) now"
    and "onIncomingBlock J SHA256 C (ChainDB Q) cfg now uuid ts j d = Inr (response, d')"
  shows "db_messages d' = db_messages d"
proof -
  have "timestamp b \<le> now + 300000 \<Longrightarrow> db_timely Q b" for b using assms(2) by (simp add: clock_ok_def)
  from cdb.onIncomingBlock_effect [OF assms(1) this assms(3)] show ?thesis using nst.chain_frame by blast
qed

text \<open>Every node with the chain the block was made on stores it, and says so with \<open>{}\<close>.\<close>

lemma block_served:
  assumes J: "json_laws J" "json_text_laws J" "json_dump J (Block_toJson J b) = Inr raw"
    and n: "db_node_ok Q n" "valid_chain SHA256 C (db_chain (n_store n))" "sha_len SHA256"
    and q: "clock_ok (db_timely Q) (rq_now q)" "local_peer cfg = Inr me"
    and b: "accepts SHA256 C (rq_now q) (db_chain (n_store n)) b" "c_block b = b"
  shows "\<exists>n'. onMessage (node_env J SHA256 C cfg srt Q) q raw n = (Inr (Some ''{}''), n') \<and> db_node_ok Q n' \<and>
    db_chain (n_store n') = db_chain (n_store n) @ [b] \<and> n_peers n' = n_peers n \<and>
    db_messages (n_store n') = db_messages (n_store n)"
proof -
  let ?E = "node_env J SHA256 C cfg srt Q"
  have inv: "chain_db_inv Q (n_store n)" using n(1) by (simp add: db_node_ok_def node_ok_def)
  from accepted_appended [OF inv n(2,3) q Block_json_roundtrip_aux [OF J(1)] b(1), of "rq_uuid q" "rq_ts q"]
  obtain d' where d': "onIncomingBlock J SHA256 C (ChainDB Q) cfg (rq_now q) (rq_uuid q) (rq_ts q) (Block_toJson J b)
      (n_store n) = Inr (''{}'', d')" "db_chain d' = db_chain (n_store n) @ [b]" using b(2) by auto
  have p: "json_parse J raw = Inr (Block_toJson J b)" using J(2,3) by (auto simp: json_text_laws_def)
  have r: "onMessage ?E q raw n = (Inr (Some ''{}''), n\<lparr>n_store := d'\<rparr>)"
    using p d'(1) block_json [OF J(1), of b] by (simp add: onMessage_def serve_def act_simps)
  have "db_node_ok Q (n\<lparr>n_store := d'\<rparr>)"
    using nst.onMessage_chain [OF node_env_wired _ q(1), of n "n\<lparr>n_store := d'\<rparr>" J SHA256 C cfg srt raw] n(1) r
    by (simp add: db_node_ok_def)
  with r d'(2) onIncomingBlock_frame [OF inv q(1) d'(1)] show ?thesis by auto
qed

lemma broadcast_all:
  "\<forall>p \<in> set ps. send raw p = Inr True \<Longrightarrow> broadcast send raw ps = Inr (True, ps)"
  by (induction ps) simp_all

subsection \<open>The answers\<close>

lemma server_reply_answer:
  assumes "onMessage E q raw ns = (Inr (Some answer), ns')" "raw \<noteq> ''''" "length raw < BUFFER_SIZE"
    and "length answer < BUFFER_SIZE" "CHR 0x00 \<notin> set answer"
  shows "server_reply E q ns raw = answer"
  using assms by (simp add: server_reply_def recv_all)

text \<open>The acknowledgement of a text changes nothing.\<close>

lemma ack_taken:
  assumes J: "json_laws (e_json E)" "json_text_laws (e_json E)"
    and r: "m_type r = TEXT_MESSAGE_RESPONSE" "json_dump (e_json E) (TextMessageResponse_serialize (e_json E) r) = Inr ack"
  shows "handleOutgoingMessage E ack n = (Inr (), n)"
proof -
  let ?j = "TextMessageResponse_serialize (e_json E) r"
  have p: "json_parse (e_json E) ack = Inr ?j" using J(2) r(2) by (auto simp: json_text_laws_def)
  have "has_base (e_json E) r ?j"
    unfolding TextMessageResponse_serialize_def by (rule has_base_basic [OF J(1)])
  then have t: "json_index (e_json E) ?j ''type'' =
      Inr (json_of_string (e_json E) (fromMessageTypeToString TEXT_MESSAGE_RESPONSE))"
    using has_base_index [OF J(1)] r(1) by metis
  have m: "TextMessageResponse_of_json (e_json E) ?j = Inr (message.truncate r)"
    by (simp add: TextMessageResponse_of_json_def TextMessageResponse_serialize_def Message_of_serialized [OF J(1)])
  show ?thesis
    by (simp add: handleOutgoingMessage_def dispatch_outgoing_def Let_def act_simps p t m
        of_type_name [OF J(1)] handleOutgoingTextMessage_def del: fromMessageTypeToString.simps)
qed

text \<open>What the sender does once its text is acknowledged and every peer has taken the block.\<close>

lemma delivered:
  assumes E: "E = node_env J SHA256 C cfg srt Q" and n: "db_node_ok Q n"
    and ack: "handleOutgoingMessage E ack n = (Inr (), n)"
    and b: "db_timely Q b" "insert_ok (db_chain (n_store n)) b" "json_dump J (Block_toJson J b) = Inr raw"
    and peers: "\<forall>p \<in> set (peers (n_peers n)). sendCallback E net raw p = Inr True"
  shows "\<exists>n'. after_delivery E net uuid ts b m sent ack n = (Inr None, n') \<and> db_node_ok Q n' \<and>
    db_chain (n_store n') = db_chain (n_store n) @ [c_block b] \<and> n_peers n' = n_peers n \<and>
    insert (c_str (m_id m)) (st_id ` set (db_messages (n_store n))) \<subseteq> st_id ` set (db_messages (n_store n'))"
proof -
  have inv: "chain_db_inv Q (n_store n)" "message_db_inv (n_store n)" "peer_db_inv Q (n_store n)"
    "peers_inv (n_peers n)" using n by (simp_all add: db_node_ok_def node_ok_def)
  obtain ok d1 where d1: "insertSecretMessage (MessageDB J C cfg srt Q) m sent (hash b) (n_store n) = Inr (ok, d1)"
    "message_db_inv d1" "db_messages d1 = (if c_str (m_id m) \<in> st_id ` set (db_messages (n_store n))
      then db_messages (n_store n) else db_messages (n_store n) @ [stored m sent (hash b)])"
    using MessageDB_insert [OF inv(2), of Q m sent "hash b"] by (auto simp: MessageDB_def)
  have ids: "insert (c_str (m_id m)) (st_id ` set (db_messages (n_store n))) \<subseteq> st_id ` set (db_messages d1)"
    by (auto simp: d1(3) stored_def)
  note f1 = nst.insert_frame [OF d1(1)]
  obtain d2 where d2: "repoAddPeer (PeerDB Q) (m_to m) d1 = Inr d2" "peer_db_inv Q d2"
    using pdb.add [of Q d1 "m_to m"] f1 inv(3) by auto
  note f2 = nst.add_frame [OF d2(1)]
  have c2: "chain_db_inv Q d2" "db_chain d2 = db_chain (n_store n)" using f1 f2 inv(1) by simp_all
  obtain d3 where d3: "insertBlock (ChainDB Q) b d2 = Inr (True, d3)" "chain_db_inv Q d3"
    "db_chain d3 = db_chain (n_store n) @ [c_block b]"
    using cdb.insert [OF c2(1) b(1)] b(2) by (auto simp: c2(2))
  note f3 = nst.chain_frame [OF d3(1)]
  have "storeAndBroadcastBlock J (ChainDB Q) b (peers (n_peers n)) (sendCallback E net) d2 =
      Inr (True, peers (n_peers n), d3)"
    using broadcast_all [of _ "sendCallback E net" raw] peers b(3) d3(1)
    by (simp add: storeAndBroadcastBlock_def)
  then have "after_delivery E net uuid ts b m sent ack n = (Inr None, n\<lparr>n_store := d3\<rparr>)"
    using d1(1) d2(1)
    unfolding E
    by (simp add: after_delivery_def act_simps ack [unfolded E] Service_insertSecretMessage_def
        addChatPeer_def store_and_broadcast_def getPeers_def)
  moreover have "db_node_ok Q (n\<lparr>n_store := d3\<rparr>)"
    using inv(4) d1(2) d2(2) d3(2) f1 f2 f3 by (simp add: db_node_ok_def node_ok_def)
  ultimately show ?thesis using ids d3(3) f2 f3 by auto
qed

subsection \<open>All of it\<close>

text \<open>
  A node in step: its chain is \<open>c\<close>, its clock lets a block of time \<open>t\<close> pass, and \<open>t\<close> has a local time.
\<close>

definition in_step :: "sqlite \<Rightarrow> block list \<Rightarrow> u64 \<Rightarrow> config_data \<Rightarrow> request_env \<Rightarrow> db node \<Rightarrow> bool" where
  "in_step Q c t cfg q n \<longleftrightarrow> db_node_ok Q n \<and> db_chain (n_store n) = c \<and>
     clock_ok (db_timely Q) (rq_now q) \<and> t \<le> rq_now q + 300000 \<and>
     (\<exists>s. timestampToString (rq_clk q) t = Inr s) \<and> (\<exists>me. local_peer cfg = Inr me)"

lemma setBlockHash_fields [simp]:
  "m_id (TextMessage_setBlockHash h m) = m_id m" "m_from (TextMessage_setBlockHash h m) = m_from m"
  "m_to (TextMessage_setBlockHash h m) = m_to m" "m_type (TextMessage_setBlockHash h m) = m_type m"
  "m_text (TextMessage_setBlockHash h m) = m_text m" "m_timestamp (TextMessage_setBlockHash h m) = m_timestamp m"
  "m_blockHash (TextMessage_setBlockHash h m) = h"
  by (simp_all add: TextMessage_setBlockHash_def)

text \<open>
  The peers a text and its block go to, each with its configuration, clock and state, and the network that
  carries their answers.
\<close>

record peers_env =
  pe_cfg :: "user_peer \<Rightarrow> config_data"
  pe_req :: "user_peer \<Rightarrow> request_env"
  pe_node :: "user_peer \<Rightarrow> db node"

definition peer_answers ::
  "'j json_lib \<Rightarrow> (bytes \<Rightarrow> bytes) \<Rightarrow> ICrypto \<Rightarrow> (text_message list \<Rightarrow> text_message list) \<Rightarrow> sqlite \<Rightarrow>
   peers_env \<Rightarrow> net" where
  "peer_answers J SHA256 C srt Q W p raw =
     Some (server_reply (node_env J SHA256 C (pe_cfg W p) srt Q) (pe_req W p) (pe_node W p) raw)"

lemma in_step_takes_block:
  assumes J: "json_laws J" "json_text_laws J" "json_dump J (Block_toJson J b) = Inr raw"
    and s: "in_step Q c t cfg q n" "valid_chain SHA256 C c" "sha_len SHA256"
    and b: "valid_block SHA256 C b" "previousHash b = tip_hash c" "timestamp b = t" "c_block b = b"
      "hash b \<notin> hash ` set c"
  shows "\<exists>n'. onMessage (node_env J SHA256 C cfg srt Q) q raw n = (Inr (Some ''{}''), n') \<and> db_node_ok Q n' \<and>
    db_chain (n_store n') = c @ [b] \<and> n_peers n' = n_peers n \<and>
    db_messages (n_store n') = db_messages (n_store n)"
proof -
  obtain me where me: "local_peer cfg = Inr me" using s(1) by (auto simp: in_step_def)
  have "accepts SHA256 C (rq_now q) (db_chain (n_store n)) b"
    using b s(1) by (simp add: accepts_def extends_tip_def in_step_def)
  from block_served [OF J _ _ s(3) _ me this b(4)] show ?thesis using s(1,2) by (simp add: in_step_def)
qed

text \<open>The callback of the broadcast on the answer of a peer in step.\<close>

lemma callback_taken:
  assumes reply: "onMessage E' q raw n = (Inr (Some ''{}''), n')" "net p raw = Some (server_reply E' q n raw)"
    and raw: "raw \<noteq> ''''" "length raw < BUFFER_SIZE"
    and e: "json_parse (e_json E) ''{}'' = Inr e" "\<not> json_contains (e_json E) e ''type''"
  shows "sendCallback E net raw p = Inr True"
proof -
  have "server_reply E' q n raw = ''{}''"
    using server_reply_answer [OF reply(1) raw] by (simp add: BUFFER_SIZE_def)
  then show ?thesis using reply(2) e by (simp add: sendCallback_def)
qed

text \<open>Over any network that carries the answers of nodes in step.\<close>

abbreviation message_ids :: "db node \<Rightarrow> string set" where
  "message_ids n \<equiv> st_id ` set (db_messages (n_store n))"

lemma text_exchanged_over:
  assumes C: "icrypto C key_pair session_key" and J: "json_laws J" "json_text_laws J" and S: "sha_len SHA256"
    and n: "db_node_ok Q n" "db_chain (n_store n) = c" "valid_chain SHA256 C c"
    and to: "in_step Q c (m_timestamp m) cfgB q nodeB"
    and keys: "text_keys C key_pair privA (publicKey (m_from m))" "text_keys C key_pair privB (publicKey (m_to m))"
      "cfg PRIVATE_KEY = Some privA" "cfgB PRIVATE_KEY = Some privB" "cfgB PUBLIC_KEY = Some k"
    and m: "m_type m = TEXT_MESSAGE" "CHR 0x00 \<notin> set (publicKey (m_from m))"
    and b: "createBlockFromMessage SHA256 C (ChainDB Q) cfg m Block (n_store n) = Inr b" "hash b \<notin> hash ` set c"
    and j: "TextMessage_serialize J C (TextMessage_setBlockHash (hash b) m) privA = Inr j"
    and f: "fits J j" "fits J (Block_toJson J b)"
      "fits J (TextMessageResponse_serialize J (TextMessageResponse_create (rq_uuid q) (rq_ts q)
        (UserPeer (host (m_to m)) (port (m_to m)) k) (m_from m)))"
    and e: "json_parse J ''{}'' = Inr e" "\<not> json_contains J e ''type''"
    and t: "json_dump J j = Inr rawText" "json_dump J (Block_toJson J b) = Inr rawBlock"
    and net: "net (m_to m) rawText = Some (server_reply (node_env J SHA256 C cfgB srt Q) q nodeB rawText)"
      "\<forall>p \<in> set (peers (n_peers n)). \<exists>cfg' q' s. in_step Q c (m_timestamp m) cfg' q' s \<and>
        net p rawBlock = Some (server_reply (node_env J SHA256 C cfg' srt Q) q' s rawBlock)"
  shows "(\<exists>n'. sendSecretMessage (node_env J SHA256 C cfg srt Q) net uuid ts m n = (Inr None, n') \<and>
      db_node_ok Q n' \<and> db_chain (n_store n') = c @ [b] \<and> n_peers n' = n_peers n \<and>
      insert (c_str (m_id m)) (message_ids n) \<subseteq> message_ids n') \<and>
    (\<exists>ack r. onMessage (node_env J SHA256 C cfgB srt Q) q rawText nodeB = (Inr (Some ack), r) \<and>
      in_step Q c (m_timestamp m) cfgB q r \<and> n_peers r = n_peers nodeB \<and>
      insert (c_str (m_id m)) (message_ids nodeB) \<subseteq> message_ids r) \<and>
    (\<forall>cfg' q' s. in_step Q c (m_timestamp m) cfg' q' s \<longrightarrow>
      (\<exists>s'. onMessage (node_env J SHA256 C cfg' srt Q) q' rawBlock s = (Inr (Some ''{}''), s') \<and> db_node_ok Q s' \<and>
        db_chain (n_store s') = c @ [b] \<and> n_peers s' = n_peers s \<and> message_ids s' = message_ids s)) \<and>
    valid_chain SHA256 C (c @ [b])"
proof -
  let ?E = "node_env J SHA256 C cfg srt Q" and ?to = "m_to m" and ?m = "TextMessage_setBlockHash (hash b) m"
  let ?ER = "node_env J SHA256 C cfgB srt Q"
  have inv: "chain_db_inv Q (n_store n)" using n(1) by (simp add: db_node_ok_def node_ok_def)
  have b': "valid_block SHA256 C b" "previousHash b = tip_hash c" "timestamp b = m_timestamp m" "c_block b = b"
    using created_block [of C key_pair session_key Q "n_store n" cfg privA m SHA256 Block] C inv keys(1,3)
      b(1) n(2) m(2) by auto
  have rt: "rawText \<noteq> ''''" "length rawText < BUFFER_SIZE" and rb: "rawBlock \<noteq> ''''" "length rawBlock < BUFFER_SIZE"
    using f(1,2) t by (auto simp: fits_def)
  obtain ack where ack: "json_dump J (TextMessageResponse_serialize J (TextMessageResponse_create (rq_uuid q)
      (rq_ts q) (UserPeer (host ?to) (port ?to) k) (m_from m))) = Inr ack" "length ack < BUFFER_SIZE"
    using f(3) by (auto simp: fits_def)
  have st: "db_node_ok Q nodeB" "\<exists>s. timestampToString (rq_clk q) (m_timestamp m) = Inr s"
    using to by (simp_all add: in_step_def)
  from text_stored [OF C J st(1), of privA ?m privB j rawText cfgB k q ack SHA256 srt] keys m(1) j t(1) ack(1) st(2)
  obtain r where r: "onMessage ?ER q rawText nodeB = (Inr (Some ack), r)" "db_node_ok Q r"
    "db_chain (n_store r) = db_chain (n_store nodeB)" "n_peers r = n_peers nodeB"
    "db_messages (n_store r) = (if c_str (m_id m) \<in> message_ids nodeB
      then db_messages (n_store nodeB) else db_messages (n_store nodeB) @ [stored ?m rawText (hash b)])" by auto
  have blocks: "\<exists>s'. onMessage (node_env J SHA256 C cfg' srt Q) q' rawBlock s = (Inr (Some ''{}''), s') \<and>
      db_node_ok Q s' \<and> db_chain (n_store s') = c @ [b] \<and> n_peers s' = n_peers s \<and> message_ids s' = message_ids s"
    if "in_step Q c (m_timestamp m) cfg' q' s" for cfg' q' s
  proof -
    from in_step_takes_block [OF J t(2) that n(3) S b' b(2)] show ?thesis by fastforce
  qed
  have "server_reply ?ER q nodeB rawText = ack"
    using server_reply_answer [OF r(1) rt ack(2)] J(2) ack(1) by (auto simp: json_text_laws_def)
  then have ans: "net ?to rawText = Some ack" using net(1) by simp
  have taken: "handleOutgoingMessage ?E ack n = (Inr (), n)"
    using J ack(1)
    by (intro ack_taken [where r = "TextMessageResponse_create (rq_uuid q) (rq_ts q)
        (UserPeer (host ?to) (port ?to) k) (m_from m)"]) (simp_all add: TextMessageResponse_create_def Message_def)
  have cb: "\<forall>p \<in> set (peers (n_peers n)). sendCallback ?E net rawBlock p = Inr True"
  proof
    fix p assume "p \<in> set (peers (n_peers n))"
    then obtain cfg' q' s where s: "in_step Q c (m_timestamp m) cfg' q' s"
      "net p rawBlock = Some (server_reply (node_env J SHA256 C cfg' srt Q) q' s rawBlock)" using net(2) by blast
    from blocks [OF s(1)] show "sendCallback ?E net rawBlock p = Inr True"
      using e s(2) by (auto intro!: callback_taken [OF _ _ rb])
  qed
  have timely: "db_timely Q b" using to b'(3) by (simp add: in_step_def clock_ok_def)
  have ok: "insert_ok (db_chain (n_store n)) b"
    using cdb.insert_ok_extends [of Q "n_store n" SHA256 C b] inv S n(2,3) b'(1,2) b(2) valid_block_hash_clean [OF b'(1)]
    by (simp add: extends_tip_def)
  from delivered [OF refl n(1) taken timely ok t(2) cb, of uuid ts ?m rawText]
  obtain n' where n': "after_delivery ?E net uuid ts b ?m rawText ack n = (Inr None, n')"
    "db_node_ok Q n'" "db_chain (n_store n') = c @ [b]" "n_peers n' = n_peers n"
    "insert (c_str (m_id m)) (message_ids n) \<subseteq> message_ids n'"
    using n(2) b'(4) by auto
  have "sendSecretMessage ?E net uuid ts m n = (Inr None, n')"
    using b(1) keys(3) j t(1) rt ans n'(1)
    by (simp add: sendSecretMessage_def act_simps Let_def config_get_def)
  moreover have "in_step Q c (m_timestamp m) cfgB q r" using to r(2,3) by (simp add: in_step_def)
  moreover have "insert (c_str (m_id m)) (message_ids nodeB) \<subseteq> message_ids r" by (auto simp: r(5) stored_def)
  moreover have "valid_chain SHA256 C (c @ [b])" using n(3) b'(1,2) by (simp add: valid_chain_snoc)
  ultimately show ?thesis using n'(2-5) r(1,4) blocks by blast
qed

lemma text_exchanged:
  assumes C: "icrypto C key_pair session_key" and J: "json_laws J" "json_text_laws J" and S: "sha_len SHA256"
    and n: "db_node_ok Q n" "db_chain (n_store n) = c" "valid_chain SHA256 C c"
    and W: "\<forall>p \<in> insert (m_to m) (set (peers (n_peers n))).
      in_step Q c (m_timestamp m) (pe_cfg W p) (pe_req W p) (pe_node W p)"
    and keys: "text_keys C key_pair privA (publicKey (m_from m))" "text_keys C key_pair privB (publicKey (m_to m))"
      "cfg PRIVATE_KEY = Some privA" "pe_cfg W (m_to m) PRIVATE_KEY = Some privB" "pe_cfg W (m_to m) PUBLIC_KEY = Some k"
    and m: "m_type m = TEXT_MESSAGE" "CHR 0x00 \<notin> set (publicKey (m_from m))"
    and b: "createBlockFromMessage SHA256 C (ChainDB Q) cfg m Block (n_store n) = Inr b" "hash b \<notin> hash ` set c"
    and j: "TextMessage_serialize J C (TextMessage_setBlockHash (hash b) m) privA = Inr j"
    and f: "fits J j" "fits J (Block_toJson J b)"
      "fits J (TextMessageResponse_serialize J (TextMessageResponse_create (rq_uuid (pe_req W (m_to m)))
        (rq_ts (pe_req W (m_to m))) (UserPeer (host (m_to m)) (port (m_to m)) k) (m_from m)))"
    and e: "json_parse J ''{}'' = Inr e" "\<not> json_contains J e ''type''"
  shows "\<exists>n' rawText rawBlock ack r.
    sendSecretMessage (node_env J SHA256 C cfg srt Q) (peer_answers J SHA256 C srt Q W) uuid ts m n = (Inr None, n') \<and>
    db_node_ok Q n' \<and> db_chain (n_store n') = c @ [b] \<and> c_str (m_id m) \<in> st_id ` set (db_messages (n_store n')) \<and>
    json_dump J j = Inr rawText \<and> json_dump J (Block_toJson J b) = Inr rawBlock \<and>
    onMessage (node_env J SHA256 C (pe_cfg W (m_to m)) srt Q) (pe_req W (m_to m)) rawText (pe_node W (m_to m)) =
      (Inr (Some ack), r) \<and>
    in_step Q c (m_timestamp m) (pe_cfg W (m_to m)) (pe_req W (m_to m)) r \<and>
    c_str (m_id m) \<in> st_id ` set (db_messages (n_store r)) \<and>
    (\<forall>p s. in_step Q c (m_timestamp m) (pe_cfg W p) (pe_req W p) s \<longrightarrow>
      (\<exists>s'. onMessage (node_env J SHA256 C (pe_cfg W p) srt Q) (pe_req W p) rawBlock s = (Inr (Some ''{}''), s') \<and>
        db_chain (n_store s') = c @ [b]))"
proof -
  let ?to = "m_to m"
  obtain rawText where t: "json_dump J j = Inr rawText" using f(1) by (auto simp: fits_def)
  obtain rawBlock where rb: "json_dump J (Block_toJson J b) = Inr rawBlock" using f(2) by (auto simp: fits_def)
  have to: "in_step Q c (m_timestamp m) (pe_cfg W ?to) (pe_req W ?to) (pe_node W ?to)" using W by blast
  have net: "peer_answers J SHA256 C srt Q W p raw =
      Some (server_reply (node_env J SHA256 C (pe_cfg W p) srt Q) (pe_req W p) (pe_node W p) raw)" for p raw
    by (simp add: peer_answers_def)
  have "\<forall>p \<in> set (peers (n_peers n)). \<exists>cfg' q' s. in_step Q c (m_timestamp m) cfg' q' s \<and>
      peer_answers J SHA256 C srt Q W p rawBlock = Some (server_reply (node_env J SHA256 C cfg' srt Q) q' s rawBlock)"
    using W by (auto simp: net)
  note all = text_exchanged_over [OF C J S n to keys m b j f e t rb net this, of uuid ts]
  from all [THEN conjunct1] obtain n' where n':
    "sendSecretMessage (node_env J SHA256 C cfg srt Q) (peer_answers J SHA256 C srt Q W) uuid ts m n = (Inr None, n')"
    "db_node_ok Q n'" "db_chain (n_store n') = c @ [b]" "c_str (m_id m) \<in> message_ids n'"
    unfolding insert_subset by (elim exE conjE)
  from all [THEN conjunct2, THEN conjunct1] obtain ack r where r:
    "onMessage (node_env J SHA256 C (pe_cfg W ?to) srt Q) (pe_req W ?to) rawText (pe_node W ?to) = (Inr (Some ack), r)"
    "in_step Q c (m_timestamp m) (pe_cfg W ?to) (pe_req W ?to) r" "c_str (m_id m) \<in> message_ids r"
    unfolding insert_subset by (elim exE conjE)
  from all [THEN conjunct2, THEN conjunct2, THEN conjunct1] have
    "\<forall>p s. in_step Q c (m_timestamp m) (pe_cfg W p) (pe_req W p) s \<longrightarrow>
      (\<exists>s'. onMessage (node_env J SHA256 C (pe_cfg W p) srt Q) (pe_req W p) rawBlock s = (Inr (Some ''{}''), s') \<and>
        db_chain (n_store s') = c @ [b])" by blast
  with n' r t rb show ?thesis by blast
qed

subsection \<open>Texts of the fixtures\<close>

lemma small_text_fits: "length (jv_text j) < BUFFER_SIZE \<Longrightarrow> fits jt_lib j"
  using jv_text_pos [of j] by (simp add: fits_def)

lemma range_request_small:
  assumes "length h \<le> 64" "length uuid \<le> 36"
  shows "length (jv_text (BlockRangeMessage_serialize jt_lib (BlockRangeMessage_create uuid 0 alice bob 0 4 h))) < BUFFER_SIZE"
proof -
  let ?b = "getBasicSerialization jt_lib (BlockRangeMessage_create uuid 0 alice bob 0 4 h)"
  let ?p = "set_payload jt_lib ?b ''start'' (JNum 0)"
  let ?q = "set_payload jt_lib ?p ''count'' (JNum 4)"
  have "length (jv_text ?b) \<le> 800"
    using assms(2) by (intro base_text) (simp_all add: BlockRangeMessage_create_def Message_def message_ext_defs)
  moreover have "length (jv_text (JNum 0)) \<le> 4" "length (jv_text (JNum 4)) \<le> 4"
    by (simp_all add: to_string.simps)
  ultimately have "length (jv_text (set_payload jt_lib ?q ''lastHash'' (JStr h))) < BUFFER_SIZE"
    using payload_text [of ?b "''start''" "JNum 0"] payload_text [of ?p "''count''" "JNum 4"]
      payload_text [of ?q "''lastHash''" "JStr h"] assms(1) by (simp add: BUFFER_SIZE_def)
  then show ?thesis by (simp add: BlockRangeMessage_serialize_def Let_def)
qed

text \<open>A clock of nanoseconds whose local time knows no time before 1970.\<close>

definition test_clock :: local_clock where
  "test_clock = \<lparr> lc_ticks = 1000000, lc_localtime = (\<lambda>t. if t < 0 then None
     else Some \<lparr> tm_year = 70, tm_mon = 0, tm_mday = 1, tm_hour = 0, tm_min = 0, tm_sec = nat t mod 60 \<rparr>) \<rparr>"

definition quiet :: request_env where
  "quiet = \<lparr> rq_now = 0, rq_uuid = ''q'', rq_ts = 0, rq_clk = test_clock \<rparr>"

lemma quiet_fields [simp]: "rq_now quiet = 0" "rq_uuid quiet = ''q''" "rq_ts quiet = 0" "rq_clk quiet = test_clock"
  by (simp_all add: quiet_def)

lemma test_clock_shows: "0 \<le> sint ts \<Longrightarrow> sint ts < 2 ^ 40 * 8 \<Longrightarrow> \<exists>s. timestampToString test_clock ts = Inr s"
  by (simp add: timestampToString_def test_clock_def Let_def signed_divide_int_def not_less sgn_if)

lemma hello_clock [simp]: "\<exists>s. timestampToString test_clock 1700000000000 = Inr s"
  by (rule test_clock_shows) simp_all

lemma hello_json:
  "\<exists>j. TextMessage_serialize jt_lib tests_crypto (TextMessage_setBlockHash (hash hello_block) hello) alice_key = Inr j \<and>
     fits jt_lib j"
proof -
  let ?m = "TextMessage_setBlockHash (hash hello_block) hello"
  have keys: "text_keys tests_crypto xor_key_pair alice_key (publicKey (m_from ?m))"
    "text_keys tests_crypto xor_key_pair bob_key (publicKey (m_to ?m))" "m_type ?m = TEXT_MESSAGE" by simp_all
  obtain j where j: "TextMessage_serialize jt_lib tests_crypto ?m alice_key = Inr j"
    using icrypto.text_roundtrip [OF tests_crypto_meets jt_laws keys] by blast
  then obtain c s where cs: "j = text_json jt_lib ?m c s" "length c = 10" "length s = 64"
    using xor_digest
    by (auto simp: TextMessage_serialize_def text_json_def Let_def tests_crypto_def XORCrypto_def xor_encrypt_def
        xor_sign_def sha_len_def split: if_splits)
  let ?b = "SecretMessage_getBasicSerialization jt_lib ?m"
  have "length (jv_text (getBasicSerialization jt_lib ?m)) \<le> 800"
    by (intro base_text) (simp_all add: hello_def TextMessage_create_def TextMessage_def Message_def
        secret_message.defs text_message.defs message_ext_defs)
  then have "length (jv_text ?b) \<le> 1000"
    using jv_set_length [of "getBasicSerialization jt_lib ?m" "''blockHash''" "JStr (hash hello_block)"]
      hello_block(2) sha256_length [OF xor_digest]
    by (simp add: SecretMessage_getBasicSerialization_def valid_block_def)
  then have "length (jv_text j) < BUFFER_SIZE"
    using payload_text [of ?b "''message''" "JStr c"] cs
      jv_set_length [of "set_payload jt_lib ?b ''message'' (JStr c)" "''signature''" "JStr s"]
    by (simp add: text_json_def BUFFER_SIZE_def)
  with j show ?thesis using small_text_fits by blast
qed

lemma hello_block_fits: "fits jt_lib (Block_toJson jt_lib hello_block)"
  using hello_text by (intro small_text_fits) (simp add: BUFFER_SIZE_def)

text \<open>Alice and Bob.\<close>

definition bob_cfg :: config_data where
  "bob_cfg = alice_cfg(PUBLIC_KEY \<mapsto> bob_key, PRIVATE_KEY \<mapsto> bob_key)"

lemma bob_local: "\<exists>me. local_peer bob_cfg = Inr me"
proof -
  have "\<exists>p. stoi ''8001'' = Inr p"
    using alice_local by (auto simp: local_peer_def alice_cfg_def config_get_def)
  then show ?thesis by (auto simp: local_peer_def bob_cfg_def alice_cfg_def config_get_def)
qed

lemma empty_object:
  "json_parse jt_lib ''{}'' = Inr (JObj [])" "\<not> json_contains jt_lib (JObj []) ''type''"
proof -
  have "json_parse jt_lib (jv_text (JObj [])) = Inr (JObj [])"
    using jt_text_laws jt_dump [of "JObj []"] unfolding json_text_laws_def by blast
  then show "json_parse jt_lib ''{}'' = Inr (JObj [])" by simp
qed (simp add: jt_lib_def jv_lib_def jv_contains_def)

lemma ack_fits:
  "fits jt_lib (TextMessageResponse_serialize jt_lib (TextMessageResponse_create ''q'' 0
    (UserPeer (host bob) (port bob) bob_key) alice))"
proof (rule small_text_fits)
  let ?r = "TextMessageResponse_create ''q'' 0 bob alice"
  have "length (jv_text (getBasicSerialization jt_lib ?r)) \<le> 800"
    by (intro base_text) (simp_all add: TextMessageResponse_create_def Message_def)
  moreover have "UserPeer (host bob) (port bob) bob_key = bob" by (simp add: bob_def UserPeer_def)
  ultimately show "length (jv_text (TextMessageResponse_serialize jt_lib (TextMessageResponse_create ''q'' 0
      (UserPeer (host bob) (port bob) bob_key) alice))) < BUFFER_SIZE"
    by (simp add: TextMessageResponse_serialize_def BUFFER_SIZE_def)
qed

end
