(* ===== verification/DC_Mesh.thy ===== *)
theory DC_Mesh
  imports DC_Exchange
begin

text \<open>
  A network in which every node has every other in its list of peers, as after the exchange of peer
  lists. A round is one text of one user to another: its receiver takes the text, and then every peer of
  the sender, the receiver among them, takes the block.
\<close>

subsection \<open>Rounds\<close>

text \<open>What \<open>TCPClient::sendSecretMessage\<close> sends: the text to its receiver, the block to the peers.\<close>

definition sent_texts ::
  "'j json_lib \<Rightarrow> (bytes \<Rightarrow> bytes) \<Rightarrow> ICrypto \<Rightarrow> sqlite \<Rightarrow> config_data \<Rightarrow> text_message \<Rightarrow> db node \<Rightarrow>
   (string \<times> string) res" where
  "sent_texts J SHA256 C Q cfg m n =
     bnd (createBlockFromMessage SHA256 C (ChainDB Q) cfg m Block (n_store n)) (\<lambda>b.
     bnd (bnd (config_get cfg PRIVATE_KEY) (TextMessage_serialize J C (TextMessage_setBlockHash (hash b) m))) (\<lambda>j.
     bnd (json_dump J j) (\<lambda>rawText.
     bnd (json_dump J (Block_toJson J b)) (\<lambda>rawBlock. Inr (rawText, rawBlock)))))"

text \<open>The server of \<open>p\<close> handles one request.\<close>

definition takes ::
  "'j json_lib \<Rightarrow> (bytes \<Rightarrow> bytes) \<Rightarrow> ICrypto \<Rightarrow> (text_message list \<Rightarrow> text_message list) \<Rightarrow> sqlite \<Rightarrow>
   string \<Rightarrow> user_peer \<Rightarrow> peers_env \<Rightarrow> peers_env" where
  "takes J SHA256 C srt Q raw p W =
     W\<lparr>pe_node := (pe_node W)(p :=
       snd (onMessage (node_env J SHA256 C (pe_cfg W p) srt Q) (pe_req W p) raw (pe_node W p)))\<rparr>"

record round =
  rd_msg :: text_message
  rd_req :: "user_peer \<Rightarrow> request_env"    \<comment> \<open>the clocks and the fresh identifiers of the nodes\<close>
  rd_uuid :: string
  rd_ts :: u64

text \<open>
  The network after a round, \<open>None\<close> if the call of the sender fails. The requests for the block are
  answered by nodes of which the receiver has already taken the text.
\<close>

definition text_round ::
  "'j json_lib \<Rightarrow> (bytes \<Rightarrow> bytes) \<Rightarrow> ICrypto \<Rightarrow> (text_message list \<Rightarrow> text_message list) \<Rightarrow> sqlite \<Rightarrow>
   round \<Rightarrow> peers_env \<Rightarrow> peers_env option" where
  "text_round J SHA256 C srt Q rd W0 =
     (let m = rd_msg rd; s = m_from m; W = W0\<lparr>pe_req := rd_req rd\<rparr>; n = pe_node W s in
      case sent_texts J SHA256 C Q (pe_cfg W s) m n of
        Inl e \<Rightarrow> None
      | Inr (rawText, rawBlock) \<Rightarrow>
          let W1 = takes J SHA256 C srt Q rawText (m_to m) W;
              net = (\<lambda>p raw. peer_answers J SHA256 C srt Q (if raw = rawText then W else W1) p raw)
          in case sendSecretMessage (node_env J SHA256 C (pe_cfg W s) srt Q) net (rd_uuid rd) (rd_ts rd) m n of
               (Inr None, n') \<Rightarrow>
                 let W2 = fold (takes J SHA256 C srt Q rawBlock) (peers (n_peers n)) W1
                 in Some (W2\<lparr>pe_node := (pe_node W2)(s := n')\<rparr>)
             | _ \<Rightarrow> None)"

fun text_rounds ::
  "'j json_lib \<Rightarrow> (bytes \<Rightarrow> bytes) \<Rightarrow> ICrypto \<Rightarrow> (text_message list \<Rightarrow> text_message list) \<Rightarrow> sqlite \<Rightarrow>
   round list \<Rightarrow> peers_env \<Rightarrow> peers_env option" where
  "text_rounds J SHA256 C srt Q [] W = Some W"
| "text_rounds J SHA256 C srt Q (rd # rds) W =
     Option.bind (text_round J SHA256 C srt Q rd W) (text_rounds J SHA256 C srt Q rds)"

subsection \<open>The network and its rounds\<close>

text \<open>The nodes \<open>A\<close> agree on the chain \<open>c\<close> and know each other.\<close>

definition agree :: "sqlite \<Rightarrow> user_peer set \<Rightarrow> block list \<Rightarrow> peers_env \<Rightarrow> bool" where
  "agree Q A c W \<longleftrightarrow> (\<forall>p \<in> A. db_node_ok Q (pe_node W p) \<and> db_chain (n_store (pe_node W p)) = c \<and>
     set (peers (n_peers (pe_node W p))) = A - {p})"

text \<open>The configuration of every node is complete, and its private key is that of its address.\<close>

definition configured :: "ICrypto \<Rightarrow> (bytes \<Rightarrow> bytes \<Rightarrow> bool) \<Rightarrow> user_peer set \<Rightarrow> peers_env \<Rightarrow> bool" where
  "configured C key_pair A W \<longleftrightarrow> (\<forall>p \<in> A. (\<exists>me. local_peer (pe_cfg W p) = Inr me) \<and>
     (\<exists>priv. pe_cfg W p PRIVATE_KEY = Some priv \<and> text_keys C key_pair priv (publicKey p)) \<and>
     CHR 0x00 \<notin> set (publicKey p))"

text \<open>
  A round between two of them: no clock is more than five minutes behind the time of the text, which
  every node can show, the hash
  of the block is new, and what is sent fits the buffers.
\<close>

definition round_ok ::
  "'j json_lib \<Rightarrow> (bytes \<Rightarrow> bytes) \<Rightarrow> ICrypto \<Rightarrow> sqlite \<Rightarrow> user_peer set \<Rightarrow> round \<Rightarrow> peers_env \<Rightarrow> bool" where
  "round_ok J SHA256 C Q A rd W \<longleftrightarrow>
     (let m = rd_msg rd; s = m_from m; t = m_to m; n = pe_node W s in
      m_type m = TEXT_MESSAGE \<and> s \<in> A \<and> t \<in> A \<and> s \<noteq> t \<and>
      (\<forall>p \<in> A. clock_ok (db_timely Q) (rq_now (rd_req rd p)) \<and> m_timestamp m \<le> rq_now (rd_req rd p) + 300000 \<and>
        (\<exists>ft. timestampToString (rq_clk (rd_req rd p)) (m_timestamp m) = Inr ft)) \<and>
      (\<forall>b j priv. createBlockFromMessage SHA256 C (ChainDB Q) (pe_cfg W s) m Block (n_store n) = Inr b \<longrightarrow>
        hash b \<notin> hash ` set (db_chain (n_store n)) \<and> fits J (Block_toJson J b) \<and>
        (pe_cfg W s PRIVATE_KEY = Some priv \<and>
          TextMessage_serialize J C (TextMessage_setBlockHash (hash b) m) priv = Inr j \<longrightarrow> fits J j)) \<and>
      (\<forall>k. pe_cfg W t PUBLIC_KEY = Some k \<longrightarrow>
        fits J (TextMessageResponse_serialize J (TextMessageResponse_create (rq_uuid (rd_req rd t))
          (rq_ts (rd_req rd t)) (UserPeer (host t) (port t) k) s))))"

fun rounds_ok ::
  "'j json_lib \<Rightarrow> (bytes \<Rightarrow> bytes) \<Rightarrow> ICrypto \<Rightarrow> (text_message list \<Rightarrow> text_message list) \<Rightarrow> sqlite \<Rightarrow>
   user_peer set \<Rightarrow> round list \<Rightarrow> peers_env \<Rightarrow> bool" where
  "rounds_ok J SHA256 C srt Q A [] W \<longleftrightarrow> True"
| "rounds_ok J SHA256 C srt Q A (rd # rds) W \<longleftrightarrow> round_ok J SHA256 C Q A rd W \<and>
     (case text_round J SHA256 C srt Q rd W of None \<Rightarrow> True | Some W' \<Rightarrow> rounds_ok J SHA256 C srt Q A rds W')"

subsection \<open>One round\<close>

lemma takes_fields [simp]:
  "pe_cfg (takes J SHA256 C srt Q raw p W) = pe_cfg W" "pe_req (takes J SHA256 C srt Q raw p W) = pe_req W"
  "pe_node (takes J SHA256 C srt Q raw p W) = (pe_node W)(p :=
     snd (onMessage (node_env J SHA256 C (pe_cfg W p) srt Q) (pe_req W p) raw (pe_node W p)))"
  by (simp_all add: takes_def)

lemma all_take:
  "pe_cfg (fold (takes J SHA256 C srt Q raw) ps W) = pe_cfg W"
  "distinct ps \<Longrightarrow> pe_node (fold (takes J SHA256 C srt Q raw) ps W) p = (if p \<in> set ps
    then snd (onMessage (node_env J SHA256 C (pe_cfg W p) srt Q) (pe_req W p) raw (pe_node W p)) else pe_node W p)"
  by (induction ps arbitrary: W) auto

lemma configured_key:
  assumes "configured C key_pair A W" "p \<in> A"
  obtains k priv where "pe_cfg W p PUBLIC_KEY = Some k" "pe_cfg W p PRIVATE_KEY = Some priv"
    "text_keys C key_pair priv (publicKey p)" "CHR 0x00 \<notin> set (publicKey p)"
proof -
  have "\<exists>k. pe_cfg W p PUBLIC_KEY = Some k" if "local_peer (pe_cfg W p) = Inr me" for me
    using that by (auto simp: local_peer_def config_get_def split: option.splits)
  then show ?thesis using assms that by (fastforce simp: configured_def)
qed

lemma answers_in_step:
  assumes "in_step Q c t (pe_cfg W p) (pe_req W p) (pe_node W p)"
  shows "\<exists>cfg' q' s. in_step Q c t cfg' q' s \<and>
    peer_answers J SHA256 C srt Q W p raw = Some (server_reply (node_env J SHA256 C cfg' srt Q) q' s raw)"
  using assms by (intro exI conjI) (assumption, simp add: peer_answers_def)

text \<open>What a round sends: it exists, fits the buffers, and the block vouches for the text.\<close>

lemma round_sent:
  assumes C: "icrypto C key_pair session_key" and J: "json_laws J"
    and A: "agree Q A c W" "configured C key_pair A W" "round_ok J SHA256 C Q A rd W"
    and s: "m_from (rd_msg rd) = s" and t: "m_to (rd_msg rd) = t"
  shows "\<exists>b j k privA privB rawText rawBlock.
    createBlockFromMessage SHA256 C (ChainDB Q) (pe_cfg W s) (rd_msg rd) Block (n_store (pe_node W s)) = Inr b \<and>
    compareBlockWithMessage SHA256 C b (rd_msg rd) = Inr None \<and> hash b \<notin> hash ` set c \<and>
    TextMessage_serialize J C (TextMessage_setBlockHash (hash b) (rd_msg rd)) privA = Inr j \<and>
    pe_cfg W s PRIVATE_KEY = Some privA \<and> text_keys C key_pair privA (publicKey s) \<and> CHR 0x00 \<notin> set (publicKey s) \<and>
    pe_cfg W t PRIVATE_KEY = Some privB \<and> text_keys C key_pair privB (publicKey t) \<and> pe_cfg W t PUBLIC_KEY = Some k \<and>
    fits J j \<and> fits J (Block_toJson J b) \<and>
    fits J (TextMessageResponse_serialize J (TextMessageResponse_create (rq_uuid (rd_req rd t))
      (rq_ts (rd_req rd t)) (UserPeer (host t) (port t) k) s)) \<and>
    json_dump J j = Inr rawText \<and> json_dump J (Block_toJson J b) = Inr rawBlock \<and>
    sent_texts J SHA256 C Q (pe_cfg W s) (rd_msg rd) (pe_node W s) = Inr (rawText, rawBlock)"
proof -
  let ?m = "rd_msg rd"
  have r: "m_type ?m = TEXT_MESSAGE" "s \<in> A" "t \<in> A"
    using A(3) by (simp_all add: round_ok_def Let_def s t)
  have n: "db_chain (n_store (pe_node W s)) = c" "chain_db_inv Q (n_store (pe_node W s))"
    using A(1) r(2) by (auto simp: agree_def db_node_ok_def node_ok_def)
  obtain privA where ka: "pe_cfg W s PRIVATE_KEY = Some privA" "text_keys C key_pair privA (publicKey s)"
    "CHR 0x00 \<notin> set (publicKey s)" using configured_key [OF A(2) r(2)] by metis
  obtain k privB where kb: "pe_cfg W t PUBLIC_KEY = Some k" "pe_cfg W t PRIVATE_KEY = Some privB"
    "text_keys C key_pair privB (publicKey t)" using configured_key [OF A(2) r(3)] by metis
  obtain b where b: "createBlockFromMessage SHA256 C (ChainDB Q) (pe_cfg W s) ?m Block (n_store (pe_node W s)) = Inr b"
    "compareBlockWithMessage SHA256 C b ?m = Inr None"
    using created_block [of C key_pair session_key Q _ _ privA ?m] C n(2) ka(1,2) s by blast
  have "text_keys C key_pair privA (publicKey (m_from (TextMessage_setBlockHash (hash b) ?m)))"
    "text_keys C key_pair privB (publicKey (m_to (TextMessage_setBlockHash (hash b) ?m)))" using ka kb by (simp_all add: s t)
  from icrypto.text_roundtrip [OF C J this] r(1)
  obtain j where j: "TextMessage_serialize J C (TextMessage_setBlockHash (hash b) ?m) privA = Inr j" by auto
  have f: "hash b \<notin> hash ` set c" "fits J (Block_toJson J b)" "fits J j"
    "fits J (TextMessageResponse_serialize J (TextMessageResponse_create (rq_uuid (rd_req rd t))
      (rq_ts (rd_req rd t)) (UserPeer (host t) (port t) k) s))"
    using A(3) b(1) ka(1) j kb(1) n(1) by (auto simp: round_ok_def Let_def s t)
  then obtain rawText rawBlock where t: "json_dump J j = Inr rawText" "json_dump J (Block_toJson J b) = Inr rawBlock"
    by (auto simp: fits_def)
  then have "sent_texts J SHA256 C Q (pe_cfg W s) ?m (pe_node W s) = Inr (rawText, rawBlock)"
    using b(1) ka(1) j by (simp add: sent_texts_def config_get_def)
  with b f j ka kb t show ?thesis by (intro exI conjI) assumption+
qed

text \<open>What it does to the nodes.\<close>

lemma round_run:
  assumes C: "icrypto C key_pair session_key" and J: "json_laws J" "json_text_laws J" and S: "sha_len SHA256"
    and e: "json_parse J ''{}'' = Inr e" "\<not> json_contains J e ''type''"
    and A: "agree Q A c W" "configured C key_pair A W" "valid_chain SHA256 C c" "round_ok J SHA256 C Q A rd W"
    and s: "m_from (rd_msg rd) = s" and t: "m_to (rd_msg rd) = t"
  shows "\<exists>W' b. text_round J SHA256 C srt Q rd W = Some W' \<and> pe_cfg W' = pe_cfg W \<and> valid_chain SHA256 C (c @ [b]) \<and>
    compareBlockWithMessage SHA256 C b (rd_msg rd) = Inr None \<and>
    (\<forall>p \<in> A. db_node_ok Q (pe_node W' p) \<and> db_chain (n_store (pe_node W' p)) = c @ [b] \<and>
      n_peers (pe_node W' p) = n_peers (pe_node W p) \<and>
      message_ids (pe_node W p) \<union> (if p \<in> {s, t} then {c_str (m_id (rd_msg rd))} else {}) \<subseteq> message_ids (pe_node W' p))"
proof -
  let ?m = "rd_msg rd"
  let ?V = "W\<lparr>pe_req := rd_req rd\<rparr>" and ?n = "pe_node W s" and ?E = "\<lambda>p. node_env J SHA256 C (pe_cfg W p) srt Q"
  have r: "m_type ?m = TEXT_MESSAGE" "s \<in> A" "t \<in> A" "s \<noteq> t"
    and clocks: "p \<in> A \<Longrightarrow> clock_ok (db_timely Q) (rq_now (rd_req rd p)) \<and> m_timestamp ?m \<le> rq_now (rd_req rd p) + 300000 \<and>
      (\<exists>ft. timestampToString (rq_clk (rd_req rd p)) (m_timestamp ?m) = Inr ft)" for p
    using A(4) by (simp_all add: round_ok_def Let_def s t)
  have n: "db_node_ok Q ?n" "db_chain (n_store ?n) = c" "set (peers (n_peers ?n)) = A - {s}" "distinct (peers (n_peers ?n))"
    using A(1) r(2) by (auto simp: agree_def db_node_ok_def node_ok_def peers_inv_def)
  from round_sent [OF C J(1) A(1,2,4) s t] obtain b j k privA privB rawText rawBlock where
    b: "createBlockFromMessage SHA256 C (ChainDB Q) (pe_cfg W s) ?m Block (n_store ?n) = Inr b"
      "compareBlockWithMessage SHA256 C b ?m = Inr None" "hash b \<notin> hash ` set c"
    and j: "TextMessage_serialize J C (TextMessage_setBlockHash (hash b) ?m) privA = Inr j"
    and ka: "pe_cfg W s PRIVATE_KEY = Some privA" "text_keys C key_pair privA (publicKey s)" "CHR 0x00 \<notin> set (publicKey s)"
    and kb: "pe_cfg W t PRIVATE_KEY = Some privB" "text_keys C key_pair privB (publicKey t)" "pe_cfg W t PUBLIC_KEY = Some k"
    and f: "fits J j" "fits J (Block_toJson J b)"
      "fits J (TextMessageResponse_serialize J (TextMessageResponse_create (rq_uuid (rd_req rd t))
        (rq_ts (rd_req rd t)) (UserPeer (host t) (port t) k) s))"
    and raw: "json_dump J j = Inr rawText" "json_dump J (Block_toJson J b) = Inr rawBlock"
    and sent: "sent_texts J SHA256 C Q (pe_cfg W s) ?m ?n = Inr (rawText, rawBlock)"
    by (elim exE conjE)
  have step: "in_step Q c (m_timestamp ?m) (pe_cfg W p) (rd_req rd p) (pe_node W p)" if "p \<in> A" for p
    using A(1,2) clocks [OF that] that by (auto simp: in_step_def agree_def configured_def)
  note over = text_exchanged_over [OF C J S n(1,2) A(3), of ?m "pe_cfg W t" "rd_req rd t" "pe_node W t" privA privB "pe_cfg W s"
      k b j e rawText rawBlock _ srt "rd_uuid rd" "rd_ts rd", unfolded s t,
      OF step [OF r(3)] ka(2) kb(2) ka(1) kb(1,3) r(1) ka(3) b(1,3) j f e raw]
  define W1 where "W1 = takes J SHA256 C srt Q rawText t ?V"
  define net where "net = (\<lambda>p raw. peer_answers J SHA256 C srt Q (if raw = rawText then ?V else W1) p raw)"
  have "\<forall>p \<in> set (peers (n_peers ?n)). \<exists>cfg' q' s. in_step Q c (m_timestamp ?m) cfg' q' s \<and>
      peer_answers J SHA256 C srt Q ?V p rawBlock = Some (server_reply (node_env J SHA256 C cfg' srt Q) q' s rawBlock)"
    using step n(3) by (intro ballI answers_in_step) simp
  with over [of "peer_answers J SHA256 C srt Q ?V"]
  obtain ack v where v: "onMessage (?E t) (rd_req rd t) rawText (pe_node W t) = (Inr (Some ack), v)"
    "in_step Q c (m_timestamp ?m) (pe_cfg W t) (rd_req rd t) v" "n_peers v = n_peers (pe_node W t)"
    "insert (c_str (m_id ?m)) (message_ids (pe_node W t)) \<subseteq> message_ids v"
    by (auto simp: peer_answers_def)
  have W1: "pe_node W1 = (pe_node W)(t := v)" "pe_cfg W1 = pe_cfg W" "pe_req W1 = rd_req rd"
    using v(1) by (simp_all add: W1_def)
  have step1: "in_step Q c (m_timestamp ?m) (pe_cfg W p) (rd_req rd p) (pe_node W1 p)" if "p \<in> A" for p
    using step [OF that] v(2) by (simp add: W1)
  have "\<forall>p \<in> set (peers (n_peers ?n)). \<exists>cfg' q' s. in_step Q c (m_timestamp ?m) cfg' q' s \<and>
      net p rawBlock = Some (server_reply (node_env J SHA256 C cfg' srt Q) q' s rawBlock)"
    unfolding net_def using step step1 n(3) by (intro ballI answers_in_step) (simp add: W1(2,3))
  then obtain n' where n': "sendSecretMessage (?E s) net (rd_uuid rd) (rd_ts rd) ?m ?n = (Inr None, n')"
    "db_node_ok Q n'" "db_chain (n_store n') = c @ [b]" "n_peers n' = n_peers ?n"
    "insert (c_str (m_id ?m)) (message_ids ?n) \<subseteq> message_ids n'" "valid_chain SHA256 C (c @ [b])"
    and blocks: "\<forall>cfg' q' s. in_step Q c (m_timestamp ?m) cfg' q' s \<longrightarrow>
      (\<exists>s'. onMessage (node_env J SHA256 C cfg' srt Q) q' rawBlock s = (Inr (Some ''{}''), s') \<and> db_node_ok Q s' \<and>
        db_chain (n_store s') = c @ [b] \<and> n_peers s' = n_peers s \<and> message_ids s' = message_ids s)"
    using over [of net] by (auto simp: net_def peer_answers_def)
  define W2 where "W2 = fold (takes J SHA256 C srt Q rawBlock) (peers (n_peers ?n)) W1"
  let ?W' = "W2\<lparr>pe_node := (pe_node W2)(s := n')\<rparr>"
  have peer: "db_node_ok Q (pe_node W2 p) \<and> db_chain (n_store (pe_node W2 p)) = c @ [b] \<and>
      n_peers (pe_node W2 p) = n_peers (pe_node W p) \<and> message_ids (pe_node W2 p) = message_ids (pe_node W1 p)"
    if "p \<in> A" "p \<noteq> s" for p
  proof -
    have "pe_node W2 p = snd (onMessage (?E p) (rd_req rd p) rawBlock (pe_node W1 p))"
      using that n(3,4) by (simp add: W2_def all_take W1(2,3))
    moreover have "n_peers (pe_node W1 p) = n_peers (pe_node W p)" using v(3) by (simp add: W1)
    ultimately show ?thesis using blocks step1 [OF that(1)] by fastforce
  qed
  have "text_round J SHA256 C srt Q rd W = Some ?W'"
    unfolding text_round_def Let_def s t
    using sent n'(1) by (simp add: net_def W2_def W1_def s cong: if_cong)
  moreover have "pe_cfg ?W' = pe_cfg W" by (simp add: W2_def all_take(1) W1)
  moreover have "message_ids (pe_node W p) \<union> (if p \<in> {s, t} then {c_str (m_id ?m)} else {}) \<subseteq> message_ids (pe_node ?W' p)"
    if "p \<in> A" for p
    using peer [OF that] v(4) n'(5) r(4) by (auto simp: W1)
  ultimately show ?thesis using peer n'(2-4,6) b(2)
    by (intro exI [of _ ?W'] exI [of _ b]) auto
qed

lemma round_agrees:
  assumes C: "icrypto C key_pair session_key" and J: "json_laws J" "json_text_laws J" and S: "sha_len SHA256"
    and e: "json_parse J ''{}'' = Inr e" "\<not> json_contains J e ''type''"
    and A: "agree Q A c W" "configured C key_pair A W" "valid_chain SHA256 C c" "round_ok J SHA256 C Q A rd W"
  shows "\<exists>W' b. text_round J SHA256 C srt Q rd W = Some W' \<and> agree Q A (c @ [b]) W' \<and>
    configured C key_pair A W' \<and> valid_chain SHA256 C (c @ [b]) \<and>
    compareBlockWithMessage SHA256 C b (rd_msg rd) = Inr None \<and>
    (\<forall>p \<in> A. message_ids (pe_node W p) \<subseteq> message_ids (pe_node W' p)) \<and>
    c_str (m_id (rd_msg rd)) \<in> message_ids (pe_node W' (m_from (rd_msg rd))) \<inter> message_ids (pe_node W' (m_to (rd_msg rd)))"
proof -
  obtain W' b where W': "text_round J SHA256 C srt Q rd W = Some W'" "pe_cfg W' = pe_cfg W" "valid_chain SHA256 C (c @ [b])"
    "compareBlockWithMessage SHA256 C b (rd_msg rd) = Inr None"
    "\<forall>p \<in> A. db_node_ok Q (pe_node W' p) \<and> db_chain (n_store (pe_node W' p)) = c @ [b] \<and>
      n_peers (pe_node W' p) = n_peers (pe_node W p) \<and> message_ids (pe_node W p) \<union>
      (if p \<in> {m_from (rd_msg rd), m_to (rd_msg rd)} then {c_str (m_id (rd_msg rd))} else {}) \<subseteq> message_ids (pe_node W' p)"
    using round_run [OF C J S e A refl refl, of srt] by (elim exE conjE)
  have "m_from (rd_msg rd) \<in> A" "m_to (rd_msg rd) \<in> A" using A(4) by (simp_all add: round_ok_def Let_def)
  then have "c_str (m_id (rd_msg rd)) \<in> message_ids (pe_node W' (m_from (rd_msg rd))) \<inter> message_ids (pe_node W' (m_to (rd_msg rd)))"
    using W'(5) [THEN bspec, of "m_from (rd_msg rd)"] W'(5) [THEN bspec, of "m_to (rd_msg rd)"] by simp
  moreover have "agree Q A (c @ [b]) W'" "configured C key_pair A W'"
    using A(1,2) W'(2,5) by (simp_all add: agree_def configured_def)
  moreover have "\<forall>p \<in> A. message_ids (pe_node W p) \<subseteq> message_ids (pe_node W' p)" using W'(5) by simp
  ultimately show ?thesis using W'(1,3,4) by blast
qed

subsection \<open>Any number of rounds\<close>

lemma rounds_agree:
  assumes C: "icrypto C key_pair session_key" and J: "json_laws J" "json_text_laws J" and S: "sha_len SHA256"
    and e: "json_parse J ''{}'' = Inr e" "\<not> json_contains J e ''type''"
  shows "agree Q A c W \<Longrightarrow> configured C key_pair A W \<Longrightarrow> valid_chain SHA256 C c \<Longrightarrow>
    rounds_ok J SHA256 C srt Q A rds W \<Longrightarrow>
    \<exists>W' bs. text_rounds J SHA256 C srt Q rds W = Some W' \<and> agree Q A (c @ bs) W' \<and> valid_chain SHA256 C (c @ bs) \<and>
      list_all2 (\<lambda>b rd. compareBlockWithMessage SHA256 C b (rd_msg rd) = Inr None) bs rds \<and>
      (\<forall>p \<in> A. message_ids (pe_node W p) \<subseteq> message_ids (pe_node W' p)) \<and>
      (\<forall>rd \<in> set rds. c_str (m_id (rd_msg rd)) \<in>
        message_ids (pe_node W' (m_from (rd_msg rd))) \<inter> message_ids (pe_node W' (m_to (rd_msg rd))))"
proof (induction rds arbitrary: c W)
  case Nil
  then show ?case by (intro exI [of _ W] exI [of _ "[]"]) simp
next
  case (Cons rd rds)
  then have r: "round_ok J SHA256 C Q A rd W" by simp
  then have rA: "m_from (rd_msg rd) \<in> A" "m_to (rd_msg rd) \<in> A" by (simp_all add: round_ok_def Let_def)
  obtain V b where V: "text_round J SHA256 C srt Q rd W = Some V" "agree Q A (c @ [b]) V" "configured C key_pair A V"
    "valid_chain SHA256 C (c @ [b])" "compareBlockWithMessage SHA256 C b (rd_msg rd) = Inr None"
    "\<forall>p \<in> A. message_ids (pe_node W p) \<subseteq> message_ids (pe_node V p)"
    "c_str (m_id (rd_msg rd)) \<in> message_ids (pe_node V (m_from (rd_msg rd))) \<inter> message_ids (pe_node V (m_to (rd_msg rd)))"
    using round_agrees [OF C J S e Cons.prems(1-3) r, of srt] by (elim exE conjE)
  then have "rounds_ok J SHA256 C srt Q A rds V" using Cons.prems(4) by simp
  from Cons.IH [OF V(2-4) this] obtain W' bs where W': "text_rounds J SHA256 C srt Q rds V = Some W'"
    "agree Q A ((c @ [b]) @ bs) W'" "valid_chain SHA256 C ((c @ [b]) @ bs)"
    "list_all2 (\<lambda>b rd. compareBlockWithMessage SHA256 C b (rd_msg rd) = Inr None) bs rds"
    "\<forall>p \<in> A. message_ids (pe_node V p) \<subseteq> message_ids (pe_node W' p)"
    "\<forall>rd \<in> set rds. c_str (m_id (rd_msg rd)) \<in>
      message_ids (pe_node W' (m_from (rd_msg rd))) \<inter> message_ids (pe_node W' (m_to (rd_msg rd)))"
    by (elim exE conjE)
  have "c_str (m_id (rd_msg rd)) \<in> message_ids (pe_node W' (m_from (rd_msg rd))) \<inter> message_ids (pe_node W' (m_to (rd_msg rd)))"
    using V(7) W'(5) rA by (meson IntD1 IntD2 IntI subsetD)
  moreover have "\<forall>p \<in> A. message_ids (pe_node W p) \<subseteq> message_ids (pe_node W' p)" using V(6) W'(5) by blast
  ultimately show ?case using V(1,5) W'(1-4,6)
    by (intro exI [of _ W'] exI [of _ "b # bs"]) simp
qed

end
