(* ===== verification/DC_NodeTheorems.thy ===== *)
theory DC_NodeTheorems
  imports DC_Mesh DC_Sockets DC_ConsoleUI
begin

text \<open>
  What a node promises its peers: synchronizing, connecting, exchanging texts and lists of peers.
\<close>

section \<open>Synchronizing\<close>

text \<open>
  C13. Over a peer whose chain extends the chain of the node, the loop over the batches ends, collects
  just the missing blocks whatever their number, and \<open>accept_blocks\<close> stores them all: the chains are
  equal and valid.
\<close>

theorem synchronization_replicates:
  assumes "json_laws J" "json_text_laws J"
    and "db_node_ok Q n" "db_node_ok Q ns" "n_newBlocks n = []"
    and "db_chain (n_store ns) = db_chain (n_store n) @ l" "length (db_chain (n_store ns)) \<le> 2 ^ 32 - 4"
    and "valid_chain SHA256 C (db_chain (n_store ns))" "sha_len SHA256"
    and "\<forall>raw. net to raw = Some (server_reply (node_env J SHA256 C cfg' srt Q) q ns raw)"
    and "\<forall>start \<in> set (batch_starts BLOCKS_BATCH_SIZE (word_of_nat (length l))).
      fits J (range_request (node_env J SHA256 C cfg srt Q) fresh from to (tip_hash (db_chain (n_store n))) start) \<and>
      fits J (range_answer (node_env J SHA256 C cfg srt Q) q from to (take 4 (drop (unat start) l)))"
  shows "\<exists>n'. Service_countBlocksAfterHash (ChainDB Q) (tip_hash (db_chain (n_store n))) (n_store ns) =
      Inr (word_of_nat (length l)) \<and>
    then_loop (batch_loop BLOCKS_BATCH_SIZE (word_of_nat (length l))
      (request_blocks (node_env J SHA256 C cfg srt Q) net fresh from to (tip_hash (db_chain (n_store n)))) 0)
      (\<lambda>_. returns (accept_blocks (node_env J SHA256 C cfg srt Q))) n = Some (Inr (), n') \<and>
    db_node_ok Q n' \<and> db_chain (n_store n') = db_chain (n_store ns)"
proof -
  let ?E = "node_env J SHA256 C cfg srt Q" and ?ES = "node_env J SHA256 C cfg' srt Q"
  let ?c = "db_chain (n_store n)" and ?h = "tip_hash (db_chain (n_store n))"
  let ?k = "word_of_nat (length l) :: u32"
  have inv: "chain_db_inv Q (n_store n)" "chain_db_inv Q (n_store ns)"
    using assms(3,4) by (simp_all add: db_node_ok_def node_ok_def)
  have lens: "length (db_chain (n_store ns)) < 2 ^ 32" "unat ?k = length l"
    using assms(6,7) by (simp_all add: unat_of_nat take_bit_eq_mod)
  have tail: "tail_after ?h (db_chain (n_store ns)) = Some l"
    using tail_after_tip [of SHA256 C ?c l] cdb.distinct_hashes [OF inv(2)] assms(8,9) by (simp add: assms(6))
  have count: "Service_countBlocksAfterHash (ChainDB Q) ?h (n_store ns) = Inr ?k"
    using cdb.count [OF inv(2) lens(1), of ?h] by (simp add: Service_countBlocksAfterHash_def tail)
  have page: "request_blocks ?E net fresh from to ?h start n =
      (Inr (), n\<lparr>n_newBlocks := n_newBlocks n @ take 4 (drop (unat start) l)\<rparr>)"
    if "start \<in> set (batch_starts BLOCKS_BATCH_SIZE ?k)" for start n
    using assms(1,2,10,11) that cdb.range [OF inv(2) lens(1), of start BLOCKS_BATCH_SIZE ?h "[]"]
    by (intro request_blocks_page [of ?E ?ES net to q ns]) (simp_all add: Service_getBlocksByIndexRange_def tail BLOCKS_BATCH_SIZE_def)
  have l: "concat (map (\<lambda>start. take 4 (drop (unat start) l)) (batch_starts BLOCKS_BATCH_SIZE ?k)) = l"
    using batch_starts_pages [of BLOCKS_BATCH_SIZE ?k l] assms(6,7) lens(2) by (simp add: BLOCKS_BATCH_SIZE_def)
  have "batch_loop BLOCKS_BATCH_SIZE ?k (request_blocks ?E net fresh from to ?h) 0 n =
      Some (Inr (), n\<lparr>n_newBlocks := l\<rparr>)"
    using assms(5,6,7) lens(2) l
    by (subst batch_loop_terminates) (simp_all add: each_appends [OF page] BLOCKS_BATCH_SIZE_def)
  moreover obtain n' where "accept_blocks ?E (n\<lparr>n_newBlocks := l\<rparr>) = (Inr (), n')" "db_node_ok Q n'"
    "db_chain (n_store n') = db_chain (n_store ns)"
  proof -
    have "\<forall>b \<in> set l. c_block b = b \<and> db_timely Q b" using cdb.kept [OF inv(2)] assms(6) by auto
    then show thesis
      using that nst.accept_blocks_all [OF node_env_wired, of Q "n\<lparr>n_newBlocks := l\<rparr>" l J SHA256 C cfg srt]
        assms(3,6,8,9) cdb.distinct_hashes [OF inv(2)] by (auto simp: db_node_ok_def node_ok_def)
  qed
  ultimately show ?thesis using count by (force simp: then_loop_def returns_def)
qed

theorem synchronization_witness:
  "\<exists>n'. then_loop (batch_loop BLOCKS_BATCH_SIZE 1
      (request_blocks alice_env (\<lambda>_ raw. Some (server_reply alice_env quiet (fresh_node\<lparr>n_store := hello_db\<rparr>) raw)) (\<lambda>_. (''r'', 0))
        alice bob ''0'') 0)
      (\<lambda>_. returns (accept_blocks alice_env)) fresh_node = Some (Inr (), n') \<and>
    db_chain (n_store n') = [hello_block]"
proof -
  let ?ns = "fresh_node\<lparr>n_store := hello_db\<rparr>"
  have starts: "batch_starts BLOCKS_BATCH_SIZE 1 = [0]"
    by (simp add: batch_starts_def BLOCKS_BATCH_SIZE_def)
  have req: "fits jt_lib (range_request alice_env (\<lambda>_. (''r'', 0)) alice bob h 0)" if "length h \<le> 64" for h
    using range_request_small [of h "''r''"] that
    by (intro small_text_fits) (simp add: range_request_def BLOCKS_BATCH_SIZE_def)
  have ans: "fits jt_lib (range_answer alice_env quiet alice bob [hello_block])"
  proof (rule small_text_fits)
    let ?b = "getBasicSerialization jt_lib (BlockRangeMessageResponse_create ''q'' 0 bob alice [hello_block])"
    have "length (jv_text ?b) \<le> 800" by (intro base_text) (simp_all add: BlockRangeMessageResponse_create_def
      Message_def message_ext_defs)
    then have "length (jv_text (set_payload jt_lib ?b ''blocks'' (JArr [Block_toJson jt_lib hello_block]))) < BUFFER_SIZE"
      using payload_text [of ?b "''blocks''" "JArr [Block_toJson jt_lib hello_block]"] hello_text
      by (simp add: BUFFER_SIZE_def)
    then show "length (jv_text (range_answer alice_env quiet alice bob [hello_block])) < BUFFER_SIZE"
      by (simp add: range_answer_def BlockRangeMessageResponse_serialize_def quiet_def)
  qed
  have empty: "db_chain fresh_db = []" "n_newBlocks fresh_node = []"
    by (simp_all add: fresh_node_def)
  show ?thesis
    using synchronization_replicates [OF jt_laws jt_text_laws fresh_node_ok(1) hello_node_ok, of "[hello_block]"
        sha256_bytes tests_crypto "\<lambda>_ raw. Some (server_reply alice_env quiet ?ns raw)" bob alice_cfg
        "sort_key (\<lambda>m. unat (m_timestamp m))" quiet alice_cfg "\<lambda>_. (''r'', 0)" alice] req ans
    by (simp add: empty starts tip_hash_def) blast
qed

text \<open>
  For a hash that is on no block of the chain, the number of blocks after it is given as that of the
  whole chain, but every range after it is empty: a peer on another chain asks for batches in vain.
\<close>

theorem unknown_hash_ranges:
  assumes "chain_db_inv Q d" "length (db_chain d) < 2 ^ 32" "h \<noteq> ''0''" "c_str h \<notin> hash ` set (db_chain d)"
  shows "Service_countBlocksAfterHash (ChainDB Q) h d = Inr (word_of_nat (length (db_chain d))) \<and>
    Service_getBlocksByIndexRange (ChainDB Q) start k h d [] = Inr []"
proof -
  have "tail_after h (db_chain d) = None"
    using assms(3,4) by (simp add: tail_after_def index_where_None) (metis image_eqI)
  then show ?thesis
    using cdb.count [OF assms(1,2), of h] cdb.range [OF assms(1,2), of start k h "[]"]
    by (simp add: Service_countBlocksAfterHash_def Service_getBlocksByIndexRange_def)
qed

theorem unknown_hash_witness:
  "Service_countBlocksAfterHash (ChainDB lite) ''1'' hello_db = Inr 1 \<and>
   Service_getBlocksByIndexRange (ChainDB lite) 0 4 ''1'' hello_db [] = Inr []"
proof -
  have "length (hash hello_block) = 64"
    using hello_block(2) sha256_length [OF xor_digest] by (simp add: valid_block_def)
  then have "length ''1'' \<noteq> length (hash hello_block)" by simp
  then have "''1'' \<noteq> hash hello_block" by metis
  then show ?thesis
    using unknown_hash_ranges [OF hello_db(2), of "''1''" 0 4] by (simp add: c_str_def)
qed

section \<open>Peers\<close>

text \<open>
  C24. The batches of the peer list together give every known peer but the one who asks, once and in order.
\<close>

theorem peer_list_pages:
  assumes "length (peers ps) \<le> 2 ^ 32 - 12"
  shows "concat (map (\<lambda>s. peer_list_loop ps me (unat (s + PEERS_BATCH_SIZE)) (unat s))
      (batch_starts PEERS_BATCH_SIZE (getPeersCount ps))) = filter (\<lambda>p. p \<noteq> me) (peers ps)"
  using assms by (rule peer_pages)

theorem peer_list_pages_witness:
  "concat (map (\<lambda>s. peer_list_loop \<lparr>hosts = [], peers = [alice, bob]\<rparr> alice (unat (s + PEERS_BATCH_SIZE)) (unat s))
     (batch_starts PEERS_BATCH_SIZE (getPeersCount \<lparr>hosts = [], peers = [alice, bob]\<rparr>))) = [bob]"
  using peer_list_pages [of "\<lparr>hosts = [], peers = [alice, bob]\<rparr>" alice]
  by (simp add: alice_def bob_def UserPeer_def)

text \<open>
  A connecting peer is added once, and the answer tells it how many peers there are then and how
  many blocks follow the last one it has.
\<close>

theorem connection_answered:
  assumes "db_node_ok Q n" "length (db_chain (n_store n)) < 2 ^ 32" "cfg PUBLIC_KEY = Some k"
    and "tail_after (lastBlockHash m) (db_chain (n_store n)) = Some l"
    and "json_dump J (ConnectionMessageResponse_serialize J (ConnectionMessageResponse_create uuid now
      (UserPeer (host (m_to m)) (port (m_to m)) k) (m_from m)
      (getPeersCount (addPeer (m_from m) (n_peers n))) (word_of_nat (length l)))) = Inr raw"
  shows "\<exists>n'. handleIncomingConnectionMessage (node_env J SHA256 C cfg srt Q) uuid now m n = (Inr raw, n') \<and>
    db_node_ok Q n' \<and> n_store n' = n_store n \<and>
    set (peers (n_peers n')) = insert (m_from m) (set (peers (n_peers n))) \<and> distinct (peers (n_peers n'))"
proof -
  have inv: "chain_db_inv Q (n_store n)" "peers_inv (n_peers n)"
    using assms(1) by (simp_all add: db_node_ok_def node_ok_def)
  have "handleIncomingConnectionMessage (node_env J SHA256 C cfg srt Q) uuid now m n =
      (Inr raw, n\<lparr>n_peers := addPeer (m_from m) (n_peers n)\<rparr>)"
    using assms(3,5) cdb.count [OF inv(1) assms(2), of "lastBlockHash m"]
    by (simp add: handleIncomingConnectionMessage_def act_simps me_at_def config_get_def
        Service_countBlocksAfterHash_def assms(4))
  moreover have "peers_inv (addPeer (m_from m) (n_peers n))" using inv(2) by (rule addPeer_inv)
  ultimately show ?thesis
    using assms(1) by (simp add: db_node_ok_def node_ok_def peers_inv_def)
qed

theorem connection_answered_witness:
  "\<exists>raw n'. handleIncomingConnectionMessage alice_env ''u'' 0 (ConnectionMessage_create ''i'' 0 bob alice ''0'')
      (fresh_node\<lparr>n_store := hello_db\<rparr>) = (Inr raw, n') \<and> set (peers (n_peers n')) = {bob}"
proof -
  have m: "lastBlockHash (ConnectionMessage_create ''i'' 0 bob alice ''0'') = ''0''"
    "m_from (ConnectionMessage_create ''i'' 0 bob alice ''0'') = bob"
    by (simp_all add: ConnectionMessage_create_def Message_def message_ext_defs)
  have p: "peers (n_peers fresh_node) = []" by (simp add: fresh_node_def)
  show ?thesis
    using connection_answered [OF hello_node_ok, of alice_cfg alice_key "ConnectionMessage_create ''i'' 0 bob alice ''0''"
        "[hello_block]" jt_lib "''u''" 0 _ sha256_bytes tests_crypto "sort_key (\<lambda>m. unat (m_timestamp m))"]
    by (simp add: m p tail_after_def alice_cfg_def) blast
qed

section \<open>Requests and sent texts\<close>

text \<open>
  Whatever text arrives, the node keeps the invariants, and its chain stays as it was or grows by one
  block: the one in the text, if the checks accept it and the repository stores it.
\<close>

theorem request_extends_chain:
  assumes "db_node_ok Q n" "clock_ok (db_timely Q) (rq_now q)"
    and "n' = snd (onMessage (node_env J SHA256 C cfg srt Q) q raw n)"
  shows "db_node_ok Q n' \<and> (db_chain (n_store n') = db_chain (n_store n) \<or>
    (\<exists>j b. json_parse J raw = Inr j \<and> Block_of_json J j = Inr b \<and>
       accepts SHA256 C (rq_now q) (db_chain (n_store n)) b \<and> insert_ok (db_chain (n_store n)) b \<and>
       db_chain (n_store n') = db_chain (n_store n) @ [c_block b]))"
  using nst.onMessage_chain [OF node_env_wired _ assms(2,3)] assms(1) by (simp add: db_node_ok_def)

theorem request_extends_chain_witness:
  "db_node_ok lite (snd (onMessage alice_env quiet ''?'' fresh_node))"
  using request_extends_chain [OF fresh_node_ok(1) lite_clock refl, of jt_lib sha256_bytes tests_crypto
      alice_cfg "sort_key (\<lambda>m. unat (m_timestamp m))" quiet "''?''"] by blast

text \<open>
  Sending a text extends the own chain by at most the block created for it, whatever the peers
  answer and wherever it fails.
\<close>

theorem sending_extends_chain:
  assumes "db_node_ok Q n" "\<forall>b. timestamp b = m_timestamp m \<longrightarrow> db_timely Q b"
    and "n' = snd (sendSecretMessage (node_env J SHA256 C cfg srt Q) net uuid ts m n)"
  shows "db_node_ok Q n' \<and> (db_chain (n_store n') = db_chain (n_store n) \<or>
    (\<exists>b. createBlockFromMessage SHA256 C (ChainDB Q) cfg m Block (n_store n) = Inr b \<and>
       insert_ok (db_chain (n_store n)) b \<and> db_chain (n_store n') = db_chain (n_store n) @ [c_block b]))"
  using nst.sendSecretMessage_chain [OF node_env_wired _ _ assms(3)] assms(1,2) by (simp add: db_node_ok_def)

theorem sending_extends_chain_witness:
  "db_node_ok lite (snd (sendSecretMessage alice_env (\<lambda>_ _. None) ''u'' 0 hello fresh_node))"
  using sending_extends_chain [OF fresh_node_ok(1) _ refl, of hello jt_lib sha256_bytes tests_crypto
      alice_cfg "sort_key (\<lambda>m. unat (m_timestamp m))" "\<lambda>_ _. None" "''u''" 0] by auto

text \<open>
  A text that arrives as its sender serialized it is opened, stored in the form it came in under the
  hash of its block, its sender becomes a contact, and the acknowledgement goes back.
\<close>

theorem text_received:
  assumes "icrypto C key_pair session_key" "json_laws J" "json_text_laws J" "db_node_ok Q n"
    and "text_keys C key_pair privA (publicKey (m_from m))" "text_keys C key_pair privB (publicKey (m_to m))"
    and "m_type m = TEXT_MESSAGE" "TextMessage_serialize J C m privA = Inr j" "json_dump J j = Inr raw"
    and "cfg PRIVATE_KEY = Some privB" "cfg PUBLIC_KEY = Some k"
    and "json_dump J (TextMessageResponse_serialize J (TextMessageResponse_create (rq_uuid q) (rq_ts q)
      (UserPeer (host (m_to m)) (port (m_to m)) k) (m_from m))) = Inr ack"
    and "timestampToString (rq_clk q) (m_timestamp m) = Inr ft"
  shows "\<exists>n'. onMessage (node_env J SHA256 C cfg srt Q) q raw n = (Inr (Some ack), n') \<and> db_node_ok Q n' \<and>
    db_chain (n_store n') = db_chain (n_store n) \<and>
    db_messages (n_store n') = (if c_str (m_id m) \<in> st_id ` set (db_messages (n_store n))
      then db_messages (n_store n) else db_messages (n_store n) @ [stored m raw (m_blockHash m)]) \<and>
    c_str (publicKey (m_from m)) \<in> publicKey ` set (db_peers (n_store n'))"
  using text_stored [OF assms(1-12), of SHA256 srt] unfolding assms(13) sum.case by (elim exE conjE) (intro exI conjI)

theorem text_received_witness:
  "\<exists>j ack n'. TextMessage_serialize jt_lib tests_crypto hello alice_key = Inr j \<and>
     onMessage (node_env jt_lib sha256_bytes tests_crypto [PRIVATE_KEY \<mapsto> bob_key, PUBLIC_KEY \<mapsto> bob_key] id lite)
       quiet (jv_text j) fresh_node = (Inr (Some ack), n') \<and> st_id ` set (db_messages (n_store n')) = {''6f1c''}"
proof -
  have keys: "text_keys tests_crypto xor_key_pair alice_key (publicKey (m_from hello))"
    "text_keys tests_crypto xor_key_pair bob_key (publicKey (m_to hello))" "m_type hello = TEXT_MESSAGE" by simp_all
  obtain j where j: "TextMessage_serialize jt_lib tests_crypto hello alice_key = Inr j"
    using icrypto.text_roundtrip [OF tests_crypto_meets jt_laws keys] by blast
  have h: "m_id hello = ''6f1c''" "m_timestamp hello = 1700000000000"
    by (simp_all add: hello_def TextMessage_create_def TextMessage_def Message_def secret_message.defs
        text_message.defs message_ext_defs)
  obtain ft where "timestampToString (rq_clk quiet) (m_timestamp hello) = Inr ft" using hello_clock unfolding quiet_fields h by blast
  from text_received [OF tests_crypto_meets jt_laws jt_text_laws fresh_node_ok(1) keys j jt_dump _ _ jt_dump this, of
        "[PRIVATE_KEY \<mapsto> bob_key, PUBLIC_KEY \<mapsto> bob_key]" bob_key sha256_bytes id] j h(1)
  show ?thesis by (auto simp: stored_def c_str_def)
qed


definition two_nodes :: peers_env where
  "two_nodes = \<lparr> pe_cfg = \<lambda>_. bob_cfg, pe_req = \<lambda>_. quiet\<lparr>rq_now := 1700000000000\<rparr>, pe_node = \<lambda>_. fresh_node \<rparr>"



definition alice_and_bob :: peers_env where
  "alice_and_bob = \<lparr> pe_cfg = (\<lambda>p. if p = alice then alice_cfg else bob_cfg), pe_req = (\<lambda>_. quiet),
     pe_node = (\<lambda>p. fresh_node\<lparr>n_peers := \<lparr>hosts = [], peers = [if p = alice then bob else alice]\<rparr>\<rparr>) \<rparr>"

definition hello_round :: round where
  "hello_round = \<lparr> rd_msg = hello, rd_req = (\<lambda>_. quiet\<lparr>rq_now := 1700000000000\<rparr>), rd_uuid = ''u'', rd_ts = 0 \<rparr>"


text \<open>
  C30. The loops of the start over the batches end for every count up to 2^32 - 12, after one request per
  batch; for a count in the last three values a peer may report they never end.
\<close>

theorem batch_loops:
  assumes "step \<in> {PEERS_BATCH_SIZE, BLOCKS_BATCH_SIZE}"
  shows "(unat limit \<le> 2 ^ 32 - 12 \<longrightarrow> batch_loop step limit f 0 n = Some (each f (batch_starts step limit) n)) \<and>
    (2 ^ 32 - 4 < unat limit \<longrightarrow> (\<forall>start n. \<exists>n'. f start n = (Inr (), n')) \<longrightarrow> batch_loop step limit f 0 n = None)"
proof (intro conjI impI)
  have s: "0 < unat step" "unat step \<le> 12" "4 dvd unat step"
    using assms by (auto simp: PEERS_BATCH_SIZE_def BLOCKS_BATCH_SIZE_def)
  show "batch_loop step limit f 0 n = Some (each f (batch_starts step limit) n)"
    if "unat limit \<le> 2 ^ 32 - 12" using s that by (intro batch_loop_terminates) simp_all
  show "batch_loop step limit f 0 n = None"
    if "2 ^ 32 - 4 < unat limit" "\<forall>start n. \<exists>n'. f start n = (Inr (), n')"
    using s that by (intro batch_loop_diverges_aux) simp_all
qed

theorem batch_loops_witness:
  "batch_loop BLOCKS_BATCH_SIZE 5 (\<lambda>_. ret ()) 0 fresh_node = Some (Inr (), fresh_node) \<and>
   batch_loop BLOCKS_BATCH_SIZE 4294967295 (\<lambda>_. ret ()) 0 fresh_node = None"
proof
  have s: "BLOCKS_BATCH_SIZE \<in> {PEERS_BATCH_SIZE, BLOCKS_BATCH_SIZE}" by simp
  have "batch_starts BLOCKS_BATCH_SIZE 5 = [0, 4]"
    by (simp add: batch_starts_def BLOCKS_BATCH_SIZE_def upt_rec)
  then show "batch_loop BLOCKS_BATCH_SIZE 5 (\<lambda>_. ret ()) 0 fresh_node = Some (Inr (), fresh_node)"
    using batch_loops [OF s, of 5 "\<lambda>_. ret ()" fresh_node] by (simp add: ret_def seq_def)
  have "2 ^ 32 - 4 < unat (4294967295 :: u32)" by simp
  then show "batch_loop BLOCKS_BATCH_SIZE 4294967295 (\<lambda>_. ret ()) 0 fresh_node = None"
    using batch_loops [OF s, of 4294967295 "\<lambda>_. ret ()" fresh_node] by (simp only: ret_def) blast
qed

text \<open>
  A contact is stored once however often it is added, and the key found for an address stays the one
  stored first: a peer that comes back under a new key is not found by its address.
\<close>

theorem oldest_contact_key:
  assumes "peer_db_inv Q d" "PeerDB_addPeer Q p d = Inr d1" "PeerDB_addPeer Q p d1 = Inr d2"
    and "PeerDB_findPublicKeyByUserHost Q h '''' d = Inr (True, k)"
  shows "db_peers d2 = db_peers d1 \<and> PeerDB_findPublicKeyByUserHost Q h '''' d1 = Inr (True, k)"
  using pdb.add_idem [OF assms(1), of p d1] pdb.oldest_key_wins [OF assms(1), of h k p d1] assms(2-4)
  by (auto simp: PeerDB_def)

theorem oldest_contact_witness:
  "\<exists>d d1. PeerDB_addPeer lite alice fresh_db = Inr d \<and> PeerDB_addPeer lite (alice\<lparr>publicKey := bob_key\<rparr>) d = Inr d1 \<and>
     PeerDB_findPublicKeyByUserHost lite \<lparr>host = host alice, port = port alice\<rparr> '''' d1 = Inr (True, alice_key)"
proof -
  have f: "peer_db_inv lite fresh_db" "db_peers fresh_db = []"
    using fresh_node_ok by (simp_all add: db_node_ok_def node_ok_def) (simp add: fresh_db_def db_peers_def
        peer_rows_def empty_table_def)
  obtain d where d: "PeerDB_addPeer lite alice fresh_db = Inr d" "peer_db_inv lite d" "db_peers d = [c_peer alice]"
    using pdb.add [OF f(1), of alice] by (auto simp: f(2) PeerDB_def)
  let ?p = "alice\<lparr>publicKey := bob_key\<rparr>"
  obtain d1 where d1: "PeerDB_addPeer lite ?p d = Inr d1" "peer_db_inv lite d1"
    using pdb.add [OF d(2), of ?p] by (auto simp: PeerDB_def)
  obtain d2 where d2: "PeerDB_addPeer lite ?p d1 = Inr d2"
    using pdb.add [OF d1(2), of ?p] by (auto simp: PeerDB_def)
  have "PeerDB_findPublicKeyByUserHost lite \<lparr>host = host alice, port = port alice\<rparr> '''' d = Inr (True, alice_key)"
    using pdb.find_key [OF d(2), of "\<lparr>host = host alice, port = port alice\<rparr>" "''''"]
    by (simp add: d(3) PeerDB_def c_peer_def) (simp add: UserPeer_def alice_key_def toHex_def hex_byte_def)
  from oldest_contact_key [OF d(2) d1(1) d2 this] d(1) d1(1) show ?thesis by blast
qed

section \<open>The console\<close>

text \<open>
  C35. Whatever keys are pressed, no position is out of range, so no turn throws; the cursor stays in the
  line, the history has at most 100 lines, none empty and none twice in a row, and no empty line is
  handed over.
\<close>

theorem console_safe:
  assumes "console_inv u"
  shows "\<exists>ls u'. input_loop stops ks (startInputLoop u) = Inr (ls, u') \<and> console_inv u' \<and> '''' \<notin> set ls"
  using input_loop_inv [OF startInputLoop_inv [OF assms]] by blast

theorem console_safe_witness:
  "\<exists>ls u'. input_loop (\<lambda>_. False) [Extended 75, Code 97, Extended 83, Code 13] (startInputLoop ConsoleUI) = Inr (ls, u')"
  using console_safe [OF ConsoleUI_inv] by blast

text \<open>
  C36. Each key but Enter and the two history keys does to the text before and after the cursor just what
  an editor with these two texts does.
\<close>

theorem console_edits:
  assumes "console_inv u" "edit_key k"
  shows "\<exists>u'. input_turn stops k u = Inr (None, u') \<and> before_after u' = edit k (before_after u)"
  using assms by (rule edit_refines)

theorem console_edits_witness:
  "\<exists>u'. input_turn (\<lambda>_. False) (Code 97) ConsoleUI = Inr (None, u') \<and> before_after u' = (''a'', '''')"
proof -
  have "char_of (97 :: nat) = CHR ''a''" by (simp add: char_of_eq_iff take_bit_eq_mod)
  then show ?thesis
    using console_edits [OF ConsoleUI_inv, of "Code 97" "\<lambda>_. False"]
    by (simp add: edit_key_def before_after_def [of ConsoleUI]) (simp add: ConsoleUI_def)
qed

text \<open>
  A line that is typed and ended with Enter is handed over as typed; the Up key then brings it back.
\<close>

theorem typed_line_recalled:
  assumes "printable t" "t \<noteq> ''''" "\<not> stops t"
  shows "\<exists>u1 u2. input_loop stops (map (\<lambda>c. Code (of_char c)) t @ [Code 13]) (startInputLoop u) = Inr ([t], u1) \<and>
    input_turn stops (Extended 72) u1 = Inr (None, u2) \<and> con_input u2 = t \<and> cursorPosition u2 = length t"
proof -
  have "running (startInputLoop u)" "cursorPosition (startInputLoop u) = length (con_input (startInputLoop u))"
    by (simp_all add: startInputLoop_def)
  from type_line [OF assms(1) this, of stops "[Code 13]"] obtain v where v:
    "input_loop stops (map (\<lambda>c. Code (of_char c)) t @ [Code 13]) (startInputLoop u) = input_loop stops [Code 13] v"
    "con_input v = t" "running v" by (auto simp: startInputLoop_def)
  from submit_line [of v stops] assms(2) v(2) obtain u1 where u1:
    "input_turn stops (Code 13) v = Inr (Some t, u1)" "commandHistory u1 \<noteq> []" "last (commandHistory u1) = t"
    "historyIndex u1 = length (commandHistory u1)" by auto
  from recall_last [OF u1(2,4), of stops] u1(3) obtain u2 where
    "input_turn stops (Extended 72) u1 = Inr (None, u2)" "con_input u2 = t" "cursorPosition u2 = length t" by auto
  with v u1(1) show ?thesis by auto
qed

theorem typed_line_witness:
  "\<exists>u1 u2. input_loop (\<lambda>_. False) (map (\<lambda>c. Code (of_char c)) ''/help'' @ [Code 13]) (startInputLoop ConsoleUI) =
     Inr ([''/help''], u1) \<and> input_turn (\<lambda>_. False) (Extended 72) u1 = Inr (None, u2) \<and> con_input u2 = ''/help''"
proof -
  have t: "printable ''/help''" "''/help'' \<noteq> ''''" "\<not> (\<lambda>_. False) ''/help''" by simp_all
  from typed_line_recalled [OF t, of ConsoleUI] show ?thesis by blast
qed

end
