(* ===== verification/DC_Steps.thy ===== *)
theory DC_Steps
  imports DC_Reach DC_App DC_Fixtures
begin

text \<open>
  Everything a running node does is a sequence of the steps of \<open>node_step\<close>: the loops of
  \<open>TCPClient\<close>, \<open>sendSecretMessage\<close>, the commands of the user and the synchronization of
  \<open>ChatApplication::init\<close> (src/app/ChatApplication.cpp). So what holds of every reachable state holds
  between and after any of them, whatever the server does meanwhile.
\<close>

definition runs :: "('n \<Rightarrow> 'n \<Rightarrow> bool) \<Rightarrow> ('n, 'a) act \<Rightarrow> bool" where
  "runs S a \<longleftrightarrow> (\<forall>n. S\<^sup>*\<^sup>* n (snd (a n)))"

lemma runs_ret [intro!]: "runs S (ret x)"
  and runs_lift [intro!]: "runs S (lift r)"
  and runs_query [intro!]: "runs S (query f)"
  by (simp_all add: runs_def act_simps)

lemma runs_step: "(\<And>n. S n (snd (a n))) \<Longrightarrow> runs S a"
  by (auto simp: runs_def)

lemma runs_seq [intro]:
  assumes "runs S a" "\<And>x. runs S (f x)"
  shows "runs S (seq a f)"
  unfolding runs_def
proof
  fix n
  have "S\<^sup>*\<^sup>* n (snd (a n))" using assms(1) by (simp add: runs_def)
  then show "S\<^sup>*\<^sup>* n (snd (seq a f n))"
    using assms(2)
    by (auto simp: runs_def seq_def split: prod.split sum.split intro: rtranclp_trans)
qed

lemma runs_seq_query: "(\<And>n x. g n = Inr x \<Longrightarrow> runs S (f x)) \<Longrightarrow> runs S (seq (query g) f)"
  by (auto simp: runs_def seq_def query_def split: sum.split)

lemma runs_handle [intro]:
  assumes "runs S a" "\<And>e. runs S (h e)"
  shows "runs S (handle a h)"
  unfolding runs_def
proof
  fix n
  have "S\<^sup>*\<^sup>* n (snd (a n))" using assms(1) by (simp add: runs_def)
  then show "S\<^sup>*\<^sup>* n (snd (handle a h n))"
    using assms(2)
    by (auto simp: runs_def handle_def split: prod.split sum.split intro: rtranclp_trans)
qed

lemma runs_each [intro]: "(\<And>x. x \<in> set xs \<Longrightarrow> runs S (f x)) \<Longrightarrow> runs S (each f xs)"
  by (induction xs) auto

lemma runs_if [intro]: "(b \<Longrightarrow> runs S x) \<Longrightarrow> (\<not> b \<Longrightarrow> runs S y) \<Longrightarrow> runs S (if b then x else y)"
  by simp

subsection \<open>The client\<close>

lemma runs_sendMessage: "runs (node_step E timely) (TCPClient_sendMessage E net to j)"
  unfolding TCPClient_sendMessage_def
  by (intro runs_seq runs_if runs_lift)
    (auto split: option.split intro!: runs_step intro: node_step.reply)

lemma runs_connect:
  "runs (node_step E timely) (TCPClient_connect E net fresh h tos)"
  "runs (node_step E timely) (TCPClient E net fresh h)"
  "runs (node_step E timely) (connectToAllPeers E net fresh)"
  "runs (node_step E timely) (TCPClient_disconnect E net fresh)"
  unfolding TCPClient_def connectToAllPeers_def TCPClient_disconnect_def TCPClient_connect_def
  by (intro runs_seq runs_each runs_lift runs_query runs_sendMessage)+

lemma runs_after_delivery:
  assumes "timely b"
  shows "runs (node_step E timely) (after_delivery E net uuid ts b m raw response)"
  unfolding after_delivery_def
  by (intro runs_seq runs_if runs_ret) (rule runs_step, (rule node_step.intros, (rule assms)?))+

lemma created_time:
  "createBlockFromMessage S C R cfg m b0 s = Inr b \<Longrightarrow> timestamp b = m_timestamp m"
  by (auto simp: createBlockFromMessage_def Let_def)

lemma runs_sendSecretMessage:
  assumes "\<And>b. timestamp b = m_timestamp m \<Longrightarrow> timely b"
  shows "runs (node_step E timely) (sendSecretMessage E net uuid ts m)"
  unfolding sendSecretMessage_def Let_def
  by (intro runs_seq_query runs_seq runs_lift runs_if)
    (auto split: option.split intro!: runs_after_delivery assms dest: created_time)

subsection \<open>The commands\<close>

text \<open>The clock the texts are dated with is not too far ahead for the database.\<close>

definition fresh_ok :: "(block \<Rightarrow> bool) \<Rightarrow> fresh \<Rightarrow> bool" where
  "fresh_ok timely fresh \<longleftrightarrow> (\<forall>p b. timestamp b = snd (fst (fresh p)) \<longrightarrow> timely b)"

lemma runs_send_text:
  assumes "fresh_ok timely fresh"
  shows "runs (node_step E timely) (send_text E net fresh me message p)"
proof -
  obtain i t i' t' where f: "fresh p = ((i, t), (i', t'))" by (metis prod.collapse)
  then have t: "timely b" if "timestamp b = t" for b
    using assms that by (auto simp: fresh_ok_def dest: spec [of _ p])
  show ?thesis
    unfolding send_text_def Let_def f
    by (auto intro!: runs_seq runs_sendSecretMessage t simp: TextMessage_create_def TextMessage_def
        Message_def text_message.defs secret_message.defs message_ext_defs)
qed

lemma runs_handleSendCommand:
  assumes "fresh_ok timely fresh"
  shows "runs (node_step E timely) (handleSendCommand E net fresh me args)"
  unfolding handleSendCommand_def send_all_def
  by (intro runs_handle runs_seq runs_lift runs_ret)
    (auto split: send_command.split intro!: runs_seq runs_each runs_handle runs_send_text [OF assms] runs_if)

lemma runs_command:
  assumes "fresh_ok timely fresh" "parse_command inp \<noteq> Cmd_Exit"
  shows "runs (node_step E timely) (run_command E net fresh clk me inp)"
  unfolding run_command_def
  using assms(2) runs_handleSendCommand [OF assms(1)]
  by (auto split: command.split simp: handlePeersCommand_def handleChatsCommand_def handleChatCommand_def Let_def)

subsection \<open>Synchronizing\<close>

definition runs_part :: "('n \<Rightarrow> 'n \<Rightarrow> bool) \<Rightarrow> ('n \<Rightarrow> ('a res \<times> 'n) option) \<Rightarrow> bool" where
  "runs_part S f \<longleftrightarrow> (\<forall>n r n'. f n = Some (r, n') \<longrightarrow> S\<^sup>*\<^sup>* n n')"

lemma runs_part_returns [intro]: "runs S a \<Longrightarrow> runs_part S (returns a)"
  by (auto simp: runs_part_def runs_def returns_def) (metis snd_conv)

lemma runs_part_then [intro]:
  assumes "runs_part S a" "\<And>x. runs_part S (f x)"
  shows "runs_part S (then_loop a f)"
  unfolding runs_part_def
proof (intro allI impI)
  fix n r n'
  assume "then_loop a f n = Some (r, n')"
  then show "S\<^sup>*\<^sup>* n n'"
    using assms
    by (fastforce simp: then_loop_def runs_part_def split: option.splits prod.splits sum.splits intro: rtranclp_trans)
qed

text \<open>The loop may not return; if it does, it made one run of its body after the other.\<close>

lemma runs_batch_loop:
  fixes f :: "u32 \<Rightarrow> ('n, unit) act"
  assumes "\<And>start. runs S (f start)"
  shows "runs_part S (batch_loop step limit f start)"
  unfolding runs_part_def
proof (intro allI impI)
  fix n r n'
  assume l: "batch_loop step limit f start n = Some (r, n')"
  have "(\<forall>start. runs S (f start)) \<longrightarrow> S\<^sup>*\<^sup>* n (snd (r, n'))"
  proof (rule batch_loop.raw_induct [OF _ l], intro impI)
    fix g step limit start y n and f :: "u32 \<Rightarrow> ('n, unit) act"
    assume ih: "\<And>step limit f start n y. g step limit f start n = Some y \<Longrightarrow>
        (\<forall>start. runs S (f start)) \<longrightarrow> S\<^sup>*\<^sup>* n (snd y)"
      and eq: "(if start < limit
        then case f start n of (Inl e, n') \<Rightarrow> Some (Inl e, n')
             | (Inr _, n') \<Rightarrow> g step limit f (start + step) n'
        else Some (Inr (), n)) = Some y"
      and f: "\<forall>start. runs S (f start)"
    obtain r m where m: "f start n = (r, m)" by (cases "f start n")
    then have "S\<^sup>*\<^sup>* n m" using f by (metis runs_def snd_conv)
    show "S\<^sup>*\<^sup>* n (snd y)"
    proof (cases "start < limit")
      case True
      show ?thesis
      proof (cases r)
        case (Inl e)
        then show ?thesis using eq m True \<open>S\<^sup>*\<^sup>* n m\<close> by auto
      next
        case (Inr u)
        then have "S\<^sup>*\<^sup>* m (snd y)" using eq m True ih f by simp
        with \<open>S\<^sup>*\<^sup>* n m\<close> show ?thesis by (rule rtranclp_trans)
      qed
    qed (use eq in auto)
  qed
  then show "S\<^sup>*\<^sup>* n n'" using assms by simp
qed

lemma runs_receive_batches: "runs_part (node_step E timely) (receive_batches E net freshP freshB from lastHash)"
proof -
  have r: "runs (node_step E timely) (request_peers E net freshP from to start)"
    "runs (node_step E timely) (request_blocks E net freshB from to lastHash start)" for to start
    by (simp_all add: request_peers_def request_blocks_def runs_sendMessage)
  have "runs_part (node_step E timely) (\<lambda>n. batch_loop BLOCKS_BATCH_SIZE (gs_missingBlocksCount (n_global n))
      (request_blocks E net freshB from to lastHash) 0 n)" for to
    using runs_batch_loop [OF r(2)] by (auto simp: runs_part_def)
  then have "runs_part (node_step E timely) (then_loop (returns (query (\<lambda>n. getPeer 0 (n_peers n)))) (\<lambda>to.
      then_loop (batch_loop PEERS_BATCH_SIZE limit (request_peers E net freshP from to) 0) (\<lambda>_ n.
        batch_loop BLOCKS_BATCH_SIZE (gs_missingBlocksCount (n_global n))
          (request_blocks E net freshB from to lastHash) 0 n)))" for limit
    by (intro runs_part_then runs_part_returns runs_query runs_batch_loop r)
  then show ?thesis by (auto simp: runs_part_def receive_batches_def)
qed

text \<open>The list of received blocks only grows, so what is inserted is among the blocks it holds at the end.\<close>

lemma keeps_newBlocks:
  "keeps (\<lambda>n. X \<subseteq> set (n_newBlocks n)) (handleOutgoingMessage E response)"
  "keeps (\<lambda>n. X \<subseteq> set (n_newBlocks n)) (connectToAllPeers E net fresh)"
  "keeps (\<lambda>n. X \<subseteq> set (n_newBlocks n)) (accept_blocks E)"
proof -
  show o: "keeps (\<lambda>n. X \<subseteq> set (n_newBlocks n)) (handleOutgoingMessage E response)" for response
    unfolding handleOutgoingMessage_def dispatch_outgoing_def chat_handlers Let_def
    by (intro keeps_handle keeps_seq keeps_if keeps_ret keeps_lift keeps_query keeps_each
        keeps_update keeps_on_store) (auto simp: addNewBlockRange_def)
  have "keeps (\<lambda>n. X \<subseteq> set (n_newBlocks n)) (TCPClient_sendMessage E net to j)" for to j
    unfolding TCPClient_sendMessage_def
    by (intro keeps_seq keeps_if keeps_lift) (auto split: option.split intro: o)
  then show "keeps (\<lambda>n. X \<subseteq> set (n_newBlocks n)) (connectToAllPeers E net fresh)"
    unfolding connectToAllPeers_def TCPClient_connect_def by (intro keeps_seq keeps_each keeps_lift keeps_query)
  show "keeps (\<lambda>n. X \<subseteq> set (n_newBlocks n)) (accept_blocks E)"
    unfolding accept_blocks_def store_blocks_def
    by (auto intro!: keeps_seq keeps_each keeps_if keeps_on_store split: prod.split)
qed

lemma accept_blocks_steps:
  assumes "\<forall>b \<in> set (n_newBlocks n). timely b"
  shows "(node_step E timely)\<^sup>*\<^sup>* n (snd (accept_blocks E n))"
proof -
  have "runs (node_step E timely) (store_blocks E (n_newBlocks n))"
    unfolding store_blocks_def
    by (intro runs_each runs_seq runs_ret) (rule runs_step, rule node_step.store, use assms in blast)
  then show ?thesis
    by (auto simp: accept_blocks_def seq_def query_def runs_def getNewBlocks_def ret_def split: sum.split prod.split)
qed

lemma synchronize_steps:
  assumes s: "synchronize E net fresh freshP freshB from lastHash n = Some (r, n')"
    and t: "\<forall>b \<in> set (n_newBlocks n'). timely b"
  shows "(node_step E timely)\<^sup>*\<^sup>* n n'"
proof -
  let ?S = "node_step E timely"
  let ?a = "seq (TCPClient E net fresh lastHash) (\<lambda>_.
       seq (query (\<lambda>n. validateLocalChain (e_sha E) (e_crypto E) (e_chain E) (n_store n))) (\<lambda>_.
       query (\<lambda>n. findTipIndex (e_chain E) 0 (n_store n))))"
  have a: "runs_part ?S (then_loop (returns ?a) (\<lambda>_. receive_batches E net freshP freshB from lastHash))"
    by (intro runs_part_then runs_part_returns runs_seq runs_query runs_connect runs_receive_batches)
  let ?pre = "then_loop (returns ?a) (\<lambda>_. receive_batches E net freshP freshB from lastHash) n"
  have split: "synchronize E net fresh freshP freshB from lastHash n =
      (case ?pre of None \<Rightarrow> None | Some (Inl e, m) \<Rightarrow> Some (Inl e, m)
       | Some (Inr x, m) \<Rightarrow> then_loop (returns (accept_blocks E)) (\<lambda>_. returns (connectToAllPeers E net fresh)) m)"
    by (simp add: synchronize_def then_loop_def split: option.split sum.split prod.split)
  show ?thesis
  proof (cases ?pre)
    case None
    then show ?thesis using s split by simp
  next
    case (Some p)
    obtain x m where p: "p = (x, m)" by (cases p)
    then have m: "?S\<^sup>*\<^sup>* n m" using a Some by (auto simp: runs_part_def)
    show ?thesis
    proof (cases x)
      case (Inl e)
      then show ?thesis using s split Some p m by simp
    next
      case (Inr u)
      obtain y k where k: "accept_blocks E m = (y, k)" by (cases "accept_blocks E m")
      then have n': "n' = k \<or> n' = snd (connectToAllPeers E net fresh k)"
        using s split Some p Inr by (auto simp: then_loop_def returns_def split: sum.splits)
      have sub: "set (n_newBlocks m) \<subseteq> set (n_newBlocks k)"
        using keeps_newBlocks(3) [of "set (n_newBlocks m)" E] k unfolding keeps_def
        by (metis order_refl snd_conv)
      moreover have "set (n_newBlocks k) \<subseteq> set (n_newBlocks n')"
        using keeps_newBlocks(2) [of "set (n_newBlocks k)" E net fresh] n' by (auto simp: keeps_def dest: spec [of _ k])
      ultimately have "?S\<^sup>*\<^sup>* m k" using accept_blocks_steps [of m timely E] t k by auto
      moreover have "?S\<^sup>*\<^sup>* k n'" using n' runs_connect(3) [of E timely net fresh] by (auto simp: runs_def)
      ultimately show ?thesis using m by (meson rtranclp_trans)
    qed
  qed
qed

subsection \<open>The input loop\<close>

text \<open>
  The lines the console hands to \<open>run\<close>, one command after the other; \<open>fresh i\<close> serves the \<open>i\<close>th. An
  exception no command handles ends the program.
\<close>

fun run_session ::
  "(db, 'j) env \<Rightarrow> net \<Rightarrow> (nat \<Rightarrow> fresh) \<Rightarrow> local_clock \<Rightarrow> user_peer \<Rightarrow> nat \<Rightarrow> string list \<Rightarrow>
   (db node, string list) act" where
  "run_session E net fresh clk me i [] = ret []"
| "run_session E net fresh clk me i (l # ls) =
     seq (run_command E net (fresh i) clk me l) (\<lambda>out.
     seq (run_session E net fresh clk me (Suc i) ls) (\<lambda>outs. ret (out # outs)))"

text \<open>
  \<open>run\<close>: the server is started, then the lines typed are served. The result is that of the input thread;
  the main thread waits on the flag \<open>running\<close>.
\<close>

definition application_run ::
  "(db, 'j) env \<Rightarrow> net \<Rightarrow> (nat \<Rightarrow> fresh) \<Rightarrow> local_clock \<Rightarrow> user_peer \<Rightarrow> socket_server \<Rightarrow> string list \<Rightarrow>
   (db node, string list) act" where
  "application_run E net fresh clk me server ls =
     seq (lift (TCPServer_start server)) (\<lambda>_. run_session E net fresh clk me 0 ls)"

text \<open>
  The flag: the main thread sets it after it has started the input loop, \<open>shutdown\<close> clears it. If the
  user exits before the main thread gets there, its store overwrites the other and its loop never ends.
\<close>

datatype flag_event = Run_Stores | Shutdown_Stores

definition flag_store :: "flag_event \<Rightarrow> bool \<Rightarrow> bool" where
  "flag_store e flag = (case e of Run_Stores \<Rightarrow> True | Shutdown_Stores \<Rightarrow> False)"

lemma exit_lost: "fold flag_store [Shutdown_Stores, Run_Stores] False \<and> \<not> fold flag_store [Run_Stores, Shutdown_Stores] False"
  by (simp add: flag_store_def)

text \<open>
  \<open>main\<close>: the start may throw, and then the program ends; the synchronization may not return; what it
  throws ends the program too.
\<close>

definition main_program ::
  "'j json_lib \<Rightarrow> (bytes \<Rightarrow> bytes) \<Rightarrow> ICrypto \<Rightarrow> (text_message list \<Rightarrow> text_message list) \<Rightarrow> sqlite \<Rightarrow>
   start_env \<Rightarrow> net \<Rightarrow> (user_peer \<Rightarrow> string \<times> u64) \<Rightarrow> (u32 \<Rightarrow> string \<times> u64) \<Rightarrow> (u32 \<Rightarrow> string \<times> u64) \<Rightarrow>
   (nat \<Rightarrow> fresh) \<Rightarrow> local_clock \<Rightarrow> string list \<Rightarrow> db \<Rightarrow> (string list res \<times> db node) option res" where
  "main_program J S C srt Q st net f fp fb fresh clk ls d =
     bnd (init_services J S C srt Q st d) (\<lambda>(E, n, from, tip, server).
       Inr (then_loop (synchronize E net f fp fb from (hash tip))
         (\<lambda>_. returns (application_run E net fresh clk from server ls)) n))"

lemma parse_exit [simp]: "parse_command l = Cmd_Exit \<longleftrightarrow> l = ''/exit''"
  by (simp add: parse_command_def)

lemma runs_session:
  assumes "\<And>i. fresh_ok timely (fresh i)"
  shows "''/exit'' \<notin> set ls \<Longrightarrow> runs (node_step E timely) (run_session E net fresh clk me i ls)"
  by (induction ls arbitrary: i) (auto intro!: runs_seq runs_command assms)

text \<open>The editor stops with the line that makes the handler stop it.\<close>

lemma input_turn_running:
  assumes "input_turn stops k u = Inr (line, u')" "running u"
  shows "running u' \<longleftrightarrow> \<not> (\<exists>l. line = Some l \<and> stops l)"
proof -
  have key: "handleKeyPress ch u = Inr v \<Longrightarrow> running v = running u" for ch v
    by (auto simp: handleKeyPress_def split: if_splits)
  have "running (navigateHistoryUp u) = running u" "running (navigateHistoryDown u) = running u"
    by (simp_all add: navigateHistoryUp_def navigateHistoryDown_def recall_def Let_def)
  then have ext: "handleExtendedKey ch u = Inr v \<Longrightarrow> running v = running u" for ch v
    by (auto simp: handleExtendedKey_def split: if_splits)
  show ?thesis
  proof (cases k)
    case (Code ch)
    show ?thesis
    proof (cases "ch = 13 \<or> ch = 10")
      case True
      then show ?thesis using assms Code by (cases "con_input u = ''''") (auto simp: input_turn_def Let_def)
    next
      case False
      then show ?thesis using assms Code key by (auto simp: input_turn_def)
    qed
  next
    case (Extended ch)
    then show ?thesis using assms ext by (auto simp: input_turn_def)
  qed (use assms in \<open>simp add: input_turn_def\<close>)
qed

lemma input_loop_stops:
  "input_loop stops ks u = Inr (ls, u') \<Longrightarrow> running u \<Longrightarrow>
   (if running u' then \<forall>l \<in> set ls. \<not> stops l
    else \<exists>l ls'. ls = ls' @ [l] \<and> stops l \<and> (\<forall>l \<in> set ls'. \<not> stops l))"
proof (induction ks arbitrary: u ls)
  case (Cons k ks)
  obtain line v ls1 where 1: "input_turn stops k u = Inr (line, v)" "input_loop stops ks v = Inr (ls1, u')"
    "ls = (case line of None \<Rightarrow> ls1 | Some l \<Rightarrow> l # ls1)"
    using Cons.prems by (auto split: prod.splits)
  note r = input_turn_running [OF 1(1) Cons.prems(2)]
  show ?case
  proof (cases "running v")
    case True
    then have line: "\<not> (\<exists>l. line = Some l \<and> stops l)" using r by simp
    show ?thesis
    proof (cases line)
      case None
      then show ?thesis using Cons.IH [OF 1(2) True] 1(3) by simp
    next
      case (Some l)
      then have l: "\<not> stops l" "ls = l # ls1" using line 1(3) by simp_all
      show ?thesis
      proof (cases "running u'")
        case True
        then show ?thesis using Cons.IH [OF 1(2) \<open>running v\<close>] l by simp
      next
        case False
        then obtain x ls' where "ls1 = ls' @ [x]" "stops x" "\<forall>l \<in> set ls'. \<not> stops l"
          using Cons.IH [OF 1(2) \<open>running v\<close>] by auto
        then have "ls = (l # ls') @ [x]" "stops x" "\<forall>l \<in> set (l # ls'). \<not> stops l" using l by simp_all
        then show ?thesis using False by metis
      qed
    qed
  next
    case False
    then have "ls1 = []" "u' = v" using 1(2) by (cases ks; simp)+
    with False r 1(3) show ?thesis by fastforce
  qed
qed auto

subsection \<open>Opening, closing and opening again\<close>

lemma exec_all_ready:
  "db_ready d \<Longrightarrow> DBFile_exec Q sql d =
     (case sql (db_data d) of None \<Rightarrow> Inl (Std_Exc (''DBFile exec failed: '' @ sq_errmsg Q))
      | Some t \<Rightarrow> Inr (d\<lparr>db_data := t\<rparr>))"
  by (auto simp: DBFile_exec_def lock_guard_def ensure_open_def unlock_def db_ready_def split: option.split)

lemma open_tables_eq:
  "open_tables Q (DBFile p t) =
    (if sq_open Q p
     then Inr \<lparr> db_path = p, db_handle = True, db_locked = False, db_data =
       \<lparr> blocks_t = create_if_missing (blocks_t t), messages_t = create_if_missing (messages_t t),
         peers_t = create_if_missing (peers_t t) \<rparr> \<rparr>
     else Inl (Std_Exc (''DBFile: failed to open database: '' @ sq_errmsg Q)))"
proof -
  let ?d = "(DBFile p t)\<lparr>db_handle := True\<rparr>"
  have o: "DBFile_open Q (DBFile p t) = (if sq_open Q p then Inr ?d
      else Inl (Std_Exc (''DBFile: failed to open database: '' @ sq_errmsg Q)))"
    by (simp add: DBFile_open_def DBFile_def lock_guard_def unlock_def)
  have again: "DBFile_open Q x = Inr x" if "db_ready x" for x :: db
    using that by (cases x) (simp add: DBFile_open_def lock_guard_def unlock_def db_ready_def)
  have r: "db_ready ?d" by (simp add: db_ready_def DBFile_def)
  have some: "\<exists>x. create_if_missing y = Some x" for y :: "'r table option"
    by (cases y) (simp_all add: create_if_missing_def)
  obtain x y z where c: "create_if_missing (blocks_t t) = Some x" "create_if_missing (messages_t t) = Some y"
    "create_if_missing (peers_t t) = Some z"
    using some by metis
  have "db_data ?d = t" by (simp add: DBFile_def)
  then show ?thesis
    using r by (simp add: open_tables_def ChainDB_init_def MessageDB_init_def PeerDB_init_def o again
        exec_all_ready c) (simp add: DBFile_def)
qed

lemma open_tables_data:
  "open_tables Q (DBFile p t) = Inr d \<Longrightarrow> db_ready d \<and> db_data d = \<lparr> blocks_t = create_if_missing (blocks_t t),
    messages_t = create_if_missing (messages_t t), peers_t = create_if_missing (peers_t t) \<rparr>"
  by (auto simp: open_tables_eq db_ready_def split: if_splits)

text \<open>The three invariants and what the tables hold depend only on the data of an open database.\<close>

lemma db_views_data:
  assumes "db_ready d" "db_ready d'" "db_data d = db_data d'"
  shows "chain_db_inv Q d = chain_db_inv Q d'" "message_db_inv d = message_db_inv d'"
    "peer_db_inv Q d = peer_db_inv Q d'" "db_chain d = db_chain d'" "db_messages d = db_messages d'"
    "db_peers d = db_peers d'"
  using assms by (simp_all add: db_view_defs)

text \<open>Opening a file gives a good database if the file is new, or if a good database was closed on it.\<close>

lemma open_tables_good:
  assumes o: "open_tables Q (DBFile p t) = Inr d"
    and t: "t = no_tables \<and> port_column Q \<or>
      (chain_db_inv Q d0 \<and> message_db_inv d0 \<and> peer_db_inv Q d0 \<and> t = db_data d0)"
  shows "chain_db_inv Q d \<and> message_db_inv d \<and> peer_db_inv Q d \<and>
    (if t = no_tables then db_chain d = [] \<and> db_messages d = [] \<and> db_peers d = []
     else db_chain d = db_chain d0 \<and> db_messages d = db_messages d0 \<and> db_peers d = db_peers d0)"
proof (cases "t = no_tables")
  case True
  then have p: "port_column Q" using t by (auto simp: peer_db_inv_def)
  show ?thesis
    using open_tables_data [OF o] p True by (simp add: no_tables_def create_if_missing_def empty_table_def db_view_defs)
next
  case False
  then have g: "chain_db_inv Q d0" "message_db_inv d0" "peer_db_inv Q d0" "t = db_data d0" using t by auto
  then have "db_ready d0" by (simp add: chain_db_inv_def)
  moreover have "db_ready d" "db_data d = t"
    using open_tables_data [OF o] g
    by (auto simp: chain_db_inv_def message_db_inv_def peer_db_inv_def create_if_missing_def)
  ultimately show ?thesis using g False db_views_data [of d d0] by simp
qed

lemma bnd_InrE: "bnd r f = Inr y \<Longrightarrow> (\<And>x. r = Inr x \<Longrightarrow> f x = Inr y \<Longrightarrow> P) \<Longrightarrow> P"
  by auto

lemma init_services_good:
  assumes i: "init_services J S C srt Q st (DBFile p t) = Inr (E, n, me, tip, server)"
    and t: "t = no_tables \<and> port_column Q \<or>
      (chain_db_inv Q d0 \<and> message_db_inv d0 \<and> peer_db_inv Q d0 \<and> t = db_data d0)"
  shows "db_node_ok Q n \<and> (\<exists>cfg. E = node_env J S C cfg srt Q) \<and> n_newBlocks n = [] \<and> peers (n_peers n) = [] \<and>
    db_chain (n_store n) = (if t = no_tables then [] else db_chain d0) \<and>
    hash tip = (if db_chain (n_store n) = [] then hash Block else hash (last (db_chain (n_store n))))"
proof -
  have "\<exists>config cfg d f ps. open_tables Q (DBFile p t) = Inr d \<and>
    findTip (ChainDB Q) Block d = Inr (f, tip) \<and> PeerService cfg = Inr ps \<and>
    n = \<lparr> n_store = d, n_peers = ps, n_newBlocks = [], n_global = GlobalState \<rparr> \<and>
    E = node_env J S C config srt Q"
    using i unfolding init_services_def by (elim bnd_InrE) (auto split: prod.splits)
  then obtain config cfg d f ps where d: "open_tables Q (DBFile p t) = Inr d"
    "findTip (ChainDB Q) Block d = Inr (f, tip)" "PeerService cfg = Inr ps"
    "n = \<lparr> n_store = d, n_peers = ps, n_newBlocks = [], n_global = GlobalState \<rparr>"
    "E = node_env J S C config srt Q" by blast
  note g = open_tables_good [OF d(1) t]
  have "hash tip = (if db_chain d = [] then hash Block else hash (last (db_chain d)))"
    using cdb.tip [of Q d Block] g d(2) by (auto split: if_splits)
  then show ?thesis
    using d(3-5) g PeerService_inv [OF d(3)] by (auto simp: db_node_ok_def node_ok_def)
qed

subsection \<open>Shutting down\<close>

text \<open>The peers are told, with the steps that takes, and the database is closed with its tables as they are.\<close>

lemma shutdown_steps:
  assumes n: "db_node_ok Q n" and s: "shutdown (node_env J S C cfg srt Q) net fresh n = (r, n')"
  shows "\<exists>m. (node_step (node_env J S C cfg srt Q) timely)\<^sup>*\<^sup>* n m \<and> db_node_ok Q m \<and>
    db_chain (n_store m) = db_chain (n_store n) \<and>
    (case r of Inl _ \<Rightarrow> n' = m
     | Inr _ \<Rightarrow> \<not> db_handle (n_store n') \<and> db_data (n_store n') = db_data (n_store m))"
proof -
  let ?E = "node_env J S C cfg srt Q"
  obtain x m where m: "TCPClient_disconnect ?E net fresh n = (x, m)" by (cases "TCPClient_disconnect ?E net fresh n")
  have st: "(node_step ?E timely)\<^sup>*\<^sup>* n m"
    using runs_connect(4) [of ?E timely net fresh] m unfolding runs_def by (metis snd_conv)
  have g: "db_node_ok Q m" "db_chain (n_store m) = db_chain (n_store n)"
    using nst.keeps_connect(3) [OF node_env_wired, of Q "db_chain (n_store n)" J S C cfg srt net fresh] n m
    unfolding keeps_def db_node_ok_def by (metis snd_conv)+
  then have "\<not> db_locked (n_store m)" by (simp add: db_node_ok_def node_ok_def chain_db_inv_def db_ready_def)
  then have c: "DBFile_close (n_store m) = Inr ((n_store m)\<lparr>db_locked := False, db_handle := False\<rparr>)"
    by (simp add: DBFile_close_def lock_guard_def unlock_def)
  have "(case r of Inl _ \<Rightarrow> n' = m
     | Inr _ \<Rightarrow> \<not> db_handle (n_store n') \<and> db_data (n_store n') = db_data (n_store m))"
    using s m c by (cases x) (auto simp: shutdown_def seq_def on_store_def)
  with st g show ?thesis by blast
qed

text \<open>A start with a valid configuration and no trusted peers: it succeeds, and there is nothing to synchronize.\<close>

lemma init_services_alone:
  assumes c: "JsonConfig J C (st_freePort st) (st_file st) = Inr c" "config_isValid J c = Inr True"
      "loadTrustedPeerList J c = Inr []"
    and v: "bnd (config_get (cfg_data c) PORT) stoi = Inr i" "config_get (cfg_data c) HOST = Inr h"
      "config_get (cfg_data c) PUBLIC_KEY = Inr k"
    and d: "open_tables Q d0 = Inr d" "chain_db_inv Q d"
    and s: "st_startup st" "st_socket st" "st_bind st"
  shows "\<exists>tip server. init_services J S C srt Q st d0 = Inr (node_env J S C (cfg_data c) srt Q,
    \<lparr> n_store = d, n_peers = \<lparr> hosts = [], peers = [] \<rparr>, n_newBlocks = [], n_global = GlobalState \<rparr>,
    UserPeer h (word_of_int i) k, tip, server)"
proof -
  obtain f tip where t: "findTip (ChainDB Q) Block d = Inr (f, tip)"
    using cdb.tip [OF d(2), of Block] by (metis prod.exhaust)
  show ?thesis
    using v by (auto simp: init_services_def c d t s PeerService_def SocketServer_def)
qed

lemma synchronize_alone:
  assumes n: "hosts (n_peers n) = []" "peers (n_peers n) = []" "n_newBlocks n = []"
    and l: "local_peer (e_cfg E) = Inr me"
    and r: "validateLocalChain (e_sha E) (e_crypto E) (e_chain E) (n_store n) = Inr v"
      "findTipIndex (e_chain E) 0 (n_store n) = Inr i"
  shows "synchronize E net fresh freshP freshB from lastHash n = Some (Inr (), n)"
  using assms
  by (simp add: synchronize_def then_loop_def returns_def TCPClient_def TCPClient_connect_def receive_batches_def
      getHosts_def getPeersCount_def accept_blocks_def store_blocks_def validateNewBlocks_def getNewBlocks_def
      connectToAllPeers_def getPeers_def act_simps)

lemma shutdown_alone:
  assumes "peers (n_peers n) = []" "local_peer (e_cfg E) = Inr me" "db_ready (n_store n)"
  shows "\<exists>n'. shutdown E net fresh n = (Inr (), n') \<and> db_data (n_store n') = db_data (n_store n)"
  using assms by (simp add: shutdown_def TCPClient_disconnect_def getPeers_def act_simps DBFile_close_def
      lock_guard_def unlock_def db_ready_def)

end
