(* ===== verification/DC_ConfigProofs.thy ===== *)
theory DC_ConfigProofs
  imports DC_Config DC_JsonText
begin

text \<open>
  The configuration a first start generates: it is written, read back, valid, and the next start reads
  the same one.
\<close>

lemma jv_item_laws: "json_item_laws jt_lib"
proof -
  have "\<exists>its. Inr (AList.clearjunk (jv_fields j)) = Inr its \<and> distinct (map fst its) \<and>
      (\<forall>k v. (k, v) \<in> set its \<longleftrightarrow> map_of (jv_fields j) k \<noteq> None \<and> jv_at j k = Inr v)"
    if "\<exists>kvs. j = JObj kvs" for j
  proof (intro exI conjI allI)
    fix k v
    have "(k, v) \<in> set (AList.clearjunk (jv_fields j)) \<longleftrightarrow> map_of (AList.clearjunk (jv_fields j)) k = Some v"
      by (simp add: distinct_clearjunk)
    also have "\<dots> \<longleftrightarrow> map_of (jv_fields j) k = Some v" by (simp add: map_of_clearjunk)
    also have "\<dots> \<longleftrightarrow> map_of (jv_fields j) k \<noteq> None \<and> jv_at j k = Inr v"
      using that by (auto split: option.splits)
    finally show "(k, v) \<in> set (AList.clearjunk (jv_fields j)) \<longleftrightarrow>
      map_of (jv_fields j) k \<noteq> None \<and> jv_at j k = Inr v" .
  qed (simp_all add: distinct_clearjunk)
  moreover have "(case j of JObj _ \<Rightarrow> True | _ \<Rightarrow> False) \<longleftrightarrow> (\<exists>kvs. j = JObj kvs)" for j
    by (cases j) auto
  ultimately show ?thesis by (simp add: json_item_laws_def jt_lib_def jv_lib_def jv_contains_def)
qed

text \<open>The loop of the constructor leaves just the string members under the names of the fields.\<close>

definition config_of_items :: "('j, 'x) json_lib_scheme \<Rightarrow> (string \<times> 'j) list \<Rightarrow> config_data \<Rightarrow> config_data" where
  "config_of_items J its data = (\<lambda>f.
     case map_of its (configFieldToString f) of
       Some v \<Rightarrow> if json_is_string J v then Some (case json_get_string J v of Inr s \<Rightarrow> s | Inl _ \<Rightarrow> '''') else data f
     | None \<Rightarrow> data f)"

lemma configFieldToString_inj [simp]: "configFieldToString f = configFieldToString g \<longleftrightarrow> f = g"
  by (metis config_field_roundtrip_aux sum.inject(2))

lemma load_items:
  "distinct (map fst its) \<Longrightarrow>
   \<forall>(k, v) \<in> set its. json_is_string J v \<longrightarrow> (\<exists>f s. k = configFieldToString f \<and> json_get_string J v = Inr s) \<Longrightarrow>
   fold_res (load_item J) its data = Inr (config_of_items J its data)"
proof (induction its arbitrary: data)
  case (Cons it its)
  obtain k v where it: "it = (k, v)" by (cases it)
  show ?case
  proof (cases "json_is_string J v")
    case False
    then have "config_of_items J (it # its) data = config_of_items J its data"
      using Cons.prems(1) it by (auto simp: config_of_items_def fun_eq_iff image_iff split: option.splits)
    then show ?thesis using Cons False it by (simp add: load_item_def)
  next
    case True
    then obtain f s where fs: "k = configFieldToString f" "json_get_string J v = Inr s"
      using Cons.prems(2) it by auto
    have "map_of its (configFieldToString f) = None"
      using Cons.prems(1) it fs(1) by (auto simp: map_of_eq_None_iff)
    then have "config_of_items J (it # its) data = config_of_items J its (data(f \<mapsto> s))"
      using True it fs by (auto simp: config_of_items_def fun_eq_iff split: option.splits)
    then show ?thesis using Cons True it fs by (simp add: load_item_def)
  qed
qed (simp add: config_of_items_def)

subsection \<open>The default configuration\<close>

definition default_data :: "ICrypto \<Rightarrow> u16 \<Rightarrow> bytes \<Rightarrow> bytes \<Rightarrow> config_data" where
  "default_data C freePort pub priv = [HOST \<mapsto> ''127.0.0.1'', PORT \<mapsto> to_string (unat freePort),
     PUBLIC_KEY \<mapsto> keyToString C pub, PRIVATE_KEY \<mapsto> keyToString C priv]"

lemma default_json_members:
  fixes C :: ICrypto and freePort :: u16 and pub priv :: bytes
  assumes J: "json_laws J"
  defines "j \<equiv> default_json J C freePort pub priv"
  shows "json_is_object J j"
    and "json_contains J j k \<longleftrightarrow> k \<in> {''host'', ''port'', ''public_key'', ''private_key'', ''trustedPeerList''}"
    and "json_at J j ''trustedPeerList'' = Inr (json_array J [])"
    and "json_at J j (configFieldToString f) = Inr (json_of_string J (the (default_data C freePort pub priv f)))"
proof -
  show "json_is_object J j" "json_at J j ''trustedPeerList'' = Inr (json_array J [])"
    "json_contains J j k \<longleftrightarrow> k \<in> {''host'', ''port'', ''public_key'', ''private_key'', ''trustedPeerList''}"
    by (auto simp: j_def default_json_def Let_def json_simps [OF J])
  show "json_at J j (configFieldToString f) = Inr (json_of_string J (the (default_data C freePort pub priv f)))"
    by (cases f) (simp_all add: j_def default_json_def default_data_def Let_def json_simps [OF J])
qed

lemma default_json_loaded:
  assumes J: "json_laws J" "json_item_laws J"
  shows "\<exists>its. json_items J (default_json J C freePort pub priv) = Inr its \<and>
    fold_res (load_item J) its Map.empty = Inr (default_data C freePort pub priv)"
proof -
  let ?j = "default_json J C freePort pub priv" and ?d = "default_data C freePort pub priv"
  note m = default_json_members [OF J(1), of C freePort pub priv]
  obtain its where its: "json_items J ?j = Inr its" "distinct (map fst its)"
    "\<And>k v. (k, v) \<in> set its \<longleftrightarrow> json_contains J ?j k \<and> json_at J ?j k = Inr v"
    using J(2) m(1) unfolding json_item_laws_def by blast
  have str: "json_is_string J (json_of_string J s)" "\<not> json_is_string J (json_array J js)" for s js
    using J(2) by (simp_all add: json_item_laws_def)
  have field: "(configFieldToString f, json_of_string J (the (?d f))) \<in> set its" for f
  proof -
    have "json_contains J ?j (configFieldToString f)" by (cases f) (simp_all add: m(2))
    with m(4) [of f] show ?thesis unfolding its(3) by blast
  qed
  have ok: "\<exists>f s. k = configFieldToString f \<and> json_get_string J v = Inr s"
    if "(k, v) \<in> set its" "json_is_string J v" for k v
  proof -
    have at: "json_at J ?j k = Inr v" using that(1) by (simp add: its(3))
    then have "k \<noteq> ''trustedPeerList''" using that(2) m(3) str(2) by auto
    then have "k \<in> configFieldToString ` {HOST, PORT, PUBLIC_KEY, PRIVATE_KEY}"
      using that(1) by (auto simp: its(3) m(2))
    then obtain f where "k = configFieldToString f" by (elim imageE)
    then show ?thesis using at m(4) [of f] by (auto simp: json_get_string_of [OF J(1)])
  qed
  have "config_of_items J its Map.empty f = ?d f" for f
  proof -
    have "map_of its (configFieldToString f) = Some (json_of_string J (the (?d f)))"
      using field [of f] its(2) by (simp add: map_of_eq_Some_iff)
    then show ?thesis
      by (cases f) (simp_all add: config_of_items_def str json_get_string_of [OF J(1)] default_data_def)
  qed
  then have "config_of_items J its Map.empty = ?d" by (rule ext)
  then show ?thesis using load_items [of its J Map.empty] its(1,2) ok by auto
qed

text \<open>A configuration read from a file with the default text.\<close>

lemma default_config_read:
  fixes C :: ICrypto and freePort :: u16 and pub priv :: bytes
  assumes J: "json_laws J" "json_item_laws J" "json_text_laws J"
    and f: "f_readable f" "json_pretty J (default_json J C freePort pub priv) = Inr (f_text f)"
  defines "c \<equiv> \<lparr> cfg_file = f, cfg_data = default_data C freePort pub priv \<rparr>"
  shows "JsonConfig J C p f = Inr c" "config_isValid J c = Inr True" "loadTrustedPeerList J c = Inr []"
proof -
  let ?j = "default_json J C freePort pub priv"
  note m = default_json_members [OF J(1), of C freePort pub priv]
  have r: "JsonFile_read J f = Inr ?j"
    using J(3) f by (auto simp: JsonFile_read_def json_text_laws_def)
  show "JsonConfig J C p f = Inr c"
    using default_json_loaded [OF J(1,2), of C freePort pub priv] by (auto simp: JsonConfig_def r c_def)
  have "default_data C freePort pub priv k \<noteq> None" for k by (cases k) (simp_all add: default_data_def)
  moreover have "trusted_list J ?j = Inr (Some [])"
    using m(2) [of "''trustedPeerList''"] m(3) J(1)
    by (simp add: trusted_list_def json_is_array_of json_elems_of)
  ultimately show "config_isValid J c = Inr True" "loadTrustedPeerList J c = Inr []"
    by (simp_all add: config_isValid_def loadTrustedPeerList_def c_def r list_all_iff)
qed

lemma first_start_config:
  fixes C :: ICrypto and freePort :: u16 and pub priv :: bytes
  assumes J: "json_laws J" "json_item_laws J" "json_text_laws J"
    and f: "\<not> f_readable f" "f_writable f" "generateKeyPair C = Inr (pub, priv)"
      "json_pretty J (default_json J C freePort pub priv) = Inr t"
  defines "c \<equiv> \<lparr> cfg_file = f\<lparr>f_readable := True, f_text := t\<rparr>, cfg_data = default_data C freePort pub priv \<rparr>"
  shows "JsonConfig J C (Inr freePort) f = Inr c"
proof -
  let ?f = "f\<lparr>f_readable := True, f_text := t\<rparr>"
  have g: "generatedDefaultConfig J C (Inr freePort) f = Inr ?f"
    using f by (simp add: generatedDefaultConfig_def JsonFile_writeJson_def)
  have e: "JsonFile_read J f = Inl (Std_Exc ''Cannot open file'')" using f(1) by (simp add: JsonFile_read_def)
  have "JsonConfig J C (Inr freePort) f = JsonConfig J C (Inr freePort) ?f"
  proof -
    obtain j where "JsonFile_read J ?f = Inr j"
      using J(3) f(4) by (auto simp: JsonFile_read_def json_text_laws_def)
    then show ?thesis unfolding JsonConfig_def e by (simp add: g)
  qed
  also have "\<dots> = Inr c" using default_config_read(1) [OF J, of ?f C freePort pub priv "Inr freePort"] f(4) by (simp add: c_def)
  finally show ?thesis .
qed

end
