(* ===== verification/DC_AppTheorems.thy ===== *)
theory DC_AppTheorems
  imports DC_Steps DC_ConfigProofs DC_Exchange
begin

text \<open>
  The life of a node: its first start, the commands of its user, its shutdown and its next start.
\<close>

section \<open>Starting\<close>

text \<open>
  C37. A first start generates a configuration that it and every later start read back: valid, with the
  four fields, an empty list of trusted peers and keys whose texts decode to the generated pair.
\<close>

theorem default_config_roundtrip:
  assumes "json_laws J" "json_item_laws J" "json_text_laws J" "icrypto C key_pair session_key"
    and "\<not> f_readable f" "f_writable f" "generateKeyPair C = Inr (pub, priv)"
    and "json_pretty J (default_json J C freePort pub priv) = Inr t"
  shows "\<exists>c. JsonConfig J C (Inr freePort) f = Inr c \<and> (\<forall>p. JsonConfig J C p (cfg_file c) = Inr c) \<and>
    config_isValid J c = Inr True \<and> loadTrustedPeerList J c = Inr [] \<and>
    cfg_data c HOST = Some ''127.0.0.1'' \<and> bnd (config_get (cfg_data c) PORT) stoi = Inr (uint freePort) \<and>
    bnd (config_get (cfg_data c) PUBLIC_KEY) (stringToKey C) = Inr pub \<and>
    bnd (config_get (cfg_data c) PRIVATE_KEY) (stringToKey C) = Inr priv"
proof -
  let ?c = "\<lparr> cfg_file = f\<lparr>f_readable := True, f_text := t\<rparr>, cfg_data = default_data C freePort pub priv \<rparr>"
  have k: "stringToKey C (keyToString C b) = Inr b" for b using icrypto.key_text [OF assms(4)] .
  have p: "unat freePort < 2 ^ 31" using unat_u16_bound [of freePort] by simp
  have r: "f_readable (cfg_file ?c)" "json_pretty J (default_json J C freePort pub priv) = Inr (f_text (cfg_file ?c))"
    using assms(8) by simp_all
  show ?thesis
  proof (intro exI [of _ ?c] conjI allI)
    show "JsonConfig J C (Inr freePort) f = Inr ?c" by (rule first_start_config [OF assms(1-3,5-8)])
    show "JsonConfig J C p (cfg_file ?c) = Inr ?c" for p
      using default_config_read(1) [OF assms(1-3) r, of p] by simp
    show "config_isValid J ?c = Inr True" "loadTrustedPeerList J ?c = Inr []"
      using default_config_read(2,3) [OF assms(1-3) r] by simp_all
    show "bnd (config_get (cfg_data ?c) PORT) stoi = Inr (uint freePort)"
      using p by (simp add: config_get_def default_data_def)
  qed (simp_all add: config_get_def default_data_def k)
qed

theorem default_config_witness:
  "\<exists>c. JsonConfig jt_lib tests_crypto (Inr 8001) \<lparr> f_readable = False, f_writable = True, f_text = '''' \<rparr> = Inr c \<and>
    config_isValid jt_lib c = Inr True"
proof -
  obtain pub priv where k: "generateKeyPair tests_crypto = Inr (pub, priv)"
    by (auto simp: tests_crypto_def XORCrypto_def xor_generateKeyPair_def xor_generateSecret_def)
  have t: "json_pretty jt_lib (default_json jt_lib tests_crypto 8001 pub priv) =
      Inr (jv_text (default_json jt_lib tests_crypto 8001 pub priv))" by (simp add: jt_lib_def)
  show ?thesis
    using default_config_roundtrip [OF jt_laws jv_item_laws jt_text_laws tests_crypto_meets _ _ k t,
        of "\<lparr> f_readable = False, f_writable = True, f_text = '''' \<rparr>"] by auto
qed

section \<open>The commands\<close>

text \<open>
  C4. Whatever keys are typed, the editor hands over lines of which at most the last is \<open>/exit\<close>, and
  then it has stopped. The commands before it, whatever they send and wherever they fail, are a
  sequence of steps of the node: its invariants hold after them and its chain has only grown.
\<close>

theorem session_keeps_node:
  assumes "db_node_ok Q n" "\<forall>i. fresh_ok (db_timely Q) (fresh i)" "console_inv u"
  shows "\<exists>lines u' ls. input_loop (\<lambda>l. l = ''/exit'') ks (startInputLoop u) = Inr (lines, u') \<and>
    lines = ls @ (if running u' then [] else [''/exit'']) \<and>
    (let E = node_env J SHA256 C cfg srt Q; n' = snd (run_session E net fresh clk me 0 ls n) in
      (node_step E (db_timely Q))\<^sup>*\<^sup>* n n' \<and> db_node_ok Q n' \<and>
      (\<exists>l. db_chain (n_store n') = db_chain (n_store n) @ l))"
proof -
  let ?E = "node_env J SHA256 C cfg srt Q"
  obtain lines u' where l: "input_loop (\<lambda>l. l = ''/exit'') ks (startInputLoop u) = Inr (lines, u')"
    using input_loop_inv [OF startInputLoop_inv [OF assms(3)]] by blast
  have "running (startInputLoop u)" by (simp add: startInputLoop_def)
  from input_loop_stops [OF l this]
  obtain ls where ls: "lines = ls @ (if running u' then [] else [''/exit''])" "''/exit'' \<notin> set ls"
    by (auto split: if_splits)
  have "runs (node_step ?E (db_timely Q)) (run_session ?E net fresh clk me 0 ls)"
    using assms(2) ls(2) by (intro runs_session) simp_all
  then have s: "(node_step ?E (db_timely Q))\<^sup>*\<^sup>* n (snd (run_session ?E net fresh clk me 0 ls n))"
    by (simp add: runs_def)
  from nst.reachable_invariant [OF this node_env_wired] assms(1) l ls(1) s show ?thesis
    unfolding db_node_ok_def Let_def by blast
qed

theorem session_witness:
  "\<exists>lines u' ls. input_loop (\<lambda>l. l = ''/exit'') (map (\<lambda>c. Code (of_char c)) ''/peers'' @ [Code 13])
      (startInputLoop ConsoleUI) = Inr (lines, u') \<and> lines = ls @ (if running u' then [] else [''/exit'']) \<and>
    db_node_ok lite (snd (run_session alice_env (\<lambda>_ _. None) (\<lambda>_ _. (('''', 0), ('''', 0))) test_clock alice 0 ls fresh_node))"
proof -
  have f: "\<forall>i. fresh_ok (db_timely lite) ((\<lambda>_ _. (('''', 0), ('''', 0))) i)" by (simp add: fresh_ok_def)
  show ?thesis
    using session_keeps_node [OF fresh_node_ok(1) f ConsoleUI_inv] unfolding Let_def by blast
qed

section \<open>Shutting down\<close>

text \<open>
  C38. \<open>stop\<close> does not end the wait for a connection: the server serves one more request, and as
  \<open>shutdown\<close> goes on to close the database, a request for blocks then has undefined behaviour. No other
  exception ever leaves the handler.
\<close>

theorem stopped_server_serves:
  assumes "json_laws J" "json_text_laws J" "m_type m = BLOCK_RANGE_REQUEST"
    and "json_dump J (BlockRangeMessage_serialize J m) = Inr raw"
    and "server_recv k sent = Some raw"
    and "shutdown (node_env J SHA256 C cfg srt Q) net fresh n = (Inr (), n')" "db_node_ok Q n"
  shows "listen_loop E True (Stop_Called # Incoming q (Accepted k sent) s # es) n =
      seq (onMessage E q raw) (\<lambda>answer. ret [answer]) n \<and>
    listen_loop (node_env J SHA256 C cfg srt Q) True (Stop_Called # Incoming q (Accepted k sent) s # es) n' =
      (Inl Undefined, n') \<and>
    (\<forall>raw n. \<exists>a n'. onMessage E q raw n = (Inr a, n') \<or> onMessage E q raw n = (Inl Undefined, n'))"
proof (intro conjI allI)
  let ?E = "node_env J SHA256 C cfg srt Q"
  show one: "listen_loop E True (Stop_Called # Incoming q (Accepted k sent) s # es) n =
      seq (onMessage E q raw) (\<lambda>answer. ret [answer]) n" for E n
    by (rule stopped_serves_one [OF assms(5)])
  have "\<not> db_handle (n_store n')" using shutdown_steps [OF assms(7,6), of "\<lambda>_. True"] by auto
  then have "Service_getBlocksByIndexRange (ChainDB Q) (rg_start m) (rg_count m) (rg_lastHash m) (n_store n') [] =
      Inl Undefined"
    by (simp add: Service_getBlocksByIndexRange_def ChainDB_def ChainDB_getBlocksByIndexRange_def
        closed_statements_undefined)
  then have "onMessage ?E q raw n' = (Inl Undefined, n')"
    using assms(1-4) by (intro range_request_undefined) simp_all
  then show "listen_loop ?E True (Stop_Called # Incoming q (Accepted k sent) s # es) n' = (Inl Undefined, n')"
    unfolding one by (simp add: seq_def)
  show "\<exists>a n'. onMessage E q raw n = (Inr a, n') \<or> onMessage E q raw n = (Inl Undefined, n')" for raw n
    by (rule onMessage_total)
qed

theorem stopped_server_witness:
  "\<exists>raw n'. shutdown alice_env (\<lambda>_ _. None) (\<lambda>_. ('''', 0)) fresh_node = (Inr (), n') \<and>
    listen_loop alice_env True [Stop_Called, Incoming quiet (Accepted (length raw) raw) False] n' = (Inl Undefined, n')"
proof -
  let ?m = "BlockRangeMessage_create ''q'' 0 alice bob 0 4 ''0''"
  let ?raw = "jv_text (BlockRangeMessage_serialize jt_lib ?m)"
  have m: "m_type ?m = BLOCK_RANGE_REQUEST" by (simp add: BlockRangeMessage_create_def Message_def block_range_message.defs message_ext_defs)
  have d: "json_dump jt_lib (BlockRangeMessage_serialize jt_lib ?m) = Inr ?raw" by (simp add: jt_lib_def)
  have "db_ready (n_store fresh_node)" "peers (n_peers fresh_node) = []" "local_peer (e_cfg alice_env) = Inr alice"
    by (simp_all add: fresh_node_def fresh_db_def db_ready_def)
  then obtain n' where n': "shutdown alice_env (\<lambda>_ _. None) (\<lambda>_. ('''', 0)) fresh_node = (Inr (), n')"
    using shutdown_alone [of fresh_node alice_env alice] by blast
  have "server_recv (length ?raw) ?raw = Some ?raw"
    using recv_all(1) [OF range_request_small [of "''0''" "''q''"]] jv_text_pos [of "BlockRangeMessage_serialize jt_lib ?m"]
    by simp
  from stopped_server_serves [OF jt_laws jt_text_laws m d this n' fresh_node_ok(1)] n' show ?thesis by blast
qed


text \<open>A node that starts for the first time, stores a block, stops and starts again.\<close>

definition first_start :: start_env where
  "first_start = \<lparr> st_file = \<lparr> f_readable = False, f_writable = True, f_text = '''' \<rparr>, st_freePort = Inr 8001,
     st_startup = True, st_socket = True, st_bind = True \<rparr>"

lemma first_start_works:
  assumes "open_tables lite d0 = Inr d" "chain_db_inv lite d"
  shows "\<exists>cfg me tip server k. init_services jt_lib sha256_bytes tests_crypto id lite first_start d0 =
      Inr (node_env jt_lib sha256_bytes tests_crypto cfg id lite,
        \<lparr> n_store = d, n_peers = \<lparr> hosts = [], peers = [] \<rparr>, n_newBlocks = [], n_global = GlobalState \<rparr>, me, tip, server) \<and>
    local_peer cfg = Inr k"
proof -
  obtain pub priv where k: "generateKeyPair tests_crypto = Inr (pub, priv)"
    by (auto simp: tests_crypto_def XORCrypto_def xor_generateKeyPair_def xor_generateSecret_def)
  let ?j = "default_json jt_lib tests_crypto 8001 pub priv" and ?f = "\<lparr> f_readable = False, f_writable = True, f_text = '''' \<rparr>"
  let ?d = "default_data tests_crypto 8001 pub priv"
  let ?c = "\<lparr> cfg_file = ?f\<lparr>f_readable := True, f_text := jv_text ?j\<rparr>, cfg_data = ?d \<rparr>"
  have t: "json_pretty jt_lib ?j = Inr (jv_text ?j)" by (simp add: jt_lib_def)
  have c: "JsonConfig jt_lib tests_crypto (Inr 8001) ?f = Inr ?c"
    using first_start_config [OF jt_laws jv_item_laws jt_text_laws _ _ k t, of ?f] by simp
  have v: "config_isValid jt_lib ?c = Inr True" "loadTrustedPeerList jt_lib ?c = Inr []"
    using default_config_read(2,3) [OF jt_laws jv_item_laws jt_text_laws, of "cfg_file ?c" tests_crypto 8001 pub priv] t
    by simp_all
  have p: "stoi (to_string 8001) = Inr (int 8001)" by (rule stoi_to_string) simp
  then have g: "bnd (config_get (cfg_data ?c) PORT) stoi = Inr 8001" "config_get (cfg_data ?c) HOST = Inr ''127.0.0.1''"
    "config_get (cfg_data ?c) PUBLIC_KEY = Inr (keyToString tests_crypto pub)"
    by (simp_all add: config_get_def default_data_def)
  have l: "local_peer ?d = Inr (UserPeer ''127.0.0.1'' (word_of_int 8001) (keyToString tests_crypto pub))"
    using p by (simp add: local_peer_def config_get_def default_data_def)
  show ?thesis
    using init_services_alone [OF _ v g assms, of tests_crypto first_start sha256_bytes id] c l
    by (fastforce simp: first_start_def)
qed


section \<open>Identifiers and times\<close>

text \<open>
  C40. An identifier is a version 4 UUID whatever is drawn: 36 characters, hexadecimal digits but for the
  dashes, the version and the variant in their places, none of them a NUL or the separator of the hashed
  text; and it determines the 31 values drawn, so two are equal only if all the draws are.
\<close>

theorem uuid_format:
  assumes "draws_in 0 15 dis" "draws_in 8 11 dis2"
  shows "length (fst (uuidv4 dis dis2 g)) = 36 \<and>
    (\<forall>i \<in> {8, 13, 18, 23}. fst (uuidv4 dis dis2 g) ! i = CHR ''-'') \<and>
    fst (uuidv4 dis dis2 g) ! 14 = CHR ''4'' \<and> fst (uuidv4 dis dis2 g) ! 19 \<in> set ''89ab'' \<and>
    CHR 0x00 \<notin> set (fst (uuidv4 dis dis2 g)) \<and> CHR ''|'' \<notin> set (fst (uuidv4 dis dis2 g)) \<and>
    (fst (uuidv4 dis dis2 g') = fst (uuidv4 dis dis2 g) \<longrightarrow> uuid_values dis dis2 g' = uuid_values dis dis2 g)"
proof -
  note v = uuid_values_props [OF assms]
  note t = uuid_text_nth [OF v(1) [of g]]
  let ?x = "uuid_values dis dis2 g ! 15"
  have "?x = 8 \<or> ?x = 9 \<or> ?x = 10 \<or> ?x = 11" using v(3) [of g] by presburger
  then have "digit_char ?x \<in> set ''89ab''"
    by (elim disjE) (simp_all add: digit_char_def char_of_eq_iff take_bit_eq_mod)
  moreover have "CHR 0x00 \<notin> set (uuid_text (uuid_values dis dis2 g))" "CHR ''|'' \<notin> set (uuid_text (uuid_values dis dis2 g))"
    using t(5) [of "CHR 0x00"] t(5) [of "CHR ''|''"] v(2) [of g] digit_char_props(6,7)
    by (auto simp: list_all_iff) metis+
  ultimately show ?thesis
    using t(1-4) uuid_text_inj [OF v(1) v(1) v(2) v(2), of g' g] by (simp add: uuidv4_text)
qed

theorem uuid_format_witness:
  "length (fst (uuidv4 (\<lambda>g. (g mod 16, g + 1)) (\<lambda>g. (8 + g mod 4, g + 1)) (0 :: nat))) = 36"
proof -
  have "draws_in 0 15 (\<lambda>g :: nat. (g mod 16, g + 1))" "draws_in 8 11 (\<lambda>g :: nat. (8 + g mod 4, g + 1))"
  proof -
    have "g mod 16 \<le> 15" "8 + g mod 4 \<le> 11" for g :: nat by presburger+
    then show "draws_in 0 15 (\<lambda>g :: nat. (g mod 16, g + 1))" "draws_in 8 11 (\<lambda>g :: nat. (8 + g mod 4, g + 1))"
      unfolding draws_in_def by simp_all
  qed
  from uuid_format [OF this] show ?thesis by blast
qed

text \<open>
  \<open>/chat\<close> shows a history just when every message of it has a time the platform can turn into a local
  one; otherwise its behaviour is undefined. The time of a text comes from its sender and is checked
  nowhere: with a clock of nanoseconds, one after the year 2262 makes the chat unreadable.
\<close>

theorem history_needs_times:
  assumes "lc_ticks clk = 1000000"
  shows "((\<exists>t. history_text clk k h p ms ids = Inr t) \<longleftrightarrow>
      (\<forall>m \<in> set ms. timestampToString clk (m_timestamp m) \<noteq> Inl Undefined)) \<and>
    ((\<nexists>t. history_text clk k h p ms ids = Inr t) \<longleftrightarrow> history_text clk k h p ms ids = Inl Undefined) \<and>
    (9223372036855 \<le> uint ts \<and> uint ts < 2 ^ 63 \<longrightarrow> timestampToString clk ts = Inl Undefined)"
proof -
  have two: "timestampToString clk ts = Inl Undefined \<or> (\<exists>t. timestampToString clk ts = Inr t)" for ts
    by (simp add: timestampToString_def Let_def split: option.split)
  have l: "message_line clk k ids m = Inl Undefined \<and> timestampToString clk (m_timestamp m) = Inl Undefined \<or>
      (\<exists>s. message_line clk k ids m = Inr s) \<and> timestampToString clk (m_timestamp m) \<noteq> Inl Undefined" for m
    using two [of "m_timestamp m"] by (elim disjE exE) (simp_all add: message_line_def)
  have t: "traverse (message_line clk k ids) ms = Inl Undefined \<and> (\<exists>m \<in> set ms. timestampToString clk (m_timestamp m) = Inl Undefined) \<or>
      (\<exists>ls. traverse (message_line clk k ids) ms = Inr ls) \<and> (\<forall>m \<in> set ms. timestampToString clk (m_timestamp m) \<noteq> Inl Undefined)"
  proof (induction ms)
    case (Cons m ms)
    then show ?case using l [of m] by auto
  qed simp
  have "9223372036855 \<le> uint ts \<and> uint ts < 2 ^ 63 \<longrightarrow> timestampToString clk ts = Inl Undefined"
    using far_time [OF assms, of ts] by blast
  with t show ?thesis by (auto simp: history_text_def)
qed

theorem history_needs_times_witness:
  "history_text test_clock alice_key ''h'' 1 [hello\<lparr>m_timestamp := 10000000000000\<rparr>] [] = Inl Undefined"
proof -
  have c: "lc_ticks test_clock = 1000000" by (simp add: test_clock_def)
  note h = history_needs_times [OF c, of alice_key "''h''" 1 "[hello\<lparr>m_timestamp := 10000000000000\<rparr>]" "[]" 10000000000000]
  then have "timestampToString test_clock 10000000000000 = Inl Undefined" by simp
  with h have "\<nexists>t. history_text test_clock alice_key ''h'' 1 [hello\<lparr>m_timestamp := 10000000000000\<rparr>] [] = Inr t"
    by simp
  with h show ?thesis by blast
qed

text \<open>
  C32. Any peer can bring a node down: a text that is otherwise as its sender must make it, but dated after
  the year 2262, is stored, and then showing its time is undefined behaviour in the thread of the
  server. It is still stored when the node starts again.
\<close>

theorem far_text_undefined:
  assumes "icrypto C key_pair session_key" "json_laws J" "json_text_laws J" "db_node_ok Q n"
    and "text_keys C key_pair privA (publicKey (m_from m))" "text_keys C key_pair privB (publicKey (m_to m))"
    and "m_type m = TEXT_MESSAGE" "TextMessage_serialize J C m privA = Inr j" "json_dump J j = Inr raw"
    and "cfg PRIVATE_KEY = Some privB" "cfg PUBLIC_KEY = Some k"
    and "json_dump J (TextMessageResponse_serialize J (TextMessageResponse_create (rq_uuid q) (rq_ts q)
      (UserPeer (host (m_to m)) (port (m_to m)) k) (m_from m))) = Inr ack"
    and "lc_ticks (rq_clk q) = 1000000" "9223372036855 \<le> uint (m_timestamp m)" "uint (m_timestamp m) < 2 ^ 63"
  shows "\<exists>n'. onMessage (node_env J SHA256 C cfg srt Q) q raw n = (Inl Undefined, n') \<and> db_node_ok Q n' \<and>
    c_str (m_id m) \<in> message_ids n'"
proof -
  have far: "timestampToString (rq_clk q) (m_timestamp m) = Inl Undefined" by (rule far_time [OF assms(13-15)])
  obtain n' where "onMessage (node_env J SHA256 C cfg srt Q) q raw n = (Inl Undefined, n')" "db_node_ok Q n'"
    "db_messages (n_store n') = (if c_str (m_id m) \<in> message_ids n
      then db_messages (n_store n) else db_messages (n_store n) @ [stored m raw (m_blockHash m)])"
    using text_stored [OF assms(1-12), of SHA256 srt] unfolding far sum.case by (elim exE conjE)
  then show ?thesis by (intro exI [of _ n']) (auto simp: stored_def)
qed

theorem far_text_witness:
  "\<exists>j n'. onMessage (node_env jt_lib sha256_bytes tests_crypto [PRIVATE_KEY \<mapsto> bob_key, PUBLIC_KEY \<mapsto> bob_key] id lite)
     quiet (jv_text j) fresh_node = (Inl Undefined, n')"
proof -
  let ?m = "hello\<lparr>m_timestamp := 10000000000000\<rparr>"
  have keys: "text_keys tests_crypto xor_key_pair alice_key (publicKey (m_from ?m))"
    "text_keys tests_crypto xor_key_pair bob_key (publicKey (m_to ?m))" "m_type ?m = TEXT_MESSAGE" by simp_all
  obtain j where j: "TextMessage_serialize jt_lib tests_crypto ?m alice_key = Inr j"
    using icrypto.text_roundtrip [OF tests_crypto_meets jt_laws keys] by blast
  have c: "lc_ticks (rq_clk quiet) = 1000000" by (simp add: test_clock_def)
  from far_text_undefined [OF tests_crypto_meets jt_laws jt_text_laws fresh_node_ok(1) keys j jt_dump _ _ jt_dump c, of
      "[PRIVATE_KEY \<mapsto> bob_key, PUBLIC_KEY \<mapsto> bob_key]" bob_key sha256_bytes id]
  show ?thesis by auto
qed

end
