(* ===== verification/DC_Screen.thy ===== *)
theory DC_Screen
  imports DC_ConsoleUI "HOL-Library.Word"
begin

text \<open>
  What \<open>ui::ConsoleUI\<close> (src/ui/cli/ConsoleUI.cpp) draws. The console is a grid of cells with a cursor;
  writing goes on from the cursor and wraps at the last column. The Windows calls it uses are modelled on
  that grid: \<open>GetConsoleScreenBufferInfo\<close>, \<open>SetConsoleCursorPosition\<close> (a position outside the
  buffer is refused) and \<open>FillConsoleOutputCharacter\<close>. Scrolling is left out: there is always a next row.
\<close>

record screen =
  s_ok :: bool                       \<comment> \<open>\<open>hConsole\<close> is valid and \<open>GetConsoleScreenBufferInfo\<close> succeeds\<close>
  s_width :: nat                     \<comment> \<open>\<open>csbi.dwSize.X\<close>\<close>
  s_cells :: "nat \<Rightarrow> nat \<Rightarrow> char"    \<comment> \<open>row, column\<close>
  s_x :: nat
  s_y :: nat                         \<comment> \<open>\<open>csbi.dwCursorPosition\<close>\<close>

text \<open>\<open>std::cout\<close>.\<close>

definition put_char :: "char \<Rightarrow> screen \<Rightarrow> screen" where
  "put_char c s =
     (if c = CHR 0x0A then s\<lparr>s_x := 0, s_y := s_y s + 1\<rparr>
      else
        let s = s\<lparr>s_cells := (s_cells s)(s_y s := (s_cells s (s_y s))(s_x s := c))\<rparr>
        in if s_x s + 1 = s_width s then s\<lparr>s_x := 0, s_y := s_y s + 1\<rparr>
           else s\<lparr>s_x := s_x s + 1\<rparr>)"

definition put_text :: "string \<Rightarrow> screen \<Rightarrow> screen" where
  "put_text t s = fold put_char t s"

text \<open>\<open>static_cast<SHORT>\<close> of the column; the row is that of the cursor.\<close>

definition SetConsoleCursorPosition :: "nat \<Rightarrow> screen \<Rightarrow> screen" where
  "SetConsoleCursorPosition x s =
     (let X = sint (word_of_nat x :: 16 word)
      in if 0 \<le> X \<and> X < int (s_width s) then s\<lparr>s_x := nat X\<rparr> else s)"

definition fill_row :: "screen \<Rightarrow> screen" where
  "fill_row s = s\<lparr>s_cells := (s_cells s)(s_y s := (\<lambda>x. if x < s_width s then CHR '' '' else s_cells s (s_y s) x))\<rparr>"

subsection \<open>The four private methods\<close>

definition clearInputLine :: "screen \<Rightarrow> screen" where
  "clearInputLine s =
     (if \<not> s_ok s then s
      else
        let s = SetConsoleCursorPosition 0 s;
            s = fill_row s
        in SetConsoleCursorPosition 0 s)"

definition restoreInputLine :: "console \<Rightarrow> screen \<Rightarrow> screen" where
  "restoreInputLine u s = put_text (''> '' @ currentInput u) s"

definition setCursorPosition :: "nat \<Rightarrow> screen \<Rightarrow> screen" where
  "setCursorPosition pos s = (if \<not> s_ok s then s else SetConsoleCursorPosition (2 + pos) s)"

definition redrawInputLine :: "string \<Rightarrow> console \<Rightarrow> screen \<Rightarrow> screen" where
  "redrawInputLine inp u s =
     (if \<not> s_ok s then s
      else
        let s = SetConsoleCursorPosition 0 s;
            s = fill_row s;
            s = SetConsoleCursorPosition 0 s;
            s = put_text (''> '' @ inp) s
        in setCursorPosition (cursorPosition u) s)"

text \<open>\<open>printLog\<close>: the line of the user is cleared, the text printed, the line written again.\<close>

definition printLog :: "string \<Rightarrow> console \<Rightarrow> screen \<Rightarrow> screen" where
  "printLog msg u s =
     (let s = clearInputLine s;
          s = put_text msg s;
          s = (if msg = '''' \<or> last msg \<noteq> CHR 0x0A then put_char (CHR 0x0A) s else s)
      in if running u then restoreInputLine u s else s)"

subsection \<open>One turn of the input loop\<close>

text \<open>
  What the turn of a key draws; \<open>u\<close> is the state before it, \<open>u'\<close> the one after. \<open>msgs\<close> are the texts the
  handler of the line passes to \<open>printLog\<close>; the line is empty by then, and the loop still runs.
\<close>

definition draw_turn :: "string list \<Rightarrow> keypress \<Rightarrow> console \<Rightarrow> console \<Rightarrow> screen \<Rightarrow> screen" where
  "draw_turn msgs k u u' s =
     (case k of
        Code ch \<Rightarrow>
          if ch = 13 \<or> ch = 10 then
            let s = put_char (CHR 0x0A) s;
                s = (if con_input u \<noteq> '''' then fold (\<lambda>m. printLog m (u\<lparr>currentInput := ''''\<rparr>)) msgs s else s)
            in if running u' then put_text ''> '' s else s
          else if ch = 8 \<or> ch = 127 then
            if con_input u \<noteq> '''' \<and> cursorPosition u > 0 then redrawInputLine (con_input u') u' s else s
          else if ch \<ge> 32 \<and> ch \<le> 126 then redrawInputLine (con_input u') u' s
          else s
      | Extended code \<Rightarrow>
          if code = 72 then
            if commandHistory u \<noteq> [] \<and> historyIndex u > 0 then redrawInputLine (con_input u') u' s else s
          else if code = 80 then
            if commandHistory u \<noteq> [] \<and> historyIndex u < length (commandHistory u)
            then redrawInputLine (con_input u') u' s else s
          else if code = 75 then
            if cursorPosition u > 0 then setCursorPosition (cursorPosition u') s else s
          else if code = 77 then
            if cursorPosition u < length (con_input u) then setCursorPosition (cursorPosition u') s else s
          else if code = 71 \<or> code = 79 then setCursorPosition (cursorPosition u') s
          else if code = 83 then
            if cursorPosition u < length (con_input u) then redrawInputLine (con_input u') u' s else s
          else s
      | Prefix_Only \<Rightarrow> s)"

definition draw_start :: "screen \<Rightarrow> screen" where
  "draw_start s = put_text ''> '' s"

subsection \<open>The console control handler\<close>

datatype ctrl_event =
  CTRL_C_EVENT | CTRL_BREAK_EVENT | CTRL_CLOSE_EVENT | CTRL_LOGOFF_EVENT | CTRL_SHUTDOWN_EVENT
| Other_Event

text \<open>Whether the shutdown callback runs, and the result; there may be no instance and no callback.\<close>

definition consoleCtrlHandler :: "bool \<Rightarrow> bool \<Rightarrow> ctrl_event \<Rightarrow> bool \<times> bool" where
  "consoleCtrlHandler instance callback e =
     (if e = Other_Event then (False, False) else (instance \<and> callback, True))"

subsection \<open>Writing within a row\<close>

text \<open>The row of the cursor shows \<open>t\<close> and then blanks; the cursor is at column \<open>x\<close>.\<close>

definition row_shows :: "string \<Rightarrow> nat \<Rightarrow> screen \<Rightarrow> bool" where
  "row_shows t x s \<longleftrightarrow> length t < s_width s \<and> s_x s = x \<and>
     (\<forall>i < s_width s. s_cells s (s_y s) i = (if i < length t then t ! i else CHR '' ''))"

lemma put_text_simps [simp]:
  "put_text [] s = s" "put_text (c # t) s = put_text t (put_char c s)"
  "put_text (t @ t') s = put_text t' (put_text t s)"
  by (simp_all add: put_text_def)

lemma put_text_row:
  "CHR 0x0A \<notin> set t \<Longrightarrow> s_x s + length t < s_width s \<Longrightarrow>
   s_x (put_text t s) = s_x s + length t \<and> s_y (put_text t s) = s_y s \<and>
   (\<forall>i. s_cells (put_text t s) (s_y s) i =
     (if s_x s \<le> i \<and> i < s_x s + length t then t ! (i - s_x s) else s_cells s (s_y s) i))"
proof (induction t arbitrary: s)
  case (Cons c t)
  let ?s = "s\<lparr>s_cells := (s_cells s)(s_y s := (s_cells s (s_y s))(s_x s := c)), s_x := s_x s + 1\<rparr>"
  have p: "put_char c s = ?s" using Cons.prems by (auto simp: put_char_def Let_def)
  have ih: "s_x (put_text t ?s) = s_x ?s + length t" "s_y (put_text t ?s) = s_y ?s"
    "s_cells (put_text t ?s) (s_y ?s) i =
     (if s_x ?s \<le> i \<and> i < s_x ?s + length t then t ! (i - s_x ?s) else s_cells ?s (s_y ?s) i)" for i
    using Cons.IH [of ?s] Cons.prems by auto
  have "s_cells (put_text t ?s) (s_y s) i =
     (if s_x s \<le> i \<and> i < s_x s + length (c # t) then (c # t) ! (i - s_x s) else s_cells s (s_y s) i)" for i
    using ih(3) [of i] by (auto simp: nth_Cons')
  then show ?case using ih(1,2) unfolding put_text_simps p by simp
qed auto

lemma set_pos [simp]:
  assumes "x < s_width s" "s_width s \<le> 32767"
  shows "SetConsoleCursorPosition x s = s\<lparr>s_x := x\<rparr>"
proof -
  have "sint (word_of_nat x :: 16 word) = int x"
    using assms by (simp add: signed_take_bit_int_eq_self_iff sint_sbintrunc' signed_of_nat signed_take_bit_int_eq_self)
  then show ?thesis using assms by (simp add: SetConsoleCursorPosition_def)
qed

text \<open>The rows below the cursor are blank, and writing keeps them so.\<close>

definition blank_below :: "screen \<Rightarrow> bool" where
  "blank_below s \<longleftrightarrow> (\<forall>y > s_y s. \<forall>x < s_width s. s_cells s y x = CHR '' '')"

lemma put_char_fields [simp]:
  "s_ok (put_char c s) = s_ok s" "s_width (put_char c s) = s_width s"
  by (simp_all add: put_char_def Let_def)

lemma put_text_fields [simp]:
  "s_ok (put_text t s) = s_ok s" "s_width (put_text t s) = s_width s"
  by (induction t arbitrary: s) simp_all

lemma put_char_blank: "blank_below s \<Longrightarrow> blank_below (put_char c s)"
  by (auto simp: blank_below_def put_char_def Let_def)

lemma put_text_blank: "blank_below s \<Longrightarrow> blank_below (put_text t s)"
  by (induction t arbitrary: s) (simp_all add: put_char_blank)

text \<open>A row that is blank from its first column on shows what is then written.\<close>

lemma write_line:
  assumes "\<forall>i < s_width s. s_cells s (s_y s) i = CHR '' ''" "CHR 0x0A \<notin> set t" "length t < s_width s" "s_x s = 0"
  shows "row_shows t (length t) (put_text t s)"
  using assms by (auto simp: row_shows_def put_text_row)

definition screen_ok :: "screen \<Rightarrow> bool" where
  "screen_ok s \<longleftrightarrow> s_ok s \<and> s_width s \<le> 32767 \<and> blank_below s"

text \<open>The row of the cursor shows the prompt and the line of the user, with the cursor where the next key goes.\<close>

definition shows_line :: "console \<Rightarrow> screen \<Rightarrow> bool" where
  "shows_line u s \<longleftrightarrow> screen_ok s \<and> currentInput u = con_input u \<and>
     row_shows (''> '' @ con_input u) (2 + cursorPosition u) s"

lemma redraw_shows:
  assumes s: "screen_ok s" and t: "CHR 0x0A \<notin> set t" "2 + length t < s_width s" "cursorPosition u \<le> length t"
  shows "screen_ok (redrawInputLine t u s) \<and> row_shows (''> '' @ t) (2 + cursorPosition u) (redrawInputLine t u s)"
proof -
  have w: "s_ok s" "s_width s \<le> 32767" "blank_below s" "0 < s_width s" using s t by (simp_all add: screen_ok_def)
  let ?s1 = "(fill_row (s\<lparr>s_x := 0\<rparr>))\<lparr>s_x := 0\<rparr>" and ?t = "''> '' @ t"
  have f: "s_width ?s1 = s_width s" "s_ok ?s1" "blank_below ?s1" "s_x ?s1 = 0"
    "\<forall>i < s_width ?s1. s_cells ?s1 (s_y ?s1) i = CHR '' ''"
    using w by (simp_all add: fill_row_def blank_below_def)
  have len: "length ?t < s_width ?s1" "CHR 0x0A \<notin> set ?t" using t f(1) by simp_all
  let ?s2 = "put_text ?t ?s1"
  have r: "row_shows ?t (length ?t) ?s2" by (rule write_line [OF f(5) len(2,1) f(4)])
  have "redrawInputLine t u s = setCursorPosition (cursorPosition u) ?s2"
    using w f(1) by (simp add: redrawInputLine_def Let_def fill_row_def)
  also have "\<dots> = ?s2\<lparr>s_x := 2 + cursorPosition u\<rparr>"
    using f(1,2) w t by (subst setCursorPosition_def, subst set_pos) simp_all
  finally have e: "redrawInputLine t u s = ?s2\<lparr>s_x := 2 + cursorPosition u\<rparr>" .
  have "blank_below ?s2" by (rule put_text_blank [OF f(3)])
  then show ?thesis
    using r f(1,2) w unfolding e by (simp add: row_shows_def screen_ok_def blank_below_def)
qed

lemma move_shows:
  assumes "screen_ok s" "row_shows t x s" "2 + p < s_width s"
  shows "screen_ok (setCursorPosition p s) \<and> row_shows t (2 + p) (setCursorPosition p s)"
  using assms by (auto simp: setCursorPosition_def screen_ok_def row_shows_def blank_below_def)

lemma prompt_shows:
  assumes "screen_ok s" "2 < s_width s"
  shows "screen_ok (put_text ''> '' (put_char (CHR 0x0A) s)) \<and> row_shows ''> '' 2 (put_text ''> '' (put_char (CHR 0x0A) s))"
proof -
  let ?s = "put_char (CHR 0x0A) s"
  have b: "blank_below ?s" "s_x ?s = 0" "\<forall>i < s_width ?s. s_cells ?s (s_y ?s) i = CHR '' ''"
    using assms by (auto simp: screen_ok_def blank_below_def put_char_def)
  have "row_shows ''> '' (length ''> '') (put_text ''> '' ?s)"
    using assms(2) by (intro write_line [OF b(3) _ _ b(2)]) simp_all
  then have "row_shows ''> '' 2 (put_text ''> '' ?s)" by (simp add: numeral_2_eq_2)
  then show ?thesis
    using put_text_blank [OF b(1), of "''> ''"] assms(1) by (simp add: screen_ok_def)
qed

subsection \<open>The screen follows the editor\<close>

lemma printable_no_newline: "printable t \<Longrightarrow> CHR 0x0A \<notin> set t"
  by (auto simp: printable_def)

lemma turn_current:
  assumes "input_turn stops k u = Inr (line, u')" "currentInput u = con_input u"
  shows "currentInput u' = con_input u'"
proof (cases k)
  case (Code ch)
  show ?thesis
  proof (cases "ch = 13 \<or> ch = 10")
    case True
    then show ?thesis
      using assms Code by (cases "con_input u = ''''") (auto simp: input_turn_def Let_def addToHistory_def)
  next
    case False
    then show ?thesis using assms Code by (auto simp: input_turn_def handleKeyPress_def split: if_splits)
  qed
next
  case (Extended e)
  then show ?thesis
    using assms by (auto simp: input_turn_def handleExtendedKey_def navigateHistoryUp_def navigateHistoryDown_def
        recall_def Let_def split: if_splits)
qed (use assms in \<open>simp add: input_turn_def\<close>)

text \<open>A turn that does not redraw the row keeps the text, and moves the cursor if the editor did.\<close>

lemma turn_draws:
  assumes u: "console_inv u" "running u" and t: "input_turn stops k u = Inr (line, u')" "running u'"
  shows "draw_turn [] k u u' s = redrawInputLine (con_input u') u' s \<or>
    (con_input u' = con_input u \<and> cursorPosition u' = cursorPosition u \<and> draw_turn [] k u u' s = s) \<or>
    (con_input u' = con_input u \<and> draw_turn [] k u u' s = setCursorPosition (cursorPosition u') s) \<or>
    (con_input u' = '''' \<and> cursorPosition u' = 0 \<and> draw_turn [] k u u' s = put_text ''> '' (put_char (CHR 0x0A) s))"
proof (cases k)
  case (Code ch)
  show ?thesis
  proof (cases "ch = 13 \<or> ch = 10")
    case True
    then show ?thesis
      using t u(2) Code by (cases "con_input u = ''''")
        (auto simp: input_turn_def Let_def draw_turn_def simp del: put_text_simps split: if_splits)
  next
    case False
    then show ?thesis using t Code
      by (auto simp: input_turn_def handleKeyPress_def draw_turn_def split: if_splits)
  qed
next
  case (Extended e)
  then have x: "handleExtendedKey e u = Inr u'" using t by (auto simp: input_turn_def)
  consider (up) "e = 72" | (down) "e = 80" | (side) "e \<in> {75, 77, 71, 79}" | (del) "e = 83" | (none) "e \<notin> {72, 80, 75, 77, 71, 79, 83}"
    by blast
  then show ?thesis
  proof cases
    case up
    then have v: "u' = navigateHistoryUp u" using x by (simp add: handleExtendedKey_def)
    show ?thesis
    proof (cases "commandHistory u \<noteq> [] \<and> historyIndex u > 0")
      case False
      then have "navigateHistoryUp u = u" by (auto simp: navigateHistoryUp_def)
      with v show ?thesis using False up Extended by (simp add: draw_turn_def)
    qed (use up Extended in \<open>simp add: draw_turn_def\<close>)
  next
    case down
    then have v: "u' = navigateHistoryDown u" using x by (simp add: handleExtendedKey_def)
    show ?thesis
    proof (cases "commandHistory u \<noteq> [] \<and> historyIndex u < length (commandHistory u)")
      case False
      then have "navigateHistoryDown u = u" by (auto simp: navigateHistoryDown_def)
      with v show ?thesis using False down Extended by (simp add: draw_turn_def)
    qed (use down Extended in \<open>simp add: draw_turn_def\<close>)
  next
    case side
    then show ?thesis
      using x Extended by (elim insertE) (auto simp: handleExtendedKey_def draw_turn_def split: if_splits)
  next
    case del
    then show ?thesis
      using x Extended by (cases "cursorPosition u < length (con_input u)") (auto simp: handleExtendedKey_def draw_turn_def)
  next
    case none
    then show ?thesis using x Extended by (simp add: handleExtendedKey_def draw_turn_def)
  qed
qed (use t in \<open>simp add: input_turn_def draw_turn_def\<close>)

lemma turn_shows:
  assumes u: "console_inv u" "running u" "shows_line u s"
    and t: "input_turn stops k u = Inr (line, u')" "running u'" "2 + length (con_input u') < s_width s"
  shows "console_inv u' \<and> shows_line u' (draw_turn [] k u u' s)"
proof -
  have u': "console_inv u'" using input_turn_inv [OF u(1), of stops k] t(1) by auto
  have c: "currentInput u' = con_input u'" by (rule turn_current [OF t(1)]) (use u(3) in \<open>simp add: shows_line_def\<close>)
  have p: "CHR 0x0A \<notin> set (con_input u')" "cursorPosition u' \<le> length (con_input u')"
    using u' by (simp_all add: console_inv_def printable_no_newline)
  have s: "screen_ok s" "row_shows (''> '' @ con_input u) (2 + cursorPosition u) s"
    using u(3) by (simp_all add: shows_line_def)
  show ?thesis
    using turn_draws [OF u(1,2) t(1,2), of s]
  proof (elim disjE conjE)
    assume "draw_turn [] k u u' s = redrawInputLine (con_input u') u' s"
    then show ?thesis using redraw_shows [OF s(1) p(1) t(3) p(2)] u' c by (simp add: shows_line_def)
  next
    assume "con_input u' = con_input u" "cursorPosition u' = cursorPosition u" "draw_turn [] k u u' s = s"
    then show ?thesis using s u' c by (simp add: shows_line_def)
  next
    assume "con_input u' = con_input u" "draw_turn [] k u u' s = setCursorPosition (cursorPosition u') s"
    then show ?thesis
      using move_shows [OF s, of "cursorPosition u'"] t(3) p(2) u' c by (simp add: shows_line_def)
  next
    assume "con_input u' = ''''" "cursorPosition u' = 0" "draw_turn [] k u u' s = put_text ''> '' (put_char (CHR 0x0A) s)"
    then show ?thesis using prompt_shows [OF s(1)] t(3) u' c by (simp add: shows_line_def)
  qed
qed

text \<open>
  \<open>printLog\<close> writes the line again but does not put the cursor back: it is at the end of the line,
  whatever \<open>cursorPosition\<close> says.
\<close>

lemma printLog_row:
  assumes s: "screen_ok s" "running u" and t: "CHR 0x0A \<notin> set (currentInput u)" "2 + length (currentInput u) < s_width s"
  shows "screen_ok (printLog msg u s) \<and>
    row_shows (''> '' @ currentInput u) (2 + length (currentInput u)) (printLog msg u s)"
proof -
  have w: "s_ok s" "s_width s \<le> 32767" "blank_below s" "0 < s_width s" using s t by (simp_all add: screen_ok_def)
  let ?s1 = "(fill_row (s\<lparr>s_x := 0\<rparr>))\<lparr>s_x := 0\<rparr>"
  have c: "clearInputLine s = ?s1" using w by (simp add: clearInputLine_def Let_def fill_row_def)
  have f: "s_width ?s1 = s_width s" "s_ok ?s1" "blank_below ?s1" using w by (simp_all add: fill_row_def blank_below_def)
  let ?s2 = "if msg = '''' \<or> last msg \<noteq> CHR 0x0A then put_char (CHR 0x0A) (put_text msg ?s1) else put_text msg ?s1"
  have e: "\<exists>s'. ?s2 = put_char (CHR 0x0A) s' \<and> blank_below s' \<and> s_ok s' \<and> s_width s' = s_width s"
  proof (cases "msg = '''' \<or> last msg \<noteq> CHR 0x0A")
    case True
    then show ?thesis using put_text_blank [OF f(3)] f(1,2) by (intro exI [of _ "put_text msg ?s1"]) simp
  next
    case False
    then have "msg = butlast msg @ [CHR 0x0A]" by (metis append_butlast_last_id)
    then have "put_text msg ?s1 = put_char (CHR 0x0A) (put_text (butlast msg) ?s1)"
      by (metis put_text_simps)
    then show ?thesis
      using False put_text_blank [OF f(3), of "butlast msg"] f(1,2) by (intro exI [of _ "put_text (butlast msg) ?s1"]) simp
  qed
  then obtain s' where s': "?s2 = put_char (CHR 0x0A) s'" "blank_below s'" "s_ok s'" "s_width s' = s_width s" by blast
  let ?l = "''> '' @ currentInput u"
  have p: "printLog msg u s = put_text ?l (put_char (CHR 0x0A) s')"
    using s'(1) s(2) unfolding printLog_def restoreInputLine_def c Let_def by simp
  have "\<forall>i < s_width s. s_cells (put_char (CHR 0x0A) s') (s_y (put_char (CHR 0x0A) s')) i = CHR '' ''"
    "s_x (put_char (CHR 0x0A) s') = 0"
    using s'(2,4) by (simp_all add: put_char_def blank_below_def)
  then have "row_shows ?l (length ?l) (printLog msg u s)"
    unfolding p using t s'(4) by (intro write_line) simp_all
  then show ?thesis
    using put_text_blank [OF put_char_blank [OF s'(2)], of ?l] s'(3,4) w(2) by (simp add: screen_ok_def p)
qed


text \<open>Writing on after what the row shows.\<close>

lemma write_on:
  assumes "row_shows t (length t) s" "CHR 0x0A \<notin> set t'" "length t + length t' < s_width s"
  shows "row_shows (t @ t') (length t + length t') (put_text t' s)"
proof -
  have x: "s_x s = length t" "\<And>i. i < s_width s \<Longrightarrow> s_cells s (s_y s) i = (if i < length t then t ! i else CHR '' '')"
    using assms(1) by (simp_all add: row_shows_def)
  show ?thesis
    using put_text_row [OF assms(2), of s] assms(3) x by (auto simp: row_shows_def nth_append)
qed

lemma printLogs_row:
  assumes "screen_ok s" "running u" "currentInput u = ''''" "2 < s_width s"
  shows "screen_ok (fold (\<lambda>m. printLog m u) msgs s) \<and> s_width (fold (\<lambda>m. printLog m u) msgs s) = s_width s \<and>
    (msgs \<noteq> [] \<longrightarrow> row_shows ''> '' 2 (fold (\<lambda>m. printLog m u) msgs s))"
proof (induction msgs rule: rev_induct)
  case (snoc m ms)
  have w: "s_width (printLog m u s) = s_width s" for m s
    by (simp add: printLog_def clearInputLine_def restoreInputLine_def SetConsoleCursorPosition_def fill_row_def Let_def)
  let ?s = "fold (\<lambda>m. printLog m u) ms s"
  have "screen_ok (printLog m u ?s) \<and> row_shows (''> '' @ currentInput u) (2 + length (currentInput u)) (printLog m u ?s)"
    using snoc.IH assms by (intro printLog_row) auto
  then show ?case using snoc.IH assms(3) w by simp
qed (use assms in simp)

end
