(* ===== verification/DC_ConsoleTheorems.thy ===== *)
theory DC_ConsoleTheorems
  imports DC_Screen
begin

text \<open>
  The console as the user sees it: what the row of the cursor shows while lines are edited and messages
  come in.
\<close>


definition blank_screen :: screen where
  "blank_screen = \<lparr> s_ok = True, s_width = 80, s_cells = (\<lambda>_ _. CHR '' ''), s_x = 0, s_y = 0 \<rparr>"

lemma blank_screen_ok [simp]:
  "screen_ok blank_screen" "s_x blank_screen = 0" "s_width blank_screen = 80"
  "s_cells blank_screen y x = CHR '' ''"
  by (simp_all add: screen_ok_def blank_below_def blank_screen_def)

lemma prompt_on_blank: "shows_line (startInputLoop ConsoleUI) (draw_start blank_screen)"
proof -
  have "row_shows ''> '' (length ''> '') (put_text ''> '' blank_screen)" by (intro write_line) simp_all
  then have "row_shows ''> '' 2 (draw_start blank_screen)" by (simp add: draw_start_def numeral_2_eq_2)
  moreover have "screen_ok (draw_start blank_screen)"
    using put_text_blank [of blank_screen "''> ''"] blank_screen_ok(1)
    by (simp add: screen_ok_def draw_start_def)
  ultimately show ?thesis by (simp add: shows_line_def startInputLoop_def ConsoleUI_def)
qed


text \<open>
  A message printed while the user types leaves the prompt and the line on the row of the cursor, but
  the cursor at the end of the line: it is where the next character goes just when the user was there.
\<close>

theorem log_keeps_line:
  assumes "console_inv u" "running u" "shows_line u s" "2 + length (con_input u) < s_width s"
  shows "row_shows (''> '' @ con_input u) (2 + length (con_input u)) (printLog msg u s) \<and>
    (shows_line u (printLog msg u s) \<longleftrightarrow> cursorPosition u = length (con_input u))"
proof -
  have c: "currentInput u = con_input u" "screen_ok s" using assms(3) by (simp_all add: shows_line_def)
  have p: "CHR 0x0A \<notin> set (currentInput u)"
    using assms(1) c by (simp add: console_inv_def printable_no_newline)
  show ?thesis
    using printLog_row [OF c(2) assms(2) p, of msg] assms(4) c(1) by (auto simp: shows_line_def row_shows_def)
qed

theorem log_keeps_line_witness:
  "row_shows ''> '' 2 (printLog ''x'' (startInputLoop ConsoleUI) (draw_start blank_screen))"
proof -
  have "console_inv (startInputLoop ConsoleUI)" "running (startInputLoop ConsoleUI)"
    by (simp_all add: startInputLoop_inv) (simp add: startInputLoop_def)
  from log_keeps_line [OF this prompt_on_blank, of "''x''"]
  show ?thesis by (simp add: startInputLoop_def ConsoleUI_def draw_start_def)
qed


text \<open>
  After a line whose command prints something the prompt is there twice: \<open>printLog\<close> writes it with
  the empty line, and the loop writes it again.
\<close>

theorem command_doubles_prompt:
  assumes "running u" "shows_line u s" "con_input u \<noteq> ''''" "msgs \<noteq> []" "4 < s_width s"
    and "input_turn stops (Code 13) u = Inr (line, u')" "running u'"
  shows "row_shows ''> > '' 4 (draw_turn msgs (Code 13) u u' s)"
proof -
  let ?u = "u\<lparr>currentInput := ''''\<rparr>" and ?s = "put_char (CHR 0x0A) s"
  have "screen_ok ?s" using assms(2) put_char_blank by (simp add: shows_line_def screen_ok_def)
  then have l: "row_shows ''> '' 2 (fold (\<lambda>m. printLog m ?u) msgs ?s)" "s_width (fold (\<lambda>m. printLog m ?u) msgs ?s) = s_width s"
    using printLogs_row [of ?s ?u msgs] assms(1,4,5) by simp_all
  have "row_shows (''> '' @ ''> '') (length ''> '' + length ''> '') (put_text ''> '' (fold (\<lambda>m. printLog m ?u) msgs ?s))"
    using l assms(5) by (intro write_on) (simp_all add: numeral_2_eq_2)
  then show ?thesis
    using assms(3,7) by (simp add: draw_turn_def eval_nat_numeral del: put_text_simps)
qed

theorem command_doubles_prompt_witness:
  "\<exists>u u' s line. input_turn (\<lambda>_. False) (Code 13) u = Inr (line, u') \<and> row_shows ''> > '' 4 (draw_turn [''hi''] (Code 13) u u' s)"
proof -
  let ?u0 = "startInputLoop ConsoleUI"
  obtain u where u: "input_turn (\<lambda>_. False) (Code 97) ?u0 = Inr (None, u)" "running u" "con_input u = ''a''"
    by (simp add: input_turn_def handleKeyPress_def str_insert_def startInputLoop_def char_of_eq_iff)
  have i: "console_inv ?u0" "running ?u0" by (simp_all add: startInputLoop_inv) (simp add: startInputLoop_def)
  let ?s = "draw_turn [] (Code 97) ?u0 u (draw_start blank_screen)"
  have s: "shows_line u ?s" "s_width ?s = 80"
    using turn_shows [OF i prompt_on_blank u(1,2)] u(3)
    by (simp_all add: draw_start_def draw_turn_def redrawInputLine_def setCursorPosition_def SetConsoleCursorPosition_def
        fill_row_def Let_def)
  obtain line u' where "input_turn (\<lambda>_. False) (Code 13) u = Inr (line, u')" "running u'"
    using u(2,3) by (simp add: input_turn_def Let_def)
  with command_doubles_prompt [OF u(2) s(1) _ _ _ this] u(3) s(2) show ?thesis by (intro exI conjI) auto
qed

end
