(* ===== verification/DC_Calls.thy ===== *)
theory DC_Calls
  imports DC_Node
begin

text \<open>
  Calls that other threads may interrupt. \<open>db::DBFile\<close> (src/service/db/DBFile.cpp) locks its mutex for
  one statement at a time, so a method of a repository made of two statements is not atomic: between
  them the statements of other threads may run. A \<open>call\<close> is such a method, statement by statement; a
  pool of threads is a list of them. The theory ends with the rely and guarantee rule that the threads of
  the program are checked with.
\<close>

subsection \<open>Calls\<close>

text \<open>A statement changes the state and then, from the state it found, goes on.\<close>

datatype ('s, 'a) call = Return 'a | Stmt "'s \<Rightarrow> 's" "'s \<Rightarrow> ('s, 'a) call"

text \<open>Without interruption.\<close>

primrec run :: "('s, 'a) call \<Rightarrow> 's \<Rightarrow> 'a \<times> 's" where
  "run (Return x) = (\<lambda>s. (x, s))"
| "run (Stmt w k) = (\<lambda>s. run (k s) (w s))"

primrec then_call :: "('s, 'a) call \<Rightarrow> ('a \<Rightarrow> ('s, 'b) call) \<Rightarrow> ('s, 'b) call" where
  "then_call (Return x) f = f x"
| "then_call (Stmt w k) f = Stmt w (\<lambda>s. then_call (k s) f)"

definition ask :: "('s \<Rightarrow> 'a res) \<Rightarrow> ('s, 'a res) call" where
  "ask f = Stmt (\<lambda>s. s) (\<lambda>s. Return (f s))"

definition tell :: "('s \<Rightarrow> ('a \<times> 's) res) \<Rightarrow> ('s, 'a res) call" where
  "tell f = Stmt (\<lambda>s. case f s of Inl _ \<Rightarrow> s | Inr (_, s') \<Rightarrow> s')
     (\<lambda>s. Return (case f s of Inl e \<Rightarrow> Inl e | Inr (x, _) \<Rightarrow> Inr x))"

text \<open>An exception ends a call, or a handler takes it.\<close>

definition seq_call :: "('s, 'a res) call \<Rightarrow> ('a \<Rightarrow> ('s, 'b res) call) \<Rightarrow> ('s, 'b res) call" where
  "seq_call c f = then_call c (\<lambda>r. case r of Inl e \<Rightarrow> Return (Inl e) | Inr x \<Rightarrow> f x)"

definition catch_call :: "('s, 'a res) call \<Rightarrow> (exc \<Rightarrow> 'a res) \<Rightarrow> ('s, 'a res) call" where
  "catch_call c h = then_call c (\<lambda>r. Return (catch_std r h))"

text \<open>A method of the model, which hands back the state it leaves, as what a complete run of it does.\<close>

definition as_run :: "('s \<Rightarrow> ('a \<times> 's) res) \<Rightarrow> 's \<Rightarrow> 'a res \<times> 's" where
  "as_run f s = (case f s of Inl e \<Rightarrow> (Inl e, s) | Inr (x, s') \<Rightarrow> (Inr x, s'))"

lemma run_then [simp]: "run (then_call c f) s = (case run c s of (x, s') \<Rightarrow> run (f x) s')"
  by (induction c arbitrary: s) auto

lemma run_calls [simp]:
  "run (ask g) s = (g s, s)"
  "run (tell w) s = as_run w s"
  "run (seq_call c f) s = (case run c s of (Inl e, s') \<Rightarrow> (Inl e, s') | (Inr x, s') \<Rightarrow> run (f x) s')"
  "run (catch_call c h) s = (case run c s of (r, s') \<Rightarrow> (catch_std r h, s'))"
  by (auto simp: ask_def tell_def seq_call_def catch_call_def as_run_def split: sum.split prod.split)

subsection \<open>Interleaving\<close>

inductive thread_step :: "('s, 'a) call list \<times> 's \<Rightarrow> ('s, 'a) call list \<times> 's \<Rightarrow> bool" where
  thread_step: "i < length cs \<Longrightarrow> cs ! i = Stmt w k \<Longrightarrow> thread_step (cs, s) (cs[i := k s], w s)"

inductive_cases thread_stepE: "thread_step (cs, s) p"

text \<open>One thread alone does what \<open>run\<close> does.\<close>

lemma run_is_alone: "thread_step\<^sup>*\<^sup>* ([c], s) ([Return (fst (run c s))], snd (run c s))"
proof (induction c arbitrary: s)
  case (Stmt w k)
  have "thread_step ([Stmt w k], s) ([Stmt w k][0 := k s], w s)" by (rule thread_step) simp_all
  with Stmt [of "k s" "w s"] show ?case by (auto intro: converse_rtranclp_into_rtranclp)
qed simp

lemma alone_is_run:
  assumes "thread_step\<^sup>*\<^sup>* ([c], s) (cs, t)"
  shows "\<exists>d. cs = [d] \<and> run d t = run c s"
  using assms
proof (induction "(cs, t)" arbitrary: cs t rule: rtranclp_induct)
  case (step y)
  obtain d u where y: "y = ([d], u)" "run d u = run c s" using step by (cases y) auto
  with step(2) show ?case by (auto elim!: thread_stepE)
qed simp

text \<open>A thread of a pool can run to its end.\<close>

lemma pool_run:
  "i < length cs \<Longrightarrow> cs ! i = c \<Longrightarrow> thread_step\<^sup>*\<^sup>* (cs, s) (cs[i := Return (fst (run c s))], snd (run c s))"
proof (induction c arbitrary: cs s)
  case (Return x)
  then have "cs[i := Return x] = cs" by (metis list_update_id)
  then show ?case by simp
next
  case (Stmt w k)
  then have "thread_step (cs, s) (cs[i := k s], w s)" by (intro thread_step)
  with Stmt.IH [of "k s" "cs[i := k s]" "w s"] Stmt.prems show ?case
    by (auto intro: converse_rtranclp_into_rtranclp)
qed

subsection \<open>Rely and guarantee\<close>

text \<open>
  A call is safe if each of its statements, run in any state its environment may have made of the one
  before, keeps the invariant and changes the state as it guarantees.
\<close>

primrec safe ::
  "('s \<Rightarrow> bool) \<Rightarrow> ('s \<Rightarrow> 's \<Rightarrow> bool) \<Rightarrow> ('s \<Rightarrow> 's \<Rightarrow> bool) \<Rightarrow> ('s, 'a) call \<Rightarrow> 's \<Rightarrow> bool" where
  "safe I R G (Return x) = (\<lambda>s. True)"
| "safe I R G (Stmt w k) = (\<lambda>s. \<forall>t. I t \<and> R s t \<longrightarrow> I (w t) \<and> G t (w t) \<and> safe I R G (k t) (w t))"

locale rely_guarantee =
  fixes I :: "'s \<Rightarrow> bool" and R G :: "nat \<Rightarrow> 's \<Rightarrow> 's \<Rightarrow> bool" and T :: "'s \<Rightarrow> 's \<Rightarrow> bool"
  assumes rely_refl: "R i s s"
    and rely_trans: "R i s t \<Longrightarrow> R i t u \<Longrightarrow> R i s u"
    and compatible: "G i s t \<Longrightarrow> i \<noteq> j \<Longrightarrow> R j s t"
    and overall: "G i s t \<Longrightarrow> T s t"
    and overall_refl: "T s s"
    and overall_trans: "T s t \<Longrightarrow> T t u \<Longrightarrow> T s u"
begin

lemma safe_later: "safe I (R i) (G i) c s \<Longrightarrow> R i s t \<Longrightarrow> safe I (R i) (G i) c t"
  using rely_trans by (cases c) auto

lemma safe_then:
  "safe I (R i) (G i) c s \<Longrightarrow> I s \<Longrightarrow> (\<And>x t. I t \<Longrightarrow> safe I (R i) (G i) (f x) t) \<Longrightarrow>
   safe I (R i) (G i) (then_call c f) s"
  by (induction c arbitrary: s) auto

lemma safe_seq:
  "safe I (R i) (G i) c s \<Longrightarrow> I s \<Longrightarrow> (\<And>x t. I t \<Longrightarrow> safe I (R i) (G i) (f x) t) \<Longrightarrow>
   safe I (R i) (G i) (seq_call c f) s"
  unfolding seq_call_def by (rule safe_then) (auto split: sum.split)

lemma safe_catch: "safe I (R i) (G i) c s \<Longrightarrow> I s \<Longrightarrow> safe I (R i) (G i) (catch_call c h) s"
  unfolding catch_call_def by (rule safe_then) auto

lemma pool_step:
  assumes "thread_step (cs, s) (cs', s')" "I s" "\<forall>i < length cs. safe I (R i) (G i) (cs ! i) s"
  shows "I s' \<and> T s s' \<and> length cs' = length cs \<and> (\<forall>i < length cs'. safe I (R i) (G i) (cs' ! i) s')"
proof -
  obtain i w k where i: "i < length cs" "cs ! i = Stmt w k" "cs' = cs[i := k s]" "s' = w s"
    using assms(1) by (auto elim: thread_stepE)
  have "safe I (R i) (G i) (Stmt w k) s" using assms(3) i(1,2) by metis
  then have w: "I (w s)" "G i s (w s)" "safe I (R i) (G i) (k s) (w s)"
    using assms(2) rely_refl by auto
  then have "safe I (R j) (G j) (cs ! j) (w s)" if "j < length cs" "j \<noteq> i" for j
    using assms(3) that safe_later compatible by metis
  then show ?thesis using w i overall by (auto simp: nth_list_update)
qed

text \<open>However the threads interleave.\<close>

lemma pool_safe:
  assumes "thread_step\<^sup>*\<^sup>* (cs, s) (cs', s')" "I s" "\<forall>i < length cs. safe I (R i) (G i) (cs ! i) s"
  shows "I s' \<and> T s s' \<and> length cs' = length cs \<and> (\<forall>i < length cs'. safe I (R i) (G i) (cs' ! i) s')"
  using assms(1)
proof (induction "(cs', s')" arbitrary: cs' s' rule: rtranclp_induct)
  case base
  then show ?case using assms(2,3) overall_refl by simp
next
  case (step y)
  obtain ds t where y: "y = (ds, t)" by (cases y)
  with step have "I t \<and> T s t \<and> length ds = length cs \<and> (\<forall>i < length ds. safe I (R i) (G i) (ds ! i) t)" by blast
  with pool_step [of ds t cs' s'] step(2) y overall_trans show ?case by metis
qed

end

end
