(* ===== verification/DC_Threads.thy ===== *)
theory DC_Threads
  imports DC_Calls DC_Steps "HOL-Library.Sublist"
begin

text \<open>
  The methods of the SQLite repositories statement by statement (src/infra/blockchain/ChainDB.cpp,
  src/infra/peer/PeerDB.cpp), and what holds when the threads of a node interleave at their statements:
  the server thread handles requests while the input thread runs the commands of the user.
\<close>

subsection \<open>The methods as calls\<close>

definition insert_block_stmt :: "sqlite \<Rightarrow> block \<Rightarrow> (db, bool res) call" where
  "insert_block_stmt Q b =
     tell (DBFile_executePrepared Q (sql_insert_block Q)
       [hash b, previousHash b, payloadHash b, authorPublicKey b, signature b,
        to_string (unat (timestamp b))])"

definition insertBlock_call :: "sqlite \<Rightarrow> block \<Rightarrow> (db, bool res) call" where
  "insertBlock_call Q b =
     (if previousHash b \<noteq> ''0'' then
        seq_call (ask (\<lambda>d. DBFile_selectPrepared Q sql_by_previous [previousHash b] set_found d False)) (\<lambda>found.
          if found then Return (Inr False) else insert_block_stmt Q b)
      else insert_block_stmt Q b)"

definition addPeer_call :: "sqlite \<Rightarrow> user_peer \<Rightarrow> (db, unit res) call" where
  "addPeer_call Q p =
     seq_call (ask (\<lambda>d. DBFile_selectPrepared Q sql_peer_by_key [publicKey p]
                 (\<lambda>row found. Inr (if row \<noteq> [] then True else found)) d False)) (\<lambda>found.
       if \<not> found
       then tell (\<lambda>d. bnd (DBFile_executePrepared Q (sql_insert_peer Q)
              [host p, to_string (unat (port p)), publicKey p] d) (\<lambda>(_, d'). Inr ((), d')))
       else Return (Inr ()))"

definition getBlocksByIndexRange_call ::
  "sqlite \<Rightarrow> u32 \<Rightarrow> u32 \<Rightarrow> string \<Rightarrow> block list \<Rightarrow> (db, block list res) call" where
  "getBlocksByIndexRange_call Q start n lastHash out =
     (if lastHash = ''0'' then
        ask (\<lambda>d. DBFile_selectPrepared Q (\<lambda>_. sql_limit_offset (unat n) (unat start))
          [to_string (unat n), to_string (unat start)] emplace_block d out)
      else
        seq_call (ask (\<lambda>d. DBFile_selectPrepared Q (sql_by_hash id_column) [lastHash] set_index d (False, 0)))
          (\<lambda>(found, lastBlockIndex).
            if \<not> found then Return (Inr out)
            else
              let startIndex = (word_of_nat lastBlockIndex + 1 + ucast start :: u64)
              in ask (\<lambda>d. DBFile_selectPrepared Q (\<lambda>_. sql_from_id (unat startIndex) (unat n))
                   [to_string (unat startIndex), to_string (unat n)] emplace_block d out)))"

definition validateIncomingBlock_call ::
  "(bytes \<Rightarrow> bytes) \<Rightarrow> ICrypto \<Rightarrow> sqlite \<Rightarrow> u64 \<Rightarrow> block \<Rightarrow> (db, string option res) call" where
  "validateIncomingBlock_call SHA256 C Q currentTimestamp b =
     seq_call (Return (validateSingleBlock SHA256 C b)) (\<lambda>error.
       case error of
         Some e \<Rightarrow> Return (Inr (Some e))
       | None \<Rightarrow>
           if timestamp b > currentTimestamp + 300000
           then Return (Inr (Some ''Block timestamp is too far in the future''))
           else
             seq_call (ask (ChainDB_findTip Q Block)) (\<lambda>(_, tip).
             seq_call (if previousHash b \<noteq> hash tip
                  then seq_call (ask (ChainDB_findBlockByHash Q (previousHash b) Block)) (\<lambda>(found, prevBlock).
                         if \<not> found then Return (Inr (Some ''Previous block not found in local chain''))
                         else if hash prevBlock \<noteq> hash tip
                         then Return (Inr (Some ''Block extends non-tip block (fork detected)''))
                         else Return (Inr None))
                  else Return (Inr None)) (\<lambda>link.
               case link of
                 Some e \<Rightarrow> Return (Inr (Some e))
               | None \<Rightarrow>
                   seq_call (ask (ChainDB_hasBlock Q (hash b))) (\<lambda>known.
                     if known then Return (Inr (Some ''Block already exists in local chain''))
                     else Return (Inr None)))))"

definition onIncomingBlock_call ::
  "('j, 'x) json_lib_scheme \<Rightarrow> (bytes \<Rightarrow> bytes) \<Rightarrow> ICrypto \<Rightarrow> sqlite \<Rightarrow> config_data \<Rightarrow>
   u64 \<Rightarrow> string \<Rightarrow> u64 \<Rightarrow> 'j \<Rightarrow> (db, string res) call" where
  "onIncomingBlock_call J SHA256 C Q cfg now uuid ts jData =
     seq_call (Return (local_peer cfg)) (\<lambda>me.
       catch_call
         (seq_call (Return (Block_of_json J jData)) (\<lambda>b.
          seq_call (validateIncomingBlock_call SHA256 C Q now b) (\<lambda>error.
            case error of
              Some e \<Rightarrow> Return (block_error_response J uuid ts me e (hash b))
            | None \<Rightarrow> seq_call (insertBlock_call Q b) (\<lambda>_. Return (Inr ''{}'')))))
         (\<lambda>e. block_error_response J uuid ts me (what e) ''-1''))"

definition storeAndBroadcastBlock_call ::
  "('j, 'x) json_lib_scheme \<Rightarrow> sqlite \<Rightarrow> block \<Rightarrow> user_peer list \<Rightarrow>
   (string \<Rightarrow> user_peer \<Rightarrow> bool res) \<Rightarrow> (db, (bool \<times> user_peer list) res) call" where
  "storeAndBroadcastBlock_call J Q b ps send =
     seq_call (Return (json_dump J (Block_toJson J b))) (\<lambda>rawJson.
     seq_call (Return (broadcast send rawJson ps)) (\<lambda>(ok, sent).
       if \<not> ok then Return (Inr (False, sent))
       else seq_call (insertBlock_call Q b) (\<lambda>stored. Return (Inr (stored, sent)))))"

text \<open>
  What \<open>TCPClient::sendSecretMessage\<close> does to the chain: the block is made on the tip, sent and stored.
\<close>

definition publish_call ::
  "('j, 'x) json_lib_scheme \<Rightarrow> (bytes \<Rightarrow> bytes) \<Rightarrow> ICrypto \<Rightarrow> sqlite \<Rightarrow> config_data \<Rightarrow> text_message \<Rightarrow>
   user_peer list \<Rightarrow> (string \<Rightarrow> user_peer \<Rightarrow> bool res) \<Rightarrow> (db, (bool \<times> user_peer list) res) call" where
  "publish_call J SHA256 C Q cfg m ps send =
     seq_call (ask (createBlockFromMessage SHA256 C (ChainDB Q) cfg m Block)) (\<lambda>b.
       storeAndBroadcastBlock_call J Q b ps send)"

subsection \<open>Without interruption they are the methods\<close>

lemma run_insertBlock: "run (insertBlock_call Q b) d = as_run (ChainDB_insertBlock Q b) d"
  by (auto simp: insertBlock_call_def insert_block_stmt_def ChainDB_insertBlock_def as_run_def bnd_def
      split: sum.split)

lemma run_addPeer:
  "run (addPeer_call Q p) d = as_run (\<lambda>d. bnd (PeerDB_addPeer Q p d) (\<lambda>d'. Inr ((), d'))) d"
  by (auto simp: addPeer_call_def PeerDB_addPeer_def as_run_def bnd_def split: sum.split prod.split)

lemma run_range:
  "run (getBlocksByIndexRange_call Q start n h out) d = (ChainDB_getBlocksByIndexRange Q start n h d out, d)"
  by (auto simp: getBlocksByIndexRange_call_def ChainDB_getBlocksByIndexRange_def bnd_def Let_def
      split: sum.split prod.split)

lemma run_validateIncoming:
  "run (validateIncomingBlock_call S C Q now b) d = (validateIncomingBlock S C (ChainDB Q) now b d, d)"
  by (auto simp: validateIncomingBlock_call_def validateIncomingBlock_def bnd_def ChainDB_def
      split: sum.split prod.split option.split)

lemma run_onIncomingBlock:
  "run (onIncomingBlock_call J S C Q cfg now uuid ts j) d = as_run (onIncomingBlock J S C (ChainDB Q) cfg now uuid ts j) d"
  by (auto simp: onIncomingBlock_call_def onIncomingBlock_def run_validateIncoming run_insertBlock as_run_def
      bnd_def catch_std_def ChainDB_def split: sum.splits prod.splits option.splits)

lemma run_storeAndBroadcast:
  "run (storeAndBroadcastBlock_call J Q b ps send) d =
     as_run (\<lambda>d. bnd (storeAndBroadcastBlock J (ChainDB Q) b ps send d) (\<lambda>(r, sent, d'). Inr ((r, sent), d'))) d"
  by (auto simp: storeAndBroadcastBlock_call_def storeAndBroadcastBlock_def run_insertBlock as_run_def
      bnd_def ChainDB_def split: sum.splits prod.splits)

subsection \<open>The invariant of the tables when methods are not atomic\<close>

text \<open>All of the invariant of the chain table but that no two blocks have the same predecessor.\<close>

definition chain_rows_inv :: "sqlite \<Rightarrow> db \<Rightarrow> bool" where
  "chain_rows_inv Q d \<longleftrightarrow> db_ready d \<and>
     (\<exists>tab. blocks_t (db_data d) = Some tab \<and>
        map br_id (trows tab) = [1..<Suc (length (trows tab))] \<and>
        tseq tab = length (trows tab) \<and>
        (\<forall>r \<in> set (trows tab). row_ok Q r) \<and>
        distinct (map br_hash (trows tab)))"

definition fork_free :: "db \<Rightarrow> bool" where
  "fork_free d \<longleftrightarrow> distinct (filter (\<lambda>p. p \<noteq> ''0'') (map br_previous_hash (block_rows d)))"

lemma chain_db_inv_iff: "chain_db_inv Q d \<longleftrightarrow> chain_rows_inv Q d \<and> fork_free d"
  by (auto simp: chain_db_inv_def chain_rows_inv_def fork_free_def block_rows_def)

definition db_ok :: "sqlite \<Rightarrow> bool \<Rightarrow> db \<Rightarrow> bool" where
  "db_ok Q races d \<longleftrightarrow> chain_rows_inv Q d \<and> (races \<or> fork_free d) \<and> message_db_inv d \<and> peer_db_inv Q d"

text \<open>Rows of blocks and peers are only appended.\<close>

definition grows :: "db \<Rightarrow> db \<Rightarrow> bool" where
  "grows d d' \<longleftrightarrow> prefix (block_rows d) (block_rows d') \<and> prefix (peer_rows d) (peer_rows d')"

lemma grows_refl [simp]: "grows d d"
  and grows_trans: "grows d d' \<Longrightarrow> grows d' d'' \<Longrightarrow> grows d d''"
  by (auto simp: grows_def)

lemma grows_chain: "grows d d' \<Longrightarrow> \<exists>l. db_chain d' = db_chain d @ l"
  by (auto simp: grows_def prefix_def db_chain_def)

lemma row_views:
  fixes d :: db
  shows "chain_rows_inv Q (d\<lparr>db_data := (db_data d)\<lparr>messages_t := m\<rparr>\<rparr>) = chain_rows_inv Q d"
    "chain_rows_inv Q (d\<lparr>db_data := (db_data d)\<lparr>peers_t := p\<rparr>\<rparr>) = chain_rows_inv Q d"
    "block_rows (d\<lparr>db_data := (db_data d)\<lparr>messages_t := m\<rparr>\<rparr>) = block_rows d"
    "block_rows (d\<lparr>db_data := (db_data d)\<lparr>peers_t := p\<rparr>\<rparr>) = block_rows d"
    "peer_rows (d\<lparr>db_data := (db_data d)\<lparr>messages_t := m\<rparr>\<rparr>) = peer_rows d"
    "peer_rows (d\<lparr>db_data := (db_data d)\<lparr>blocks_t := b\<rparr>\<rparr>) = peer_rows d"
    "fork_free (d\<lparr>db_data := (db_data d)\<lparr>messages_t := m\<rparr>\<rparr>) = fork_free d"
    "fork_free (d\<lparr>db_data := (db_data d)\<lparr>peers_t := p\<rparr>\<rparr>) = fork_free d"
  by (simp_all add: chain_rows_inv_def block_rows_def peer_rows_def fork_free_def)

text \<open>The statement that inserts a block, by itself.\<close>

lemma insert_statement_rows:
  assumes inv: "chain_rows_inv Q d" and timely: "db_timely Q b"
  shows "\<exists>ok t d'. DBFile_executePrepared Q (sql_insert_block Q)
      [hash b, previousHash b, payloadHash b, authorPublicKey b, signature b,
       to_string (unat (timestamp b))] d = Inr (ok, d') \<and>
    d' = d\<lparr>db_data := (db_data d)\<lparr>blocks_t := t\<rparr>\<rparr> \<and> chain_rows_inv Q d' \<and>
    ok = (c_str (hash b) \<notin> hash ` set (db_chain d)) \<and>
    block_rows d' = (if ok then block_rows d @ [new_row Q (Suc (length (block_rows d))) b] else block_rows d)"
proof -
  obtain tab where tab: "db_ready d" "blocks_t (db_data d) = Some tab"
    "map br_id (trows tab) = [1..<Suc (length (trows tab))]" "tseq tab = length (trows tab)"
    "\<forall>r \<in> set (trows tab). row_ok Q r" "distinct (map br_hash (trows tab))"
    using inv by (auto simp: chain_rows_inv_def)
  have rows: "block_rows d = trows tab" by (simp add: block_rows_def tab(2))
  have h: "hash ` set (db_chain d) = br_hash ` set (trows tab)"
    by (auto simp: db_chain_rows [OF tab(2)] image_image)
  show ?thesis
  proof (cases "c_str (hash b) \<in> br_hash ` set (trows tab)")
    case True
    then have "DBFile_executePrepared Q (sql_insert_block Q)
      [hash b, previousHash b, payloadHash b, authorPublicKey b, signature b,
       to_string (unat (timestamp b))] d = Inr (False, d)"
      by (simp add: insert_statement [OF tab(1,2)])
    moreover have "d\<lparr>db_data := (db_data d)\<lparr>blocks_t := blocks_t (db_data d)\<rparr>\<rparr> = d"
      by simp
    ultimately show ?thesis
      using True inv unfolding h
      by (intro exI [of _ False] exI [of _ "blocks_t (db_data d)"] exI [of _ d]) simp
  next
    case False
    let ?t = "Some \<lparr> trows = trows tab @ [new_row Q (Suc (tseq tab)) b], tseq = Suc (tseq tab)\<rparr>"
    let ?d' = "d\<lparr>db_data := (db_data d)\<lparr>blocks_t := ?t\<rparr>\<rparr>"
    have "DBFile_executePrepared Q (sql_insert_block Q)
      [hash b, previousHash b, payloadHash b, authorPublicKey b, signature b,
       to_string (unat (timestamp b))] d = Inr (True, ?d')"
      using False by (simp add: insert_statement [OF tab(1,2)])
    moreover have "chain_rows_inv Q ?d'"
      using tab new_row_block(2) [OF timely] False by (auto simp: chain_rows_inv_def)
    moreover have "block_rows ?d' = block_rows d @ [new_row Q (Suc (length (block_rows d))) b]"
      by (simp add: block_rows_def tab(2,4))
    ultimately show ?thesis
      using False unfolding h by (intro exI [of _ True] exI [of _ ?t] exI [of _ ?d']) simp
  qed
qed

lemma select_previous_rows:
  assumes "chain_rows_inv Q d"
  shows "DBFile_selectPrepared Q sql_by_previous [p] set_found d False =
    Inr (c_str p \<in> br_previous_hash ` set (block_rows d))"
proof -
  obtain tab where tab: "db_ready d" "blocks_t (db_data d) = Some tab" "block_rows d = trows tab"
    using assms by (auto simp: chain_rows_inv_def block_rows_def)
  have "fold_res set_found
      (map (map column_text) (map (\<lambda>r. Some (to_string (br_id r)) # block_columns r)
        (filter (\<lambda>r. br_previous_hash r = c_str p) (trows tab)))) False =
      Inr (filter (\<lambda>r. br_previous_hash r = c_str p) (trows tab) \<noteq> [])"
    by (subst fold_set_found) auto
  moreover have "filter (\<lambda>r. br_previous_hash r = c_str p) (trows tab) \<noteq> [] \<longleftrightarrow>
      c_str p \<in> br_previous_hash ` set (trows tab)"
    by (force simp: filter_empty_conv)
  ultimately show ?thesis
    by (simp add: selectPrepared_ready tab sql_by_previous_def with_blocks_def)
qed

lemma load_rows:
  assumes "chain_rows_inv Q d"
  shows "ChainDB_loadAllBlocks Q d out = Inr (out @ db_chain d)"
  using assms emplace_rows [of _ Q]
  by (auto simp: chain_rows_inv_def ChainDB_loadAllBlocks_def select_ready with_blocks_def db_chain_rows)

subsection \<open>What the threads of a node do to the database\<close>

text \<open>One method of a repository, from start to end.\<close>

inductive repo_effect :: "sqlite \<Rightarrow> db \<Rightarrow> db \<Rightarrow> bool" for Q where
  effect_block: "db_timely Q b \<Longrightarrow> ChainDB_insertBlock Q b d = Inr (ok, d') \<Longrightarrow> repo_effect Q d d'"
| effect_peer: "PeerDB_addPeer Q p d = Inr d' \<Longrightarrow> repo_effect Q d d'"
| effect_keep: "MessageDB_insertSecretMessage Q m dump h d = Inr (ok, d') \<Longrightarrow> repo_effect Q d d'"
| effect_remove: "MessageDB_removeMessageByBlockHash Q h d = Inr (ok, d') \<Longrightarrow> repo_effect Q d d'"
| effect_remove_id: "MessageDB_removeMessageById Q i d = Inr (ok, d') \<Longrightarrow> repo_effect Q d d'"

text \<open>
  Threads that call the repositories, and read in between as they like: what a thread does next may
  depend on all it has read. \<open>ins\<close> says whether it inserts blocks.
\<close>

inductive db_thread :: "sqlite \<Rightarrow> bool \<Rightarrow> (db, 'a) call \<Rightarrow> bool" for Q ins where
  thread_done: "db_thread Q ins (Return x)"
| thread_read: "(\<And>d. db_thread Q ins (k d)) \<Longrightarrow> db_thread Q ins (Stmt (\<lambda>d. d) k)"
| thread_block: "ins \<Longrightarrow> db_timely Q b \<Longrightarrow> (\<And>r. db_thread Q ins (f r)) \<Longrightarrow>
    db_thread Q ins (then_call (insertBlock_call Q b) f)"
| thread_contact: "(\<And>r. db_thread Q ins (f r)) \<Longrightarrow> db_thread Q ins (then_call (addPeer_call Q p) f)"
| thread_keep: "(\<And>r. db_thread Q ins (f r)) \<Longrightarrow>
    db_thread Q ins (then_call (tell (MessageDB_insertSecretMessage Q m dump h)) f)"
| thread_remove: "(\<And>r. db_thread Q ins (f r)) \<Longrightarrow>
    db_thread Q ins (then_call (tell (MessageDB_removeMessageByBlockHash Q h)) f)"
| thread_remove_id: "(\<And>r. db_thread Q ins (f r)) \<Longrightarrow>
    db_thread Q ins (then_call (tell (MessageDB_removeMessageById Q i)) f)"

text \<open>
  Either any thread inserts blocks (\<open>races\<close>), or only the first one of the pool does.
\<close>

definition rely :: "bool \<Rightarrow> nat \<Rightarrow> db \<Rightarrow> db \<Rightarrow> bool" where
  "rely races i d d' \<longleftrightarrow> grows d d' \<and> (\<not> races \<and> i = 0 \<longrightarrow> block_rows d' = block_rows d)"

definition guar :: "sqlite \<Rightarrow> bool \<Rightarrow> nat \<Rightarrow> db \<Rightarrow> db \<Rightarrow> bool" where
  "guar Q races i d d' \<longleftrightarrow> grows d d' \<and>
     (races \<or> (i \<noteq> 0 \<longrightarrow> block_rows d' = block_rows d) \<and> (repo_effect Q)\<^sup>=\<^sup>= d d')"

definition overall :: "sqlite \<Rightarrow> bool \<Rightarrow> db \<Rightarrow> db \<Rightarrow> bool" where
  "overall Q races d d' \<longleftrightarrow> grows d d' \<and> (races \<or> (repo_effect Q)\<^sup>*\<^sup>* d d')"

interpretation db_pool: rely_guarantee "db_ok Q races" "rely races" "guar Q races" "overall Q races" for Q races
proof unfold_locales
  show "overall Q races d d'" if "guar Q races i d d'" for i d d'
    using that by (auto simp: guar_def overall_def)
  show "rely races j d d'" if "guar Q races i d d'" "i \<noteq> j" for i j d d'
    using that by (auto simp: guar_def rely_def)
qed (auto simp: rely_def overall_def intro: grows_trans rtranclp_trans)

lemma guar_same [simp]: "guar Q races i d d"
  by (simp add: guar_def)

text \<open>The single statements.\<close>

lemma keep_statement:
  assumes "db_ok Q races d" "\<exists>ok d'. f d = Inr (ok, d') \<and> message_db_inv d'"
    and "\<And>d ok d'. f d = Inr (ok, d') \<Longrightarrow> (\<exists>t. d' = d\<lparr>db_data := (db_data d)\<lparr>messages_t := t\<rparr>\<rparr>) \<and> repo_effect Q d d'"
  shows "\<exists>ok d'. f d = Inr (ok, d') \<and> db_ok Q races d' \<and> guar Q races i d d'"
proof -
  obtain ok d' where d': "f d = Inr (ok, d')" "message_db_inv d'" using assms(2) by blast
  obtain t where t: "d' = d\<lparr>db_data := (db_data d)\<lparr>messages_t := t\<rparr>\<rparr>" and e: "repo_effect Q d d'"
    using assms(3) [OF d'(1)] by blast
  have "db_ok Q races d'" using assms(1) d'(2) by (simp add: t db_ok_def row_views)
  moreover have "guar Q races i d d'" using e by (simp add: guar_def grows_def row_views t)
  ultimately show ?thesis using d'(1) by blast
qed

lemma message_frames:
  "MessageDB_insertSecretMessage Q m dump h d = Inr (ok, d') \<Longrightarrow> \<exists>t. d' = d\<lparr>db_data := (db_data d)\<lparr>messages_t := t\<rparr>\<rparr>"
  "MessageDB_removeMessageByBlockHash Q h d = Inr (ok, d') \<Longrightarrow> \<exists>t. d' = d\<lparr>db_data := (db_data d)\<lparr>messages_t := t\<rparr>\<rparr>"
  "MessageDB_removeMessageById Q i d = Inr (ok, d') \<Longrightarrow> \<exists>t. d' = d\<lparr>db_data := (db_data d)\<lparr>messages_t := t\<rparr>\<rparr>"
  unfolding MessageDB_insertSecretMessage_def MessageDB_removeMessageByBlockHash_def MessageDB_removeMessageById_def
  by (erule message_frame_db, erule sql_writes)+

lemma message_statements:
  assumes "db_ok Q races d"
  shows "\<exists>ok d'. MessageDB_insertSecretMessage Q m dump h d = Inr (ok, d') \<and> db_ok Q races d' \<and> guar Q races i d d'"
    and "\<exists>ok d'. MessageDB_removeMessageByBlockHash Q h d = Inr (ok, d') \<and> db_ok Q races d' \<and> guar Q races i d d'"
    and "\<exists>ok d'. MessageDB_removeMessageById Q k d = Inr (ok, d') \<and> db_ok Q races d' \<and> guar Q races i d d'"
proof -
  have m: "message_db_inv d" using assms by (simp add: db_ok_def)
  show "\<exists>ok d'. MessageDB_insertSecretMessage Q m dump h d = Inr (ok, d') \<and> db_ok Q races d' \<and> guar Q races i d d'"
    by (rule keep_statement [OF assms])
      (use MessageDB_insert [OF m] in blast, rule conjI, erule message_frames, erule repo_effect.intros)
  show "\<exists>ok d'. MessageDB_removeMessageByBlockHash Q h d = Inr (ok, d') \<and> db_ok Q races d' \<and> guar Q races i d d'"
    by (rule keep_statement [OF assms])
      (use MessageDB_remove_block [OF m] in blast, rule conjI, erule message_frames, erule repo_effect.intros)
  show "\<exists>ok d'. MessageDB_removeMessageById Q k d = Inr (ok, d') \<and> db_ok Q races d' \<and> guar Q races i d d'"
    by (rule keep_statement [OF assms])
      (use MessageDB_remove_id [OF m] in blast, rule conjI, erule message_frames, erule repo_effect.intros)
qed

text \<open>
  The \<open>INSERT\<close> of a peer whose \<open>SELECT\<close> ran earlier is \<open>addPeer\<close> at its own moment: if the key has come
  in meanwhile, \<open>UNIQUE\<close> refuses it.
\<close>

lemma contact_statement:
  fixes p :: user_peer
  assumes "db_ok Q races d"
  shows "\<exists>d'. bnd (DBFile_executePrepared Q (sql_insert_peer Q)
      [host p, to_string (unat (port p)), publicKey p] d) (\<lambda>(_, d'). Inr ((), d')) = Inr ((), d') \<and>
    db_ok Q races d' \<and> guar Q races i d d'"
proof -
  have inv: "peer_db_inv Q d" using assms by (simp add: db_ok_def)
  then obtain tab where tab: "db_ready d" "peers_t (db_data d) = Some tab" by (rule peer_db_invE)
  let ?x = "DBFile_executePrepared Q (sql_insert_peer Q) [host p, to_string (unat (port p)), publicKey p] d"
  show ?thesis
  proof (cases "c_str (publicKey p) \<in> pr_public_key ` set (trows tab)")
    case True
    then have "?x = Inr (False, d)"
      by (subst executePrepared_ready [OF tab(1), where ok = False and t = "db_data d"])
        (auto simp: sql_insert_peer_def tab(2))
    then show ?thesis using assms by simp
  next
    case False
    then have add: "PeerDB_addPeer Q p d = bnd ?x (\<lambda>(_, d'). Inr d')"
      by (simp add: PeerDB_addPeer_def peer_selected [OF tab])
    then obtain ok d' where x: "?x = Inr (ok, d')" "PeerDB_addPeer Q p d = Inr d'" "peer_db_inv Q d'"
      using PeerDB_add [OF inv, of p] by (cases ?x) auto
    obtain t where t: "d' = d\<lparr>db_data := (db_data d)\<lparr>peers_t := t\<rparr>\<rparr>"
      using peer_frame_db [OF x(2)] by blast
    have "prefix (peer_rows d) (peer_rows d')"
      using executePrepared_Inr [OF x(1)] by (auto simp: sql_insert_peer_def peer_rows_def tab(2) split: if_splits)
    then have "grows d d'" "block_rows d' = block_rows d" by (simp_all add: grows_def t row_views)
    moreover have "db_ok Q races d'" using assms x(3) by (simp add: db_ok_def t row_views)
    ultimately show ?thesis using x effect_peer [OF x(2)] by (auto simp: guar_def)
  qed
qed

text \<open>
  The \<open>INSERT\<close> of a block is \<open>insertBlock\<close> at its own moment only as long as no block with its
  predecessor has come in.
\<close>

lemma block_statement:
  assumes d: "db_ok Q races d" and b: "db_timely Q b" and i: "races \<or> i = 0"
    and free: "races \<or> previousHash b = ''0'' \<or> c_str (previousHash b) \<notin> br_previous_hash ` set (block_rows d)"
  shows "\<exists>ok d'. DBFile_executePrepared Q (sql_insert_block Q)
      [hash b, previousHash b, payloadHash b, authorPublicKey b, signature b,
       to_string (unat (timestamp b))] d = Inr (ok, d') \<and> db_ok Q races d' \<and> guar Q races i d d'"
proof -
  let ?x = "DBFile_executePrepared Q (sql_insert_block Q)
    [hash b, previousHash b, payloadHash b, authorPublicKey b, signature b, to_string (unat (timestamp b))] d"
  have inv: "chain_rows_inv Q d" using d by (simp add: db_ok_def)
  obtain ok t d' where x: "?x = Inr (ok, d')" "d' = d\<lparr>db_data := (db_data d)\<lparr>blocks_t := t\<rparr>\<rparr>"
    "chain_rows_inv Q d'"
    "block_rows d' = (if ok then block_rows d @ [new_row Q (Suc (length (block_rows d))) b] else block_rows d)"
    using insert_statement_rows [OF inv b] by blast
  have "races \<or> fork_free d'"
    using d free unfolding fork_free_def x(4) by (auto simp: db_ok_def fork_free_def c_str_def)
  then have "db_ok Q races d'" using d x(2,3) by (simp add: db_ok_def)
  moreover have g: "grows d d'" using x(4) by (simp add: grows_def x(2) row_views)
  have e: "repo_effect Q d d'" if "\<not> races"
  proof (rule effect_block [OF b])
    have "(if previousHash b \<noteq> ''0''
        then DBFile_selectPrepared Q sql_by_previous [previousHash b] set_found d False
        else Inr False) = Inr False"
      using free that by (cases "previousHash b = ''0''") (simp_all add: select_previous_rows [OF inv])
    then show "ChainDB_insertBlock Q b d = Inr (ok, d')"
      unfolding ChainDB_insertBlock_def by (simp only: bnd_simps x(1)) simp
  qed
  have "guar Q races i d d'" using g e i by (auto simp: guar_def)
  ultimately show ?thesis using x(1) by blast
qed

abbreviation safe_thread :: "sqlite \<Rightarrow> bool \<Rightarrow> nat \<Rightarrow> (db, 'a) call \<Rightarrow> db \<Rightarrow> bool" where
  "safe_thread Q races i \<equiv> safe (db_ok Q races) (rely races i) (guar Q races i)"

lemma safe_tell:
  assumes "\<And>t. db_ok Q races t \<Longrightarrow> rely races i d t \<Longrightarrow>
    \<exists>x d'. f t = Inr (x, d') \<and> db_ok Q races d' \<and> guar Q races i t d'"
  shows "safe_thread Q races i (tell f) d"
  using assms by (fastforce simp: tell_def)

lemma safe_ask_then:
  assumes "\<And>t. db_ok Q races t \<Longrightarrow> safe_thread Q races i (case g t of Inl e \<Rightarrow> Return (Inl e) | Inr x \<Rightarrow> f x) t"
  shows "safe_thread Q races i (seq_call (ask g) f) d"
  using assms by (simp add: seq_call_def ask_def)

lemma safe_insertBlock:
  assumes "db_timely Q b" "races \<or> i = 0"
  shows "safe_thread Q races i (insertBlock_call Q b) d"
proof -
  have st: "safe_thread Q races i (insert_block_stmt Q b) d"
    if "races \<or> previousHash b = ''0'' \<or> c_str (previousHash b) \<notin> br_previous_hash ` set (block_rows d)" for d
    unfolding insert_block_stmt_def
    by (rule safe_tell, rule block_statement [OF _ assms]) (use assms(2) that in \<open>auto simp: rely_def\<close>)
  show ?thesis
  proof (cases "previousHash b = ''0''")
    case True
    then show ?thesis by (simp add: insertBlock_call_def st)
  next
    case False
    have "safe_thread Q races i (if c_str (previousHash b) \<in> br_previous_hash ` set (block_rows t)
        then Return (Inr False) else insert_block_stmt Q b) t" for t
      by (simp add: st)
    then show ?thesis
      using False by (auto simp: insertBlock_call_def db_ok_def select_previous_rows intro!: safe_ask_then)
  qed
qed

lemma safe_addPeer: "safe_thread Q races i (addPeer_call Q p) d"
proof -
  have "safe_thread Q races i (tell (\<lambda>d. bnd (DBFile_executePrepared Q (sql_insert_peer Q)
      [host p, to_string (unat (port p)), publicKey p] d) (\<lambda>(_, d'). Inr ((), d')))) t" for t
    by (rule safe_tell) (use contact_statement in blast)
  then show ?thesis
    unfolding addPeer_call_def by (intro safe_ask_then) (simp split: sum.split)
qed

text \<open>Every thread that only calls the repositories is safe.\<close>

lemma db_thread_safe:
  "db_thread Q ins c \<Longrightarrow> (ins \<Longrightarrow> races \<or> i = 0) \<Longrightarrow> db_ok Q races d \<Longrightarrow> safe_thread Q races i c d"
proof (induction arbitrary: d rule: db_thread.induct)
  case (thread_block b f)
  then show ?case by (intro db_pool.safe_then safe_insertBlock) auto
next
  case (thread_contact f p)
  then show ?case by (intro db_pool.safe_then safe_addPeer) auto
next
  case (thread_keep f m dump h)
  then show ?case using message_statements(1) by (intro db_pool.safe_then safe_tell) blast+
next
  case (thread_remove f h)
  then show ?case using message_statements(2) by (intro db_pool.safe_then safe_tell) blast+
next
  case (thread_remove_id f k)
  then show ?case using message_statements(3) by (intro db_pool.safe_then safe_tell) blast+
qed auto

subsection \<open>The threads of the program\<close>

text \<open>Calls that only read, with what their results satisfy.\<close>

primrec reads :: "('a \<Rightarrow> bool) \<Rightarrow> ('s, 'a) call \<Rightarrow> bool" where
  "reads P (Return x) \<longleftrightarrow> P x"
| "reads P (Stmt w k) \<longleftrightarrow> w = (\<lambda>s. s) \<and> (\<forall>s. reads P (k s))"

lemma reads_then [simp]: "reads P (then_call c f) \<longleftrightarrow> reads (\<lambda>x. reads P (f x)) c"
  by (induction c) auto

lemma reads_ask [simp]: "reads P (ask g) \<longleftrightarrow> (\<forall>s. P (g s))"
  by (simp add: ask_def)

lemma db_thread_reads:
  "reads P c \<Longrightarrow> (\<And>x. P x \<Longrightarrow> db_thread Q ins (f x)) \<Longrightarrow> db_thread Q ins (then_call c f)"
  by (induction c) (auto intro: db_thread.intros)

lemma then_call_assoc: "then_call (then_call c f) g = then_call c (\<lambda>x. then_call (f x) g)"
  by (induction c) auto

lemma db_thread_then:
  "db_thread Q ins c \<Longrightarrow> (\<And>x. db_thread Q ins (f x)) \<Longrightarrow> db_thread Q ins (then_call c f)"
  by (induction rule: db_thread.induct) (auto simp: then_call_assoc intro: db_thread.intros)

lemma then_call_Return [simp]: "then_call c Return = c"
  by (induction c) auto

lemma db_thread_insertBlock: "ins \<Longrightarrow> db_timely Q b \<Longrightarrow> db_thread Q ins (insertBlock_call Q b)"
  using thread_block [of ins Q b Return] by (simp add: thread_done)

lemma validateIncomingBlock_reads:
  "reads (\<lambda>r. r = Inr None \<longrightarrow> timestamp b \<le> now + 300000) (validateIncomingBlock_call S C Q now b)"
  by (auto simp: validateIncomingBlock_call_def seq_call_def split: sum.split option.split prod.split)

text \<open>A handler of an incoming block, and the publication of a text dated by a clock that is not too far ahead.\<close>

lemma db_thread_onIncomingBlock:
  assumes "clock_ok (db_timely Q) now"
  shows "db_thread Q True (onIncomingBlock_call J S C Q cfg now uuid ts j)"
proof -
  have v: "db_thread Q True (seq_call (validateIncomingBlock_call S C Q now b) (\<lambda>error.
      case error of
        Some e \<Rightarrow> Return (block_error_response J uuid ts me e (hash b))
      | None \<Rightarrow> seq_call (insertBlock_call Q b) (\<lambda>_. Return (Inr ''{}''))))" for b me
    unfolding seq_call_def
    using assms
    by (intro db_thread_reads [OF validateIncomingBlock_reads])
      (auto simp: clock_ok_def split: sum.split option.split intro!: thread_done thread_block)
  have r: "seq_call (Return r) f = (case r of Inl e \<Rightarrow> Return (Inl e) | Inr x \<Rightarrow> f x)"
    for r and f :: "'y \<Rightarrow> (db, 'z res) call"
    by (simp add: seq_call_def)
  show ?thesis
    unfolding onIncomingBlock_call_def catch_call_def r
    by (auto split: sum.split intro!: thread_done db_thread_then v)
qed

lemma db_thread_publish:
  assumes "\<And>b. timestamp b = m_timestamp m \<Longrightarrow> db_timely Q b"
  shows "db_thread Q True (publish_call J S C Q cfg m ps send)"
proof -
  have "db_thread Q True (storeAndBroadcastBlock_call J Q b ps send)" if "timestamp b = m_timestamp m" for b
    using assms [OF that]
    by (auto simp: storeAndBroadcastBlock_call_def seq_call_def split: sum.split prod.split
        intro!: thread_done thread_block)
  then have "db_thread Q True (then_call (ask (createBlockFromMessage S C (ChainDB Q) cfg m Block))
      (\<lambda>r. case r of Inl e \<Rightarrow> Return (Inl e) | Inr b \<Rightarrow> storeAndBroadcastBlock_call J Q b ps send))"
    by (intro db_thread_reads [where P = "\<lambda>r. \<forall>b. r = Inr b \<longrightarrow> timestamp b = m_timestamp m"])
      (auto dest: created_time split: sum.split intro: thread_done)
  then show ?thesis by (simp add: publish_call_def seq_call_def)
qed

end
