(* ===== verification/DC_ThreadTheorems.thy ===== *)
theory DC_ThreadTheorems
  imports DC_Threads DC_ChainTheorems
begin

text \<open>
  Properties of the threads of a node interleaved at their SQL statements: the server thread, which runs
  \<open>onIncomingBlock\<close> and \<open>handleIncomingTextMessage\<close>, and the input thread, which runs
  \<open>sendSecretMessage\<close>. Each is followed by a witness.
\<close>

lemma chain_good_ok: "chain_db_inv Q d \<Longrightarrow> message_db_inv d \<Longrightarrow> peer_db_inv Q d \<Longrightarrow> db_ok Q races d"
  by (simp add: db_ok_def chain_db_inv_iff)

lemma fresh_db_ok [simp]: "db_ok lite races fresh_db"
  using fresh_node_ok(1) by (intro chain_good_ok) (simp_all add: db_node_ok_def node_ok_def)

text \<open>The file a killed process leaves is opened again.\<close>

lemma reopened:
  assumes "db_ok Q races d" "open_tables Q (DBFile p (db_data d)) = Inr d'"
  shows "db_ok Q races d' \<and> db_chain d' = db_chain d \<and> db_messages d' = db_messages d \<and> db_peers d' = db_peers d"
proof -
  have d: "db_ready d" using assms(1) by (simp add: db_ok_def chain_rows_inv_def)
  have t: "\<exists>b m p. blocks_t (db_data d) = Some b \<and> messages_t (db_data d) = Some m \<and> peers_t (db_data d) = Some p"
    using assms(1) by (auto simp: db_ok_def chain_rows_inv_def message_db_inv_def peer_db_inv_def)
  then have d': "db_ready d'" "db_data d' = db_data d"
    using open_tables_data [OF assms(2)] by (auto simp: create_if_missing_def)
  have "chain_rows_inv Q d' = chain_rows_inv Q d" "fork_free d' = fork_free d"
    using d d' by (simp_all add: chain_rows_inv_def fork_free_def block_rows_def)
  then show ?thesis
    using assms(1) db_views_data [OF d'(1) d d'(2)] by (simp add: db_ok_def)
qed

text \<open>
  A method of a repository cut into its statements and run without interruption is the method; so is
  the handler of an incoming block, with its validation, and the storing of a block that was sent.
\<close>

theorem methods_as_statements:
  "run (insertBlock_call Q b) d = as_run (ChainDB_insertBlock Q b) d \<and>
   run (addPeer_call Q p) d = as_run (\<lambda>d. bnd (PeerDB_addPeer Q p d) (\<lambda>d'. Inr ((), d'))) d \<and>
   run (getBlocksByIndexRange_call Q start n h out) d = (ChainDB_getBlocksByIndexRange Q start n h d out, d) \<and>
   run (onIncomingBlock_call J SHA256 C Q cfg now uuid ts j) d =
     as_run (onIncomingBlock J SHA256 C (ChainDB Q) cfg now uuid ts j) d \<and>
   run (storeAndBroadcastBlock_call J Q b ps send) d =
     as_run (\<lambda>d. bnd (storeAndBroadcastBlock J (ChainDB Q) b ps send d) (\<lambda>(r, sent, d'). Inr ((r, sent), d'))) d"
  by (simp add: run_insertBlock run_addPeer run_range run_onIncomingBlock run_storeAndBroadcast)

text \<open>
  C7. However the threads interleave, and wherever the process is killed, the chain only grows, and the
  tables keep every invariant but one: hashes and message identifiers stay unique, keys consecutive,
  columns readable. The next start finds what had been stored.
\<close>

theorem threads_keep_database:
  assumes "thread_step\<^sup>*\<^sup>* (cs, d) (cs', d')" "\<forall>c \<in> set cs. db_thread Q True c"
    and "chain_db_inv Q d" "message_db_inv d" "peer_db_inv Q d"
    and "open_tables Q (DBFile p (db_data d')) = Inr d''"
  shows "chain_rows_inv Q d'' \<and> message_db_inv d'' \<and> peer_db_inv Q d'' \<and>
    (\<exists>l. db_chain d'' = db_chain d @ l) \<and> (\<exists>l. db_peers d'' = db_peers d @ l) \<and>
    ChainDB_loadAllBlocks Q d'' [] = Inr (db_chain d')"
proof -
  have d: "db_ok Q True d" using assms(3-5) by (rule chain_good_ok)
  have "\<forall>i < length cs. safe_thread Q True i (cs ! i) d"
    using assms(2) d by (auto intro: db_thread_safe)
  then have d': "db_ok Q True d'" "grows d d'"
    using db_pool.pool_safe [OF assms(1) d] by (simp_all add: overall_def)
  note r = reopened [OF d'(1) assms(6)]
  have "\<exists>l. db_peers d' = db_peers d @ l" using d'(2) by (auto simp: grows_def prefix_def db_peers_def)
  with r grows_chain [OF d'(2)] show ?thesis by (auto simp: db_ok_def load_rows)
qed

subsection \<open>The race for a predecessor\<close>

lemma created_fields:
  assumes "chain_db_inv Q d" "createBlockFromMessage S C (ChainDB Q) cfg m b0 d = Inr a"
  shows "previousHash a = tip_hash (db_chain d)" "c_str (hash a) = hash a"
proof -
  obtain f t where t: "findTip (ChainDB Q) Block d = Inr (f, t)" "hash t = tip_hash (db_chain d)"
    using cdb.tip_default [OF assms(1)] by blast
  show "previousHash a = tip_hash (db_chain d)" "c_str (hash a) = hash a"
    using assms(2) by (auto simp: createBlockFromMessage_def t Let_def computeHash_def)
qed

text \<open>The user's thread, up to its \<open>INSERT\<close>.\<close>

lemma publish_up_to_insert:
  assumes d: "chain_db_inv Q d" and "valid_chain S C (db_chain d)" "sha_len S"
    and a: "createBlockFromMessage S C (ChainDB Q) cfg m Block d = Inr a" "hash a \<notin> hash ` set (db_chain d)"
    and "json_dump J (Block_toJson J a) = Inr raw" "broadcast send raw ps = Inr (True, sent)"
    and i: "i < length cs" "cs ! i = then_call (publish_call J S C Q cfg m ps send) f"
  shows "thread_step\<^sup>*\<^sup>* (cs, d) (cs[i := then_call (insert_block_stmt Q a)
     (\<lambda>r. f (case r of Inl e \<Rightarrow> Inl e | Inr ok \<Rightarrow> Inr (ok, sent)))], d)"
proof -
  let ?rest = "\<lambda>r. f (case r of Inl e \<Rightarrow> Inl e | Inr ok \<Rightarrow> Inr (ok, sent))"
  note a_fields = created_fields [OF d a(1)]
  have ok: "insert_ok (db_chain d) a"
    using a(2) a_fields cdb.tip_hash_clean [OF d] extends_tip_clean [of a "db_chain d"]
    by (intro cdb.insert_ok_extends [OF d assms(2) _ _ assms(3)]) auto
  have assoc: "then_call (seq_call (insertBlock_call Q a) (\<lambda>stored. Return (Inr (stored, sent)))) f =
      then_call (insertBlock_call Q a) ?rest"
    unfolding seq_call_def then_call_assoc by (rule arg_cong [where f = "then_call _"]) (auto split: sum.split)
  have "thread_step (cs, d) (cs[i := then_call (insertBlock_call Q a) ?rest], d)"
    using thread_step [OF i(1), of "\<lambda>s. s" _ d] i(2) a(1) assms(6,7)
    by (simp add: publish_call_def ask_def seq_call_def storeAndBroadcastBlock_call_def flip: assoc)
  moreover have "thread_step\<^sup>*\<^sup>* (cs[i := then_call (insertBlock_call Q a) ?rest], d)
      (cs[i := then_call (insert_block_stmt Q a) ?rest], d)"
  proof (cases "previousHash a = ''0''")
    case True
    then show ?thesis by (simp add: insertBlock_call_def)
  next
    case False
    let ?cs = "cs[i := then_call (insertBlock_call Q a) ?rest]"
    have "DBFile_selectPrepared Q sql_by_previous [previousHash a] set_found d False = Inr False"
      using ok False by (simp add: select_previous [OF d] insert_ok_def)
    then have "thread_step (?cs, d) (?cs[i := then_call (insert_block_stmt Q a) ?rest], d)"
      using thread_step [of i ?cs "\<lambda>s. s" _ d] i(1) False
      by (simp add: insertBlock_call_def ask_def seq_call_def)
    then show ?thesis by simp
  qed
  ultimately show ?thesis by (rule converse_rtranclp_into_rtranclp)
qed

text \<open>Two different blocks on the same tip: the chain does not validate.\<close>

lemma forked_invalid:
  assumes "valid_chain S C c" "sha_len S" "hash b \<noteq> ''0''" "hash b \<notin> hash ` set c" "previousHash a = tip_hash c"
    and "hash b = c_str (hash b)" "previousHash a = c_str (previousHash a)"
  shows "\<not> valid_chain S C (c @ [c_block b, c_block a])"
proof -
  have "hash (last c) \<noteq> hash b" if "c \<noteq> []"
    using assms(4) last_in_set [OF that] by (metis imageI)
  then show ?thesis
    using assms by (cases "c = []") (auto simp: valid_chain_def linked_append tip_hash_def)
qed

lemma validate_rows:
  assumes "chain_rows_inv Q d"
  shows "(\<exists>log. validateLocalChain S C (ChainDB Q) d = Inr (True, log)) \<longleftrightarrow> valid_chain S C (db_chain d)"
proof -
  have "validate_loop S C ''0'' (db_chain d) = Inr (True, log) \<longleftrightarrow> valid_chain S C (db_chain d) \<and> log = []" for log
    by (auto simp: validate_loop_True valid_chain_def)
  then show ?thesis
    by (cases "validate_loop S C ''0'' (db_chain d)")
      (auto simp: validateLocalChain_def ChainDB_def load_rows [OF assms])
qed

text \<open>
  C9. The server thread and the input thread can both pass their checks before either has stored its
  block. The block received is then stored and acknowledged, the text of the user is published and its
  block stored behind it, both on the same tip, and from then on the node's own chain does not validate.
\<close>

theorem threads_fork:
  assumes "chain_db_inv Q d" "valid_chain SHA256 C (db_chain d)" "sha_len SHA256"
    and "clock_ok (db_timely Q) now" "local_peer cfg = Inr me" "Block_of_json J j = Inr b"
    and "accepts SHA256 C now (db_chain d) b"
    and "createBlockFromMessage SHA256 C (ChainDB Q) cfg m Block d = Inr a" "db_timely Q a"
    and "hash a \<notin> hash ` set (db_chain d)" "hash a \<noteq> hash b"
    and "json_dump J (Block_toJson J a) = Inr raw" "broadcast send raw ps = Inr (True, sent)"
  shows "\<exists>d'. thread_step\<^sup>*\<^sup>*
      ([then_call (onIncomingBlock_call J SHA256 C Q cfg now uuid ts j) (\<lambda>r. Return (Inl r)),
        then_call (publish_call J SHA256 C Q cfg m ps send) (\<lambda>r. Return (Inr r))], d)
      ([Return (Inl (Inr ''{}'')), Return (Inr (Inr (True, sent)))], d') \<and>
    db_chain d' = db_chain d @ [c_block b, c_block a] \<and>
    \<not> (\<exists>log. validateLocalChain SHA256 C (ChainDB Q) d' = Inr (True, log))"
proof -
  let ?server = "then_call (onIncomingBlock_call J SHA256 C Q cfg now uuid ts j) (\<lambda>r. Return (Inl r))"
  let ?user = "then_call (publish_call J SHA256 C Q cfg m ps send) (\<lambda>r. Return (Inr r))"
  let ?rest = "\<lambda>r. Return (Inr (case r of Inl e \<Rightarrow> Inl e | Inr ok \<Rightarrow> Inr (ok, sent)))"
  let ?last = "then_call (insert_block_stmt Q a) ?rest"
  have 1: "thread_step\<^sup>*\<^sup>* ([?server, ?user], d) ([?server, ?last], d)"
    using publish_up_to_insert [OF assms(1-3,8,10,12,13), where cs = "[?server, ?user]" and i = 1 and f = "\<lambda>r. Return (Inr r)"]
    by simp
  obtain d1 where d1: "onIncomingBlock J SHA256 C (ChainDB Q) cfg now uuid ts j d = Inr (''{}'', d1)"
    "chain_db_inv Q d1" "db_chain d1 = db_chain d @ [c_block b]"
    using accepted_appended [OF assms(1-7)] by blast
  have 2: "thread_step\<^sup>*\<^sup>* ([?server, ?last], d) ([Return (Inl (Inr ''{}'')), ?last], d1)"
    using pool_run [of 0 "[?server, ?last]" ?server d]
    by (simp add: run_onIncomingBlock as_run_def d1(1))
  have b: "c_str (hash b) = hash b" "hash b \<noteq> ''0''" "hash b \<notin> hash ` set (db_chain d)"
    using assms(7) valid_block_hash_clean valid_block_hash [OF _ assms(3)] by (auto simp: accepts_def)
  note a = created_fields [OF assms(1,8)]
  obtain ok d2 where d2: "DBFile_executePrepared Q (sql_insert_block Q)
      [hash a, previousHash a, payloadHash a, authorPublicKey a, signature a,
       to_string (unat (timestamp a))] d1 = Inr (ok, d2)" "chain_rows_inv Q d2"
    "ok = (c_str (hash a) \<notin> hash ` set (db_chain d1))"
    "block_rows d2 = (if ok then block_rows d1 @ [new_row Q (Suc (length (block_rows d1))) a] else block_rows d1)"
    using insert_statement_rows [OF _ assms(9)] d1(2) unfolding chain_db_inv_iff by blast
  have ok: "ok" using assms(10,11) a(2) b(1) by (simp add: d2(3) d1(3))
  have 3: "thread_step\<^sup>*\<^sup>* ([Return (Inl (Inr ''{}'')), ?last], d1)
      ([Return (Inl (Inr ''{}'')), Return (Inr (Inr (True, sent)))], d2)"
    using pool_run [of 1 "[Return (Inl (Inr ''{}'')), ?last]" ?last d1] ok
    by (simp add: insert_block_stmt_def as_run_def d2(1))
  have c: "db_chain d2 = db_chain d @ [c_block b, c_block a]"
    using d1(3) ok d2(4) new_row_block(1) [OF assms(9)] by (simp add: db_chain_def)
  have "\<not> valid_chain SHA256 C (db_chain d2)"
    unfolding c using b a(1) cdb.tip_hash_clean [OF assms(1)] by (intro forked_invalid [OF assms(2,3)]) simp_all
  then have "\<not> (\<exists>log. validateLocalChain SHA256 C (ChainDB Q) d2 = Inr (True, log))"
    by (simp add: validate_rows [OF d2(2)])
  with c rtranclp_trans [OF rtranclp_trans [OF 1 2] 3] show ?thesis by blast
qed

text \<open>A second block on an empty chain, beside that of \<open>hello\<close>.\<close>

definition bare_draft :: block where
  "bare_draft = \<lparr> hash = '''', previousHash = ''0'', payloadHash = '''',
     authorPublicKey = alice_key, signature = '''', timestamp = 0 \<rparr>"

definition bare_block :: block where
  "bare_block = computeHash sha256_bytes (bare_draft\<lparr>signature :=
     toHex (sha256_bytes (7 # bytes_of_string (toStringForHash bare_draft)))\<rparr>)"

lemma bare_block_fields [simp]:
  "previousHash bare_block = ''0''" "timestamp bare_block = 0" "authorPublicKey bare_block = alice_key"
  "toStringForHash bare_block = toStringForHash bare_draft"
  "hash bare_block = sha256 sha256_bytes (toStringForHash bare_draft)"
  by (simp_all add: bare_block_def bare_draft_def toStringForHash_def)

lemma bare_block_accepted: "accepts sha256_bytes tests_crypto now [] bare_block"
proof -
  have "verifyBlockSignature tests_crypto bare_block = Inr True"
    by (simp add: verifyBlockSignature_def Let_def)
      (simp add: bare_block_def tests_crypto_def XORCrypto_def alice_key_def xor_verify_iff)
  then show ?thesis by (simp add: accepts_def valid_block_def extends_tip_def)
qed

lemma alice_key_text: "alice_key = ''07''"
  by (simp add: alice_key_def toHex_def hex_byte_def digit_char_def char_of_eq_iff take_bit_eq_mod)

lemma bare_text: "toStringForHash bare_draft = ''0||07|0''"
  by (simp add: toStringForHash_def bare_draft_def alice_key_text to_string.simps digit_char_def char_of_eq_iff take_bit_eq_mod)

lemma created_parts:
  "createBlockFromMessage S C R cfg m b0 s = Inr a \<Longrightarrow>
     payloadHash a = sha256 S (c_str (m_text m)) \<and> authorPublicKey a = publicKey (m_from m)"
  by (auto simp: createBlockFromMessage_def Let_def computeHash_def)

lemma hello_fields:
  "payloadHash hello_block = sha256 sha256_bytes ''hello''" "authorPublicKey hello_block = alice_key"
  "hash hello_block = sha256 sha256_bytes (toStringForHash hello_block)"
  using created_parts [OF hello_block(1)] hello_block(2) by (simp_all add: valid_block_def c_str_def)

lemma hello_payload_text: "sha256 sha256_bytes ''hello'' = ''68656c6c6f000000000000000000000000000000000000000000000000000000''"
  by code_simp

lemma hello_text_hashed:
  "toStringForHash hello_block = ''0|68656c6c6f000000000000000000000000000000000000000000000000000000|07|1700000000000''"
proof -
  have "to_string 1700000000000 = ''1700000000000''"
    by (simp add: to_string.simps digit_char_def char_of_eq_iff take_bit_eq_mod)
  then show ?thesis
    by (simp add: toStringForHash_def hello_block(3,6) hello_fields(1,2) hello_payload_text alice_key_text)
qed

lemma hashes_differ: "hash hello_block \<noteq> hash bare_block"
proof -
  have "sha256_bytes (bytes_of_string (toStringForHash hello_block)) ! 10 = 54"
    unfolding hello_text_hashed by code_simp
  moreover have "sha256_bytes (bytes_of_string (toStringForHash bare_draft)) ! 10 = 0"
    unfolding bare_text by code_simp
  ultimately have "sha256_bytes (bytes_of_string (toStringForHash hello_block)) \<noteq>
      sha256_bytes (bytes_of_string (toStringForHash bare_draft))" by auto
  then show ?thesis by (simp add: hello_fields(3) sha256_def toHex_inj)
qed

text \<open>A node that receives a block while its user publishes a text.\<close>

definition server_and_user :: "(db, (string res + (bool \<times> user_peer list) res)) call list" where
  "server_and_user =
    [then_call (onIncomingBlock_call jt_lib sha256_bytes tests_crypto lite alice_cfg 1700000000000 ''6f1d'' 1
       (Block_toJson jt_lib bare_block)) (\<lambda>r. Return (Inl r)),
     then_call (publish_call jt_lib sha256_bytes tests_crypto lite alice_cfg hello [] (\<lambda>_ _. Inr True))
       (\<lambda>r. Return (Inr r))]"

lemma server_and_user_threads: "\<forall>c \<in> set server_and_user. db_thread lite True c"
  unfolding server_and_user_def
  by (auto intro!: db_thread_then db_thread_onIncomingBlock db_thread_publish thread_done)

lemma fresh_db_facts [simp]: "message_db_inv fresh_db" "peer_db_inv lite fresh_db"
  using fresh_node_ok by (simp_all add: db_node_ok_def node_ok_def)

lemma server_receives:
  assumes "0 < length cs" "cs ! 0 = server_and_user ! 0"
  shows "\<exists>cs' d. thread_step\<^sup>*\<^sup>* (cs, fresh_db) (cs', d) \<and> db_chain d = [c_block bare_block]"
proof -
  obtain d where d: "onIncomingBlock jt_lib sha256_bytes tests_crypto (ChainDB lite) alice_cfg 1700000000000
      ''6f1d'' 1 (Block_toJson jt_lib bare_block) fresh_db = Inr (''{}'', d)" "db_chain d = [c_block bare_block]"
    using accepted_appended [OF fresh_db_inv(1) _ xor_digest lite_clock alice_local
        Block_json_roundtrip_aux [OF jt_laws], where b = bare_block and C = tests_crypto and uuid = "''6f1d''" and ts = 1]
      bare_block_accepted by force
  moreover have "thread_step\<^sup>*\<^sup>* (cs, fresh_db) (cs[0 := Return (fst (run (server_and_user ! 0) fresh_db))],
      snd (run (server_and_user ! 0) fresh_db))"
    by (rule pool_run [OF assms])
  moreover have "snd (run (server_and_user ! 0) fresh_db) = d"
    by (simp add: server_and_user_def run_onIncomingBlock as_run_def d(1))
  ultimately show ?thesis by auto
qed

theorem threads_fork_witness:
  "\<exists>d'. thread_step\<^sup>*\<^sup>* (server_and_user, fresh_db) ([Return (Inl (Inr ''{}'')), Return (Inr (Inr (True, [])))], d') \<and>
    db_chain d' = [c_block bare_block, c_block hello_block] \<and>
    \<not> (\<exists>log. validateLocalChain sha256_bytes tests_crypto (ChainDB lite) d' = Inr (True, log))"
  using threads_fork [OF fresh_db_inv(1) _ xor_digest lite_clock alice_local
      Block_json_roundtrip_aux [OF jt_laws] _ hello_block(1) lite_timely _ _ jt_dump,
      where b = bare_block and now = 1700000000000 and send = "\<lambda>_ _. Inr True" and ps = "[]" and sent = "[]"
        and uuid = "''6f1d''" and ts = 1]
    hashes_differ
  by (simp add: bare_block_accepted server_and_user_def del: bare_block_fields(5))

theorem threads_keep_database_witness:
  "\<exists>cs d d'. thread_step\<^sup>*\<^sup>* (server_and_user, fresh_db) (cs, d) \<and> db_chain d = [c_block bare_block] \<and>
    open_tables lite (DBFile ''d-chat.db'' (db_data d)) = Inr d' \<and>
    ChainDB_loadAllBlocks lite d' [] = Inr [c_block bare_block]"
proof -
  obtain cs d where d: "thread_step\<^sup>*\<^sup>* (server_and_user, fresh_db) (cs, d)" "db_chain d = [c_block bare_block]"
    using server_receives [of server_and_user] by (auto simp: server_and_user_def)
  obtain d' where d': "open_tables lite (DBFile ''d-chat.db'' (db_data d)) = Inr d'"
    by (simp add: open_tables_eq lite_def)
  have "ChainDB_loadAllBlocks lite d' [] = Inr (db_chain d)"
    using threads_keep_database [OF d(1) server_and_user_threads fresh_db_inv(1) fresh_db_facts d'] by blast
  then show ?thesis using d d' by (intro exI conjI) simp_all
qed

subsection \<open>One thread that inserts blocks\<close>

text \<open>
  C8. If only one thread of the pool inserts blocks, the statements of the others in between make no
  difference: every state of the database is one that whole methods, run one after the other, lead to.
  So the chain has no fork.
\<close>

theorem one_writer_is_atomic:
  assumes "thread_step\<^sup>*\<^sup>* (cs, d) (cs', d')" "\<forall>i < length cs. db_thread Q (i = 0) (cs ! i)"
    and "chain_db_inv Q d" "message_db_inv d" "peer_db_inv Q d"
  shows "(repo_effect Q)\<^sup>*\<^sup>* d d' \<and> chain_db_inv Q d' \<and> message_db_inv d' \<and> peer_db_inv Q d' \<and>
    (\<exists>l. db_chain d' = db_chain d @ l)"
proof -
  have d: "db_ok Q False d" using assms(3-5) by (rule chain_good_ok)
  have "safe_thread Q False i (cs ! i) d" if "i < length cs" for i
    using assms(2) d that by (intro db_thread_safe [where ins = "i = 0"]) auto
  then have "db_ok Q False d'" "overall Q False d d'"
    using db_pool.pool_safe [OF assms(1) d] by simp_all
  then show ?thesis using grows_chain by (simp add: overall_def db_ok_def chain_db_inv_iff)
qed

text \<open>The server receives a block while the user's thread adds a contact.\<close>

theorem one_writer_is_atomic_witness:
  "\<exists>d. (repo_effect lite)\<^sup>*\<^sup>* fresh_db d \<and> chain_db_inv lite d \<and> db_chain d = [c_block bare_block]"
proof -
  let ?cs = "[server_and_user ! 0, then_call (addPeer_call lite bob) (\<lambda>_. Return (Inl (Inr '''')))]"
  have t: "\<forall>i < length ?cs. db_thread lite (i = 0) (?cs ! i)"
    using server_and_user_threads
    by (auto simp: less_Suc_eq server_and_user_def intro!: thread_contact thread_done)
  obtain cs d where d: "thread_step\<^sup>*\<^sup>* (?cs, fresh_db) (cs, d)" "db_chain d = [c_block bare_block]"
    using server_receives [of ?cs] by auto
  then show ?thesis using one_writer_is_atomic [OF d(1) t fresh_db_inv(1) fresh_db_facts] by blast
qed

subsection \<open>Reading a range of blocks\<close>

lemma id_of_hash_rows:
  assumes "chain_rows_inv Q d"
  shows "DBFile_selectPrepared Q (sql_by_hash id_column) [h] set_index d (False, 0) =
    fold_res set_index (map (map column_text) (map id_column
      (take 1 (filter (\<lambda>r. br_hash r = c_str h) (block_rows d))))) (False, 0)"
  using assms
  by (auto simp: chain_rows_inv_def block_rows_def selectPrepared_ready sql_by_hash_def with_blocks_def)

text \<open>A row that is there is found under the same key later.\<close>

lemma id_of_hash_later:
  assumes "chain_rows_inv Q d" "chain_rows_inv Q d'" "grows d d'"
    and "filter (\<lambda>r. br_hash r = c_str h) (block_rows d) \<noteq> []"
  shows "DBFile_selectPrepared Q (sql_by_hash id_column) [h] set_index d' (False, 0) =
    DBFile_selectPrepared Q (sql_by_hash id_column) [h] set_index d (False, 0)"
proof -
  obtain l where "block_rows d' = block_rows d @ l" using assms(3) by (auto simp: grows_def prefix_def)
  then have "take 1 (filter (\<lambda>r. br_hash r = c_str h) (block_rows d')) =
      take 1 (filter (\<lambda>r. br_hash r = c_str h) (block_rows d))"
    using assms(4) by (cases "filter (\<lambda>r. br_hash r = c_str h) (block_rows d)") (simp, simp only: filter_append, simp)
  then show ?thesis by (simp only: id_of_hash_rows [OF assms(1)] id_of_hash_rows [OF assms(2)])
qed

text \<open>
  C33. \<open>getBlocksByIndexRange\<close> first looks for the key of the block it starts after and then reads the
  range. Whatever the other threads store in between, it answers as one atomic reading would, either
  before their writing or after it.
\<close>

theorem range_read_consistent:
  assumes "chain_rows_inv Q d" "chain_rows_inv Q d'" "grows d d'"
    and "getBlocksByIndexRange_call Q start n h out = Stmt w k"
  shows "w d = d \<and>
    (run (k d) d' = (ChainDB_getBlocksByIndexRange Q start n h d out, d') \<or>
     run (k d) d' = (ChainDB_getBlocksByIndexRange Q start n h d' out, d'))"
proof (cases "h = ''0''")
  case True
  then show ?thesis
    using assms(4) by (auto simp: getBlocksByIndexRange_call_def ChainDB_getBlocksByIndexRange_def ask_def)
next
  case False
  let ?sel = "\<lambda>d. DBFile_selectPrepared Q (sql_by_hash id_column) [h] set_index d (False, 0)"
  have w: "w = (\<lambda>s. s)" "k d = then_call (Return (?sel d)) (\<lambda>r. case r of Inl e \<Rightarrow> Return (Inl e) | Inr (found, i) \<Rightarrow>
      if \<not> found then Return (Inr out)
      else let startIndex = (word_of_nat i + 1 + ucast start :: u64)
        in ask (\<lambda>d. DBFile_selectPrepared Q (\<lambda>_. sql_from_id (unat startIndex) (unat n))
             [to_string (unat startIndex), to_string (unat n)] emplace_block d out))"
    using False assms(4) by (auto simp: getBlocksByIndexRange_call_def ask_def seq_call_def split: sum.split)
  show ?thesis
  proof (cases "filter (\<lambda>r. br_hash r = c_str h) (block_rows d) = []")
    case True
    then have "?sel d = Inr (False, 0)" by (simp add: id_of_hash_rows [OF assms(1)])
    then show ?thesis using False w by (simp add: ChainDB_getBlocksByIndexRange_def)
  next
    case nonempty: False
    have "?sel d' = ?sel d" by (rule id_of_hash_later [OF assms(1-3) nonempty])
    then show ?thesis
      using False w by (auto simp: ChainDB_getBlocksByIndexRange_def bnd_def Let_def split: sum.split)
  qed
qed

theorem range_read_witness:
  "\<exists>w k. getBlocksByIndexRange_call lite 0 5 (hash hello_block) [] = Stmt w k \<and>
    (run (k fresh_db) hello_db = (Inr [], hello_db) \<or>
     run (k fresh_db) hello_db = (ChainDB_getBlocksByIndexRange lite 0 5 (hash hello_block) hello_db [], hello_db))"
proof -
  obtain w k where k: "getBlocksByIndexRange_call lite 0 5 (hash hello_block) [] = Stmt w k"
    by (auto simp: getBlocksByIndexRange_call_def ask_def seq_call_def)
  have "block_rows fresh_db = []" by (simp add: fresh_db_def block_rows_def empty_table_def)
  moreover have "peer_rows hello_db = peer_rows fresh_db"
    using chain_frame_db [of lite hello_block fresh_db True hello_db] hello_db(1) row_views(6)
    by (metis ChainDB_def IChainRepo.select_convs(1))
  ultimately have "grows fresh_db hello_db" by (simp add: grows_def)
  moreover have "ChainDB_getBlocksByIndexRange lite 0 5 (hash hello_block) fresh_db [] = Inr []"
    using ChainDB_range [OF fresh_db_inv(1)] by (simp add: tail_after_def)
  moreover have "chain_rows_inv lite fresh_db" "chain_rows_inv lite hello_db"
    using fresh_db_inv(1) hello_db(2) by (simp_all add: chain_db_inv_iff)
  ultimately show ?thesis using range_read_consistent [OF _ _ _ k, of fresh_db hello_db] k by metis
qed

end
