(* ===== verification/DC_Answers.thy ===== *)
theory DC_Answers
  imports DC_Exchange DC_Sockets
begin

text \<open>
  What the server answers (src/infra/network/TCPServer.cpp, src/domain/chat/ChatService.cpp): every
  answer has a type that goes with the request, and the four plain requests (connecting, a list of
  peers, a range of blocks, leaving) are always answered, one after the other.
\<close>

subsection \<open>The type of an answer\<close>

text \<open>What is read from \<open>r\<close> is a message of type \<open>t\<close>.\<close>

definition carries :: "('j, 'x) json_lib_scheme \<Rightarrow> MessageType \<Rightarrow> string \<Rightarrow> bool" where
  "carries J t r \<longleftrightarrow> (\<exists>j m. json_dump J j = Inr r \<and> Message_of_json J j = Inr m \<and> m_type m = t)"

fun reply_type :: "MessageType \<Rightarrow> MessageType" where
  "reply_type CONNECT = CONNECT_RESPONSE"
| "reply_type TEXT_MESSAGE = TEXT_MESSAGE_RESPONSE"
| "reply_type PEER_LIST = PEER_LIST_RESPONSE"
| "reply_type BLOCK_RANGE_REQUEST = BLOCK_RANGE_RESPONSE"
| "reply_type DISCONNECT = DISCONNECT_RESPONSE"
| "reply_type _ = ERROR_RESPONSE"

text \<open>The typing of an answer \<open>r\<close> to the request \<open>j\<close>.\<close>

inductive answer_ok :: "('s, 'j) env \<Rightarrow> 'j \<Rightarrow> string \<Rightarrow> bool" for E j where
  ok_block: "is_block_json (e_json E) j \<Longrightarrow> answer_ok E j ''{}''"
| ok_block_error: "is_block_json (e_json E) j \<Longrightarrow> carries (e_json E) BLOCKCHAIN_ERROR_RESPONSE r \<Longrightarrow> answer_ok E j r"
| ok_reply: "\<not> is_block_json (e_json E) j \<Longrightarrow> json_at (e_json E) j ''type'' = Inr ty \<Longrightarrow> of_type E ty t \<Longrightarrow>
    t \<in> {CONNECT, TEXT_MESSAGE, PEER_LIST, BLOCK_RANGE_REQUEST, DISCONNECT} \<Longrightarrow>
    carries (e_json E) (reply_type t) r \<Longrightarrow> answer_ok E j r"
| ok_notice: "\<not> is_block_json (e_json E) j \<Longrightarrow> json_at (e_json E) j ''type'' = Inr ty \<Longrightarrow>
    of_type E ty BLOCKCHAIN_ERROR_RESPONSE \<Longrightarrow> answer_ok E j ''{}''"
| ok_error: "\<not> is_block_json (e_json E) j \<Longrightarrow> carries (e_json E) ERROR_RESPONSE r \<Longrightarrow> answer_ok E j r"
| ok_fixed: "\<not> is_block_json (e_json E) j \<Longrightarrow> r \<in> {invalid_request, invalid_type, invalid_format} \<Longrightarrow> answer_ok E j r"

text \<open>Whatever a computation returns satisfies \<open>P\<close>.\<close>

definition yields :: "('a \<Rightarrow> bool) \<Rightarrow> ('n, 'a) act \<Rightarrow> bool" where
  "yields P a \<longleftrightarrow> (\<forall>n x n'. a n = (Inr x, n') \<longrightarrow> P x)"

lemma yields_lift: "(\<And>x. r = Inr x \<Longrightarrow> P x) \<Longrightarrow> yields P (lift r)"
  and yields_ret: "P x \<Longrightarrow> yields P (ret x)"
  by (auto simp: yields_def lift_def ret_def)

lemma yields_seq: "(\<And>x. yields P (f x)) \<Longrightarrow> yields P (seq a f)"
  by (auto simp: yields_def seq_def split: prod.splits sum.splits)

lemma yields_lift_seq: "(\<And>x. r = Inr x \<Longrightarrow> yields P (f x)) \<Longrightarrow> yields P (seq (lift r) f)"
  by (auto simp: yields_def seq_def lift_def split: sum.splits)

lemma yields_handle: "yields P a \<Longrightarrow> (\<And>e. yields P (h e)) \<Longrightarrow> yields P (handle a h)"
  by (auto simp: yields_def handle_def split: prod.splits sum.splits if_splits)

lemma yields_if: "(b \<Longrightarrow> yields P x) \<Longrightarrow> (\<not> b \<Longrightarrow> yields P y) \<Longrightarrow> yields P (if b then x else y)"
  by simp

lemma serialized_carries:
  assumes "json_laws J"
  shows "json_dump J (ConnectionMessageResponse_serialize J (ConnectionMessageResponse_create u n f t a b)) = Inr r \<Longrightarrow>
      carries J CONNECT_RESPONSE r"
    and "json_dump J (PeerListMessageResponse_serialize J (PeerListMessageResponse_create u n f t ps)) = Inr r \<Longrightarrow>
      carries J PEER_LIST_RESPONSE r"
    and "json_dump J (BlockRangeMessageResponse_serialize J (BlockRangeMessageResponse_create u n f t bs)) = Inr r \<Longrightarrow>
      carries J BLOCK_RANGE_RESPONSE r"
    and "json_dump J (DisconnectionMessageResponse_serialize J (DisconnectionMessageResponse_create u n f t)) = Inr r \<Longrightarrow>
      carries J DISCONNECT_RESPONSE r"
    and "json_dump J (TextMessageResponse_serialize J (TextMessageResponse_create u n f t)) = Inr r \<Longrightarrow>
      carries J TEXT_MESSAGE_RESPONSE r"
    and "json_dump J (ErrorMessageResponse_serialize J (ErrorMessageResponse_create u n f t e)) = Inr r \<Longrightarrow>
      carries J ERROR_RESPONSE r"
    and "json_dump J (BlockchainErrorMessageResponse_serialize J (BlockchainErrorMessageResponse_create u n f e h i)) = Inr r \<Longrightarrow>
      carries J BLOCKCHAIN_ERROR_RESPONSE r"
  unfolding carries_def ConnectionMessageResponse_serialize_def PeerListMessageResponse_serialize_def
    BlockRangeMessageResponse_serialize_def DisconnectionMessageResponse_serialize_def TextMessageResponse_serialize_def
    ErrorMessageResponse_serialize_def BlockchainErrorMessageResponse_serialize_def Let_def
    ConnectionMessageResponse_create_def PeerListMessageResponse_create_def BlockRangeMessageResponse_create_def
    DisconnectionMessageResponse_create_def TextMessageResponse_create_def ErrorMessageResponse_create_def
    BlockchainErrorMessageResponse_create_def
  by (intro exI conjI, assumption, rule Message_of_serialized [OF assms],
      simp add: Message_def message_ext_defs message.truncate_def)+

lemma error_typed:
  assumes "json_laws (e_json E)" "\<not> is_block_json (e_json E) j"
    and "handleIncomingErrorMessage E uuid now j' error = Inr r"
  shows "answer_ok E j r"
  using assms(2,3) serialized_carries(6) [OF assms(1)]
  by (auto simp: handleIncomingErrorMessage_def Let_def intro: ok_error ok_fixed split: if_splits)

lemma dispatch_typed:
  assumes "json_laws (e_json E)" "\<not> is_block_json (e_json E) j"
  shows "yields (answer_ok E j) (dispatch_incoming E clk uuid now j ''{}'')"
proof -
  have reply: "answer_ok E j r" if "json_at (e_json E) j ''type'' = Inr ty" "of_type E ty t" "carries (e_json E) t' r"
    "t' = reply_type t" "t \<in> {CONNECT, TEXT_MESSAGE, PEER_LIST, BLOCK_RANGE_REQUEST, DISCONNECT}" for ty t t' r
    using ok_reply [OF assms(2) that(1,2,5)] that(3,4) by simp
  show ?thesis
    unfolding dispatch_incoming_def Let_def chat_handlers
    by (intro yields_lift_seq yields_if yields_seq yields_lift yields_ret;
        (erule reply, assumption, erule serialized_carries [OF assms(1)], simp, simp
        | rule ok_notice [OF assms(2)], assumption, assumption | rule ok_fixed [OF assms(2)], simp))
qed

lemma incoming_typed:
  assumes "json_laws (e_json E)" "\<not> is_block_json (e_json E) j"
  shows "yields (answer_ok E j) (handleIncomingMessage E clk uuid now j ''{}'')"
proof -
  have "answer_ok E j invalid_format" by (rule ok_fixed [OF assms(2)]) simp
  then show ?thesis
    unfolding handleIncomingMessage_def
    by (intro yields_handle dispatch_typed assms)
      (auto split: exc.split intro!: yields_lift yields_ret error_typed [OF assms])
qed

lemma block_typed:
  assumes "json_laws (e_json E)" "is_block_json (e_json E) j"
    and "onIncomingBlock (e_json E) S C R cfg now uuid ts j s = Inr (r, s')"
  shows "answer_ok E j r"
proof -
  have "r = ''{}'' \<or> (\<exists>me e h. block_error_response (e_json E) uuid ts me e h = Inr r)"
    using assms(3) by (auto simp: onIncomingBlock_def catch_std_def bnd_def split: sum.splits option.splits exc.splits if_splits)
  then show ?thesis
    using serialized_carries(7) [OF assms(1)] assms(2)
    by (auto simp: block_error_response_def intro: ok_block ok_block_error)
qed

subsection \<open>The plain requests\<close>

datatype plain_request =
    Req_Connect connection_message | Req_Peers peer_list_message | Req_Range block_range_message | Req_Leave message

fun plain_json :: "('j, 'x) json_lib_scheme \<Rightarrow> plain_request \<Rightarrow> 'j" where
  "plain_json J (Req_Connect m) = ConnectionMessage_serialize J m"
| "plain_json J (Req_Peers m) = PeerListMessage_serialize J m"
| "plain_json J (Req_Range m) = BlockRangeMessage_serialize J m"
| "plain_json J (Req_Leave m) = DisconnectionMessage_serialize J m"

fun plain_typed :: "plain_request \<Rightarrow> bool" where
  "plain_typed (Req_Connect m) \<longleftrightarrow> m_type m = CONNECT"
| "plain_typed (Req_Peers m) \<longleftrightarrow> m_type m = PEER_LIST"
| "plain_typed (Req_Range m) \<longleftrightarrow> m_type m = BLOCK_RANGE_REQUEST"
| "plain_typed (Req_Leave m) \<longleftrightarrow> m_type m = DISCONNECT"

text \<open>The node after a request, and the answer; \<open>key\<close> is the node's own public key.\<close>

fun plain_node :: "plain_request \<Rightarrow> 's node \<Rightarrow> 's node" where
  "plain_node (Req_Connect m) n = n\<lparr>n_peers := addPeer (m_from m) (n_peers n)\<rparr>"
| "plain_node (Req_Leave m) n = n\<lparr>n_peers := removePeer (m_from m) (n_peers n)\<rparr>"
| "plain_node _ n = n"

fun plain_answer ::
  "('j, 'x) json_lib_scheme \<Rightarrow> string \<Rightarrow> request_env \<Rightarrow> plain_request \<Rightarrow> db node \<Rightarrow> 'j" where
  "plain_answer J key q (Req_Connect m) n =
     ConnectionMessageResponse_serialize J (ConnectionMessageResponse_create (rq_uuid q) (rq_ts q)
       (UserPeer (host (m_to m)) (port (m_to m)) key) (m_from m)
       (word_of_nat (length (peers (addPeer (m_from m) (n_peers n)))))
       (word_of_nat (case tail_after (lastBlockHash m) (db_chain (n_store n)) of
          None \<Rightarrow> length (db_chain (n_store n)) | Some t \<Rightarrow> length t)))"
| "plain_answer J key q (Req_Peers m) n =
     PeerListMessageResponse_serialize J (PeerListMessageResponse_create (rq_uuid q) (rq_ts q) (m_to m) (m_from m)
       (peer_list_loop (n_peers n) (m_from m) (unat (pl_start m + pl_count m)) (unat (pl_start m))))"
| "plain_answer J key q (Req_Range m) n =
     BlockRangeMessageResponse_serialize J (BlockRangeMessageResponse_create (rq_uuid q) (rq_ts q) (m_to m) (m_from m)
       (case tail_after (rg_lastHash m) (db_chain (n_store n)) of
          None \<Rightarrow> [] | Some t \<Rightarrow> take (unat (rg_count m)) (drop (unat (rg_start m)) t)))"
| "plain_answer J key q (Req_Leave m) n =
     DisconnectionMessageResponse_serialize J (DisconnectionMessageResponse_create (rq_uuid q) (rq_ts q) (m_to m) (m_from m))"

fun plain_message :: "plain_request \<Rightarrow> message" where
  "plain_message (Req_Connect m) = message.truncate m"
| "plain_message (Req_Peers m) = message.truncate m"
| "plain_message (Req_Range m) = message.truncate m"
| "plain_message (Req_Leave m) = m"

lemma has_base_truncate: "has_base J (message.truncate m) j = has_base J m j"
  by (cases m) (simp add: has_base_def message.truncate_def)

lemma plain_serialized:
  assumes "json_laws J"
  shows "has_base J (plain_message r) (plain_json J r)"
    and "\<not> json_contains J (plain_json J r) ''previousHash''"
proof -
  show "has_base J (plain_message r) (plain_json J r)"
    by (cases r) (simp_all add: has_base_truncate ConnectionMessage_serialize_def PeerListMessage_serialize_def
        BlockRangeMessage_serialize_def DisconnectionMessage_serialize_def Let_def has_base_payload has_base_basic assms)
  show "\<not> json_contains J (plain_json J r) ''previousHash''"
    by (cases r) (simp_all add: ConnectionMessage_serialize_def PeerListMessage_serialize_def
        BlockRangeMessage_serialize_def DisconnectionMessage_serialize_def getBasicSerialization_def
        set_payload_def Let_def json_simps [OF assms])
qed

lemma plain_dispatched:
  assumes J: "json_laws J" and key: "config_get cfg PUBLIC_KEY = Inr key" and r: "plain_typed r"
    and n: "chain_db_inv Q (n_store n)" "length (db_chain (n_store n)) < 2 ^ 32"
    and that: "uuid = rq_uuid q" "now = rq_ts q"
  shows "dispatch_incoming (node_env J S C cfg srt Q) clk uuid now (plain_json J r) ''{}'' n =
    (json_dump J (plain_answer J key q r n), plain_node r n)"
proof -
  let ?E = "node_env J S C cfg srt Q"
  have J': "json_laws (e_json ?E)" using J by simp
  have t: "json_at J (plain_json J r) ''type'' = Inr (json_of_string J (fromMessageTypeToString (m_type (plain_message r))))"
    by (rule has_base_type [OF J plain_serialized(1) [OF J]])
  note ot = of_type_name [OF J', unfolded node_env_simps]
  show ?thesis
  proof (cases r)
    case (Req_Connect m)
    then show ?thesis
      using r t n ChainDB_count [OF n] key that
      by (simp add: dispatch_incoming_def Let_def act_simps ot ConnectionMessage_roundtrip_aux [OF J]
          handleIncomingConnectionMessage_def me_at_def getPeersCount_def Service_countBlocksAfterHash_def ChainDB_def
          message.truncate_def del: fromMessageTypeToString.simps)
  next
    case (Req_Peers m)
    then show ?thesis
      using r t that
      by (simp add: dispatch_incoming_def Let_def act_simps ot PeerListMessage_roundtrip_aux [OF J]
          handleIncomingPeerListMessage_def message.truncate_def del: fromMessageTypeToString.simps)
  next
    case (Req_Range m)
    then show ?thesis
      using r t n ChainDB_range [OF n] that
      by (simp add: dispatch_incoming_def Let_def act_simps ot BlockRangeMessage_roundtrip_aux [OF J]
          handleIncomingBlockRangeMessage_def Service_getBlocksByIndexRange_def ChainDB_def
          message.truncate_def del: fromMessageTypeToString.simps)
  next
    case (Req_Leave m)
    then show ?thesis
      using r t that
      by (simp add: dispatch_incoming_def Let_def act_simps ot DisconnectionMessage_roundtrip_aux [OF J]
          handleIncomingDisconnectionMessage_def del: fromMessageTypeToString.simps)
  qed
qed

lemma plain_served:
  assumes "json_laws J" "json_text_laws J" "config_get cfg PUBLIC_KEY = Inr key" "plain_typed r"
    and "chain_db_inv Q (n_store n)" "length (db_chain (n_store n)) < 2 ^ 32"
    and "json_dump J (plain_json J r) = Inr raw" "json_dump J (plain_answer J key q r n) = Inr answer"
  shows "onMessage (node_env J S C cfg srt Q) q raw n = (Inr (Some answer), plain_node r n)"
proof -
  have p: "json_parse J raw = Inr (plain_json J r)" using assms(2,7) by (auto simp: json_text_laws_def)
  have "dispatch_incoming (node_env J S C cfg srt Q) (rq_clk q) (rq_uuid q) (rq_ts q) (plain_json J r) ''{}'' n =
      (Inr answer, plain_node r n)"
    using plain_dispatched [OF assms(1,3-6)] assms(8) by simp
  then show ?thesis
    using p plain_serialized(2) [OF assms(1), of r]
    by (simp add: onMessage_def serve_def act_simps is_block_json_def handleIncomingMessage_def)
qed

subsection \<open>One request after the other\<close>

fun plain_answers ::
  "('j, 'x) json_lib_scheme \<Rightarrow> string \<Rightarrow> (request_env \<times> plain_request) list \<Rightarrow> db node \<Rightarrow> 'j list" where
  "plain_answers J key [] n = []"
| "plain_answers J key ((q, r) # rs) n = plain_answer J key q r n # plain_answers J key rs (plain_node r n)"

definition wire :: "('j, 'x) json_lib_scheme \<Rightarrow> 'j \<Rightarrow> string" where
  "wire J j = (case json_dump J j of Inl _ \<Rightarrow> '''' | Inr s \<Rightarrow> s)"

lemma plain_node_store [simp]: "n_store (plain_node r n) = n_store n"
  by (cases r) simp_all

lemma listen_loop_plain:
  assumes "json_laws J" "json_text_laws J" "config_get cfg PUBLIC_KEY = Inr key"
    and "chain_db_inv Q (n_store n)" "length (db_chain (n_store n)) < 2 ^ 32"
    and "\<forall>(q, r) \<in> set rs. plain_typed r \<and> fits J (plain_json J r)"
    and "\<forall>j \<in> set (plain_answers J key rs n). \<exists>s. json_dump J j = Inr s"
  shows "listen_loop (node_env J S C cfg srt Q) True
      (map (\<lambda>(q, r). Incoming q (Accepted (length (wire J (plain_json J r))) (wire J (plain_json J r))) False) rs) n =
    (Inr (map (\<lambda>j. Some (wire J j)) (plain_answers J key rs n)), fold (\<lambda>(q, r). plain_node r) rs n)"
  using assms(4-7)
proof (induction rs arbitrary: n)
  case (Cons x rs)
  obtain q r where x: "x = (q, r)" by (cases x)
  obtain raw where raw: "json_dump J (plain_json J r) = Inr raw" "raw \<noteq> ''''" "length raw < BUFFER_SIZE"
    using Cons.prems(3) by (auto simp: x fits_def)
  obtain a where a: "json_dump J (plain_answer J key q r n) = Inr a"
    using Cons.prems(4) by (auto simp: x)
  have "onMessage (node_env J S C cfg srt Q) q raw n = (Inr (Some a), plain_node r n)"
    using Cons.prems by (intro plain_served [OF assms(1-3) _ _ _ raw(1) a]) (auto simp: x)
  then show ?case
    using Cons.IH [of "plain_node r n"] Cons.prems recv_all(1) [OF raw(3,2)]
    by (simp add: x raw(1) a wire_def act_simps)
qed (simp add: ret_def)

end
