(* ===== verification/DC_AnswerTheorems.thy ===== *)
theory DC_AnswerTheorems
  imports DC_Answers
begin

text \<open>
  Properties of what the server answers: the type of every answer, and that the plain requests are
  answered however many come. Each is followed by a witness.
\<close>

text \<open>
  C11. Whatever a peer sends, an answer goes with the request: nothing for a text that is no JSON, the empty
  object or a blockchain error for a block, and for a message the response of the type that belongs to
  its type, an error response, or one of three fixed error texts.
\<close>

theorem answers_are_typed:
  assumes "json_laws (e_json E)" "onMessage E q raw n = (Inr (Some r), n')"
  shows "\<exists>j. json_parse (e_json E) raw = Inr j \<and> answer_ok E j r"
proof (cases "json_parse (e_json E) raw")
  case (Inl e)
  then show ?thesis using assms(2) by (auto simp: onMessage_def serve_def act_simps split: if_splits)
next
  case (Inr j)
  have s: "\<exists>n'. serve E q raw n = (Inr r, n')"
    using assms(2) by (auto simp: onMessage_def handle_def seq_def ret_def split: prod.splits sum.splits if_splits)
  show ?thesis
  proof (cases "is_block_json (e_json E) j")
    case True
    then have "\<exists>s'. onIncomingBlock (e_json E) (e_sha E) (e_crypto E) (e_chain E) (e_cfg E) (rq_now q) (rq_uuid q)
        (rq_ts q) j (n_store n) = Inr (r, s')"
      using s Inr by (auto simp: serve_def seq_def lift_def on_store_def split: sum.splits prod.splits)
    then obtain s' where "onIncomingBlock (e_json E) (e_sha E) (e_crypto E) (e_chain E) (e_cfg E) (rq_now q) (rq_uuid q)
        (rq_ts q) j (n_store n) = Inr (r, s')" by blast
    then have "answer_ok E j r" by (rule block_typed [OF assms(1) True])
    then show ?thesis using Inr by blast
  next
    case False
    then have "\<exists>n'. handleIncomingMessage E (rq_clk q) (rq_uuid q) (rq_ts q) j ''{}'' n = (Inr r, n')"
      using s Inr by (auto simp: serve_def seq_def lift_def)
    then show ?thesis using incoming_typed [OF assms(1) False] Inr by (auto simp: yields_def)
  qed
qed

text \<open>A text that is a JSON value, but no object, gets a fixed answer.\<close>

theorem answers_are_typed_witness:
  "\<exists>j. json_parse jt_lib (jv_text (JStr ''hello'')) = Inr j \<and> answer_ok alice_env j invalid_format"
proof -
  have p: "json_parse jt_lib (jv_text (JStr ''hello'')) = Inr (JStr ''hello'')"
    using jt_text_laws jt_dump [of "JStr ''hello''"] unfolding json_text_laws_def by blast
  have "onMessage alice_env quiet (jv_text (JStr ''hello'')) fresh_node = (Inr (Some invalid_format), fresh_node)"
    unfolding onMessage_def serve_def handleIncomingMessage_def dispatch_incoming_def
    by (simp add: p act_simps is_block_json_def del: jv_text.simps)
      (simp add: jt_lib_def jv_lib_def jv_contains_def ret_def)
  then show ?thesis using answers_are_typed [of alice_env quiet _ fresh_node _ fresh_node] jt_laws by simp
qed

text \<open>
  C12. No sequence of plain requests stops the server or goes unanswered: each gets the response of its
  type, computed from the state the ones before it left, in the order the requests came.
\<close>

theorem server_answers_all:
  assumes "json_laws J" "json_text_laws J" "config_get cfg PUBLIC_KEY = Inr key"
    and "db_node_ok Q n" "length (db_chain (n_store n)) < 2 ^ 32"
    and "\<forall>(q, r) \<in> set rs. plain_typed r \<and> fits J (plain_json J r)"
    and "\<forall>j \<in> set (plain_answers J key rs n). \<exists>s. json_dump J j = Inr s"
  shows "listen_loop (node_env J SHA256 C cfg srt Q) True
      (map (\<lambda>(q, r). Incoming q (Accepted (length (wire J (plain_json J r))) (wire J (plain_json J r))) False) rs) n =
    (Inr (map (\<lambda>j. Some (wire J j)) (plain_answers J key rs n)), fold (\<lambda>(q, r). plain_node r) rs n)"
  using assms(4) by (intro listen_loop_plain assms) (simp add: db_node_ok_def node_ok_def)

text \<open>A peer asks for blocks and leaves.\<close>

theorem server_answers_all_witness:
  "\<exists>r1 r2 n'. listen_loop alice_env True
      (map (\<lambda>m. Incoming quiet (Accepted (length (wire jt_lib m)) (wire jt_lib m)) False)
        [BlockRangeMessage_serialize jt_lib (BlockRangeMessage_create ''i'' 0 alice bob 0 4 ''0''),
         DisconnectionMessage_serialize jt_lib (DisconnectionMessage_create ''i'' 0 alice bob)]) fresh_node =
    (Inr [Some r1, Some r2], n')"
proof -
  let ?leave = "Req_Leave (DisconnectionMessage_create ''i'' 0 alice bob)"
  let ?range = "Req_Range (BlockRangeMessage_create ''i'' 0 alice bob 0 4 ''0'')"
  have "length (jv_text (getBasicSerialization jt_lib (DisconnectionMessage_create ''i'' 0 alice bob))) \<le> 800"
    by (intro base_text) (simp_all add: DisconnectionMessage_create_def Message_def)
  then have "fits jt_lib (plain_json jt_lib ?leave)"
    by (intro small_text_fits) (simp add: DisconnectionMessage_serialize_def BUFFER_SIZE_def)
  moreover have "fits jt_lib (plain_json jt_lib ?range)"
    using range_request_small [of "''0''" "''i''"] by (intro small_text_fits) simp
  moreover have "plain_typed ?leave" "plain_typed ?range"
    by (simp_all add: DisconnectionMessage_create_def BlockRangeMessage_create_def Message_def message_ext_defs)
  moreover have "config_get alice_cfg PUBLIC_KEY = Inr alice_key" by (simp add: alice_cfg_def config_get_def)
  ultimately have "listen_loop alice_env True (map (\<lambda>(q, r). Incoming q (Accepted (length (wire jt_lib (plain_json jt_lib r)))
      (wire jt_lib (plain_json jt_lib r))) False) [(quiet, ?range), (quiet, ?leave)]) fresh_node =
    (Inr (map (\<lambda>j. Some (wire jt_lib j)) (plain_answers jt_lib alice_key [(quiet, ?range), (quiet, ?leave)] fresh_node)),
     fold (\<lambda>(q, r). plain_node r) [(quiet, ?range), (quiet, ?leave)] fresh_node)"
    by (intro server_answers_all jt_laws jt_text_laws fresh_node_ok) simp_all
  then show ?thesis by auto
qed

end
