(* ===== verification/DC_Join.thy ===== *)
theory DC_Join
  imports DC_Answers
begin

text \<open>
  A node that joins a network: the start of \<open>ChatApplication::init\<close> (src/app/ChatApplication.cpp) over
  the servers of its peers. It connects to its trusted peer, fetches the list of peers and the missing
  blocks in batches, stores the blocks and connects to every peer it has learned of.
\<close>

subsection \<open>The client's side of a plain request\<close>

text \<open>The request and the answer to it are written as texts that fit the buffers.\<close>

definition exchange_fits ::
  "('j, 'x) json_lib_scheme \<Rightarrow> string \<Rightarrow> request_env \<Rightarrow> plain_request \<Rightarrow> db node \<Rightarrow> bool" where
  "exchange_fits J key q r ns \<longleftrightarrow> fits J (plain_json J r) \<and> fits J (plain_answer J key q r ns)"

text \<open>What the client makes of the answer.\<close>

fun plain_taken :: "string \<Rightarrow> plain_request \<Rightarrow> db node \<Rightarrow> db node \<Rightarrow> db node" where
  "plain_taken key (Req_Connect m) ns n =
     n\<lparr>n_peers := addPeer (UserPeer (host (m_to m)) (port (m_to m)) key) (n_peers n),
       n_global := setMissingBlocksCount
         (word_of_nat (case tail_after (lastBlockHash m) (db_chain (n_store ns)) of
            None \<Rightarrow> length (db_chain (n_store ns)) | Some t \<Rightarrow> length t))
         (setPeersToReceive (word_of_nat (length (peers (addPeer (m_from m) (n_peers ns))))) (n_global n))\<rparr>"
| "plain_taken key (Req_Peers m) ns n =
     n\<lparr>n_peers := fold addPeer (peer_list_loop (n_peers ns) (m_from m) (unat (pl_start m + pl_count m))
       (unat (pl_start m))) (n_peers n)\<rparr>"
| "plain_taken key (Req_Range m) ns n =
     n\<lparr>n_newBlocks := n_newBlocks n @ (case tail_after (rg_lastHash m) (db_chain (n_store ns)) of
          None \<Rightarrow> [] | Some t \<Rightarrow> take (unat (rg_count m)) (drop (unat (rg_start m)) t))\<rparr>"
| "plain_taken key (Req_Leave m) ns n = n"

lemma each_addPeer:
  "each (\<lambda>p. update (\<lambda>n. n\<lparr>n_peers := addPeer p (n_peers n)\<rparr>)) ps n =
    (Inr (), n\<lparr>n_peers := fold addPeer ps (n_peers n)\<rparr>)"
  by (induction ps arbitrary: n) (simp_all add: act_simps)

lemma response_created:
  "m_type (ConnectionMessageResponse_create u t f r a b) = CONNECT_RESPONSE"
  "m_from (ConnectionMessageResponse_create u t f r a b) = f"
  "peersToReceive (ConnectionMessageResponse_create u t f r a b) = a"
  "missingBlocksCount (ConnectionMessageResponse_create u t f r a b) = b"
  "m_type (PeerListMessageResponse_create u t f r ps) = PEER_LIST_RESPONSE"
  "pl_peers (PeerListMessageResponse_create u t f r ps) = ps"
  "m_type (DisconnectionMessageResponse_create u t f r) = DISCONNECT_RESPONSE"
  by (simp_all add: ConnectionMessageResponse_create_def PeerListMessageResponse_create_def
      DisconnectionMessageResponse_create_def Message_def message_ext_defs)

lemma response_serialized:
  assumes "json_laws J"
  shows "has_base J (message.truncate c) (ConnectionMessageResponse_serialize J c)"
    and "has_base J (message.truncate p) (PeerListMessageResponse_serialize J p)"
    and "has_base J (message.truncate r) (BlockRangeMessageResponse_serialize J r)"
    and "has_base J d (DisconnectionMessageResponse_serialize J d)"
  by (simp_all add: has_base_truncate ConnectionMessageResponse_serialize_def PeerListMessageResponse_serialize_def
      BlockRangeMessageResponse_serialize_def DisconnectionMessageResponse_serialize_def Let_def
      has_base_payload has_base_basic assms)

lemma plain_answer_taken:
  assumes J: "json_laws (e_json E)" "json_text_laws (e_json E)"
    and a: "json_dump (e_json E) (plain_answer (e_json E) key q r ns) = Inr answer"
  shows "handleOutgoingMessage E answer n = (Inr (), plain_taken key r ns n)"
proof -
  let ?J = "e_json E" and ?j = "plain_answer (e_json E) key q r ns"
  have p: "json_parse ?J answer = Inr ?j" using J(2) a by (auto simp: json_text_laws_def)
  note i = has_base_index [OF J(1)]
  note st = response_serialized [OF J(1)]
  show ?thesis
    by (cases r)
      (simp_all add: handleOutgoingMessage_def dispatch_outgoing_def Let_def act_simps p
        i [OF st(1)] i [OF st(2)] i [OF st(3)] i [OF st(4)] of_type_name [OF J(1)] message.truncate_def
        response_created ConnectionMessageResponse_roundtrip_aux [OF J(1)] PeerListMessageResponse_roundtrip_aux [OF J(1)]
        BlockRangeMessageResponse_roundtrip_aux [OF J(1)] DisconnectionMessageResponse_roundtrip_aux [OF J(1)]
        handleOutgoingConnectionMessage_def handleOutgoingPeerListMessage_def handleOutgoingBlockRangeMessage_def
        handleOutgoingDisconnectionMessage_def each_addPeer addNewBlockRange_def
        del: fromMessageTypeToString.simps each.simps)
qed

text \<open>Sent to a peer whose server runs in state \<open>ns\<close>.\<close>

lemma plain_exchange:
  assumes "json_laws J" "json_text_laws J" "config_get cfg' PUBLIC_KEY = Inr key" "plain_typed r"
    and "chain_db_inv Q (n_store ns)" "length (db_chain (n_store ns)) < 2 ^ 32"
    and f: "exchange_fits J key q r ns"
    and net: "net to = (\<lambda>raw. Some (server_reply (node_env J S C cfg' srt Q) q ns raw))"
  shows "TCPClient_sendMessage (node_env J S C cfg srt Q) net to (plain_json J r) n = (Inr (), plain_taken key r ns n)"
proof -
  obtain raw answer where raw: "json_dump J (plain_json J r) = Inr raw" "raw \<noteq> ''''" "length raw < BUFFER_SIZE"
    and a: "json_dump J (plain_answer J key q r ns) = Inr answer" "length answer < BUFFER_SIZE"
    using f by (auto simp: exchange_fits_def fits_def)
  have "onMessage (node_env J S C cfg' srt Q) q raw ns = (Inr (Some answer), plain_node r ns)"
    by (rule plain_served [OF assms(1-6) raw(1) a(1)])
  moreover have "CHR 0x00 \<notin> set answer" using assms(2) a(1) by (auto simp: json_text_laws_def)
  ultimately have "server_reply (node_env J S C cfg' srt Q) q ns raw = answer"
    using raw(2,3) a(2) by (simp add: server_reply_def recv_all)
  moreover have "handleOutgoingMessage (node_env J S C cfg srt Q) answer n = (Inr (), plain_taken key r ns n)"
    using plain_answer_taken [of "node_env J S C cfg srt Q" key q r ns answer n] assms(1,2) a(1) by simp
  ultimately show ?thesis using raw net by (simp add: TCPClient_sendMessage_def act_simps)
qed

lemma each_runs:
  "(\<And>x n. x \<in> set xs \<Longrightarrow> f x n = (Inr (), g x n)) \<Longrightarrow> each f xs n = (Inr (), fold g xs n)"
  by (induction xs arbitrary: n) (simp_all add: act_simps)

text \<open>Only the list of peers changes in an exchange of peers, and only the blocks in one of blocks.\<close>

lemma fold_peers_taken:
  "fold (\<lambda>x. plain_taken key (Req_Peers (m x)) ns) xs n =
     n\<lparr>n_peers := fold addPeer (concat (map (\<lambda>x. peer_list_loop (n_peers ns) (m_from (m x))
       (unat (pl_start (m x) + pl_count (m x))) (unat (pl_start (m x)))) xs)) (n_peers n)\<rparr>"
  by (induction xs arbitrary: n) simp_all

lemma fold_range_taken:
  "fold (\<lambda>x. plain_taken key (Req_Range (m x)) ns) xs n =
     n\<lparr>n_newBlocks := n_newBlocks n @ concat (map (\<lambda>x. case tail_after (rg_lastHash (m x)) (db_chain (n_store ns)) of
          None \<Rightarrow> [] | Some t \<Rightarrow> take (unat (rg_count (m x))) (drop (unat (rg_start (m x))) t)) xs)\<rparr>"
  by (induction xs arbitrary: n) simp_all

lemma fold_connect_taken:
  "n_peers (fold (\<lambda>p. plain_taken (key p) (Req_Connect (m p)) (ns p)) ps n) =
     fold addPeer (map (\<lambda>p. UserPeer (host (m_to (m p))) (port (m_to (m p))) (key p)) ps) (n_peers n) \<and>
   n_store (fold (\<lambda>p. plain_taken (key p) (Req_Connect (m p)) (ns p)) ps n) = n_store n"
  by (induction ps arbitrary: n) simp_all

lemma set_fold_addPeer [simp]: "set (peers (fold addPeer ps s)) = set ps \<union> set (peers s)"
  by (induction ps arbitrary: s) auto

lemma hosts_fold_addPeer [simp]: "hosts (fold addPeer ps s) = hosts s"
  by (induction ps arbitrary: s) auto

lemma UserPeer_id [simp]: "UserPeer (host p) (port p) (publicKey p) = (p :: user_peer)"
  by (cases p) (simp add: UserPeer_def)

subsection \<open>The network a node joins\<close>

text \<open>
  The servers a joining node can reach: the environment \<open>q\<close>, the configuration and the state of each. A
  server answers at its address, with or without its key.
\<close>

record join_net =
  jn_request :: request_env
  jn_cfg :: "user_peer \<Rightarrow> config_data"
  jn_node :: "user_peer \<Rightarrow> db node"

definition reaches ::
  "'j json_lib \<Rightarrow> (bytes \<Rightarrow> bytes) \<Rightarrow> ICrypto \<Rightarrow> (text_message list \<Rightarrow> text_message list) \<Rightarrow> sqlite \<Rightarrow>
   net \<Rightarrow> join_net \<Rightarrow> user_peer \<Rightarrow> user_peer \<Rightarrow> bool" where
  "reaches J S C srt Q net N to p \<longleftrightarrow>
     net to = (\<lambda>raw. Some (server_reply (node_env J S C (jn_cfg N p) srt Q) (jn_request N) (jn_node N p) raw)) \<and>
     config_get (jn_cfg N p) PUBLIC_KEY = Inr (publicKey p) \<and> chain_db_inv Q (n_store (jn_node N p)) \<and>
     length (db_chain (n_store (jn_node N p))) < 2 ^ 32"

text \<open>The request to connect the client makes for the peer \<open>to\<close>.\<close>

definition connect_request :: "(user_peer \<Rightarrow> string \<times> u64) \<Rightarrow> user_peer \<Rightarrow> string \<Rightarrow> user_peer \<Rightarrow> connection_message" where
  "connect_request fresh me h to = ConnectionMessage_create (fst (fresh to)) (snd (fresh to)) me to h"

lemma request_created [simp]:
  "m_type (connect_request fresh me h to) = CONNECT" "m_from (connect_request fresh me h to) = me"
  "m_to (connect_request fresh me h to) = to" "lastBlockHash (connect_request fresh me h to) = h"
  "m_type (PeerListMessage_create u t f r s k) = PEER_LIST" "m_from (PeerListMessage_create u t f r s k) = f"
  "pl_start (PeerListMessage_create u t f r s k) = s" "pl_count (PeerListMessage_create u t f r s k) = k"
  by (simp_all add: connect_request_def ConnectionMessage_create_def PeerListMessage_create_def Message_def message_ext_defs)

text \<open>Connecting to a list of peers.\<close>

lemma connect_all:
  assumes "json_laws J" "json_text_laws J" "local_peer cfg = Inr me"
    and "\<forall>to \<in> set tos. reaches J S C srt Q net N to (p to) \<and>
      exchange_fits J (publicKey (p to)) (jn_request N) (Req_Connect (connect_request fresh me h to)) (jn_node N (p to))"
  shows "TCPClient_connect (node_env J S C cfg srt Q) net fresh h tos n =
    (Inr (), fold (\<lambda>to. plain_taken (publicKey (p to)) (Req_Connect (connect_request fresh me h to)) (jn_node N (p to))) tos n)"
proof -
  have "TCPClient_sendMessage (node_env J S C cfg srt Q) net to (plain_json J (Req_Connect (connect_request fresh me h to))) n =
      (Inr (), plain_taken (publicKey (p to)) (Req_Connect (connect_request fresh me h to)) (jn_node N (p to)) n)"
    if "to \<in> set tos" for to n
    using assms that by (intro plain_exchange [of J "jn_cfg N (p to)" _ _ Q _ "jn_request N"]) (auto simp: reaches_def)
  then have "each (\<lambda>to. TCPClient_sendMessage (node_env J S C cfg srt Q) net to
      (ConnectionMessage_serialize J (ConnectionMessage_create (fst (fresh to)) (snd (fresh to)) me to h))) tos n =
    (Inr (), fold (\<lambda>to. plain_taken (publicKey (p to)) (Req_Connect (connect_request fresh me h to)) (jn_node N (p to))) tos n)"
    by (intro each_runs) (simp only: plain_json.simps connect_request_def)
  then show ?thesis
    using assms(3) by (simp only: TCPClient_connect_def node_env_simps seq_def lift_def prod.case sum.case)
qed

subsection \<open>The start of a node\<close>

lemma findTipIndex_some:
  assumes "chain_db_inv Q d" "length (db_chain d) < 2 ^ 32"
  shows "\<exists>r. findTipIndex (ChainDB Q) i d = Inr r"
proof -
  obtain tab where tab: "db_ready d" "blocks_t (db_data d) = Some tab" "block_rows d = trows tab"
    "map br_id (trows tab) = [1..<Suc (length (trows tab))]"
    using assms(1) by (rule chain_db_invE)
  show ?thesis
  proof (cases "trows tab" rule: rev_cases)
    case Nil
    then show ?thesis
      by (simp add: ChainDB_def ChainDB_findTipIndex_def select_ready tab(1,2) sql_last_def with_blocks_def ex_bool_eq)
  next
    case (snoc rs r)
    have "br_id r = Suc (length rs)"
      using br_id_nth [OF tab(4), of "length rs"] by (simp add: snoc)
    moreover have "Suc (length rs) < 18446744073709551616"
      using assms(2) by (simp add: db_chain_rows [OF tab(2)] snoc)
    ultimately show ?thesis
      by (simp add: ChainDB_def ChainDB_findTipIndex_def select_ready tab(1,2) sql_last_def with_blocks_def snoc
          id_column_def column_text_def set_index_def ex_bool_eq)
  qed
qed

lemma fold_addPeer_inv: "peers_inv s \<Longrightarrow> peers_inv (fold addPeer ps s)"
  by (induction ps arbitrary: s) auto

text \<open>Fetching the list of peers, and the missing blocks, from the trusted peer.\<close>

lemma peers_received:
  assumes "json_laws J" "json_text_laws J" "reaches J S C srt Q net N B B"
    and "length (peers (n_peers (jn_node N B))) \<le> 2 ^ 32 - 12"
    and "\<forall>s \<in> set (batch_starts PEERS_BATCH_SIZE (getPeersCount (n_peers (jn_node N B)))).
      exchange_fits J (publicKey B) (jn_request N)
        (Req_Peers (PeerListMessage_create (fst (freshP s)) (snd (freshP s)) me B s PEERS_BATCH_SIZE)) (jn_node N B)"
  shows "batch_loop PEERS_BATCH_SIZE (getPeersCount (n_peers (jn_node N B)))
      (request_peers (node_env J S C cfg srt Q) net freshP me B) 0 n =
    Some (Inr (), n\<lparr>n_peers := fold addPeer (filter (\<lambda>p. p \<noteq> me) (peers (n_peers (jn_node N B)))) (n_peers n)\<rparr>)"
proof -
  let ?m = "\<lambda>s. PeerListMessage_create (fst (freshP s)) (snd (freshP s)) me B s PEERS_BATCH_SIZE"
  let ?ns = "jn_node N B" and ?E = "node_env J S C cfg srt Q"
  let ?starts = "batch_starts PEERS_BATCH_SIZE (getPeersCount (n_peers ?ns))"
  have "TCPClient_sendMessage ?E net B (plain_json J (Req_Peers (?m s))) n =
      (Inr (), plain_taken (publicKey B) (Req_Peers (?m s)) ?ns n)" if "s \<in> set ?starts" for s n
    using assms that by (intro plain_exchange [of J "jn_cfg N B" _ _ Q _ "jn_request N"]) (auto simp: reaches_def)
  then have "each (request_peers ?E net freshP me B) ?starts n =
      (Inr (), fold (\<lambda>s. plain_taken (publicKey B) (Req_Peers (?m s)) ?ns) ?starts n)"
    by (intro each_runs) (simp only: request_peers_def plain_json.simps node_env_simps)
  moreover have "unat (getPeersCount (n_peers ?ns)) + unat PEERS_BATCH_SIZE \<le> 2 ^ 32" "0 < unat PEERS_BATCH_SIZE"
    using assms(4) by (simp_all add: getPeersCount_def unat_of_nat take_bit_eq_mod PEERS_BATCH_SIZE_def)
  ultimately show ?thesis
    using peer_pages [OF assms(4), of me] by (simp add: batch_loop_terminates fold_peers_taken)
qed

lemma blocks_received:
  assumes "json_laws J" "json_text_laws J" "reaches J S C srt Q net N B B"
    and "tail_after h (db_chain (n_store (jn_node N B))) = Some l" "length l \<le> 2 ^ 32 - 4"
    and "\<forall>s \<in> set (batch_starts BLOCKS_BATCH_SIZE (word_of_nat (length l))).
      exchange_fits J (publicKey B) (jn_request N)
        (Req_Range (BlockRangeMessage_create (fst (freshB s)) (snd (freshB s)) me B s BLOCKS_BATCH_SIZE h)) (jn_node N B)"
  shows "batch_loop BLOCKS_BATCH_SIZE (word_of_nat (length l))
      (request_blocks (node_env J S C cfg srt Q) net freshB me B h) 0 n =
    Some (Inr (), n\<lparr>n_newBlocks := n_newBlocks n @ l\<rparr>)"
proof -
  let ?m = "\<lambda>s. BlockRangeMessage_create (fst (freshB s)) (snd (freshB s)) me B s BLOCKS_BATCH_SIZE h"
  let ?ns = "jn_node N B" and ?E = "node_env J S C cfg srt Q"
  let ?k = "word_of_nat (length l) :: u32"
  let ?starts = "batch_starts BLOCKS_BATCH_SIZE ?k"
  have "TCPClient_sendMessage ?E net B (plain_json J (Req_Range (?m s))) n =
      (Inr (), plain_taken (publicKey B) (Req_Range (?m s)) ?ns n)" if "s \<in> set ?starts" for s n
    using assms that by (intro plain_exchange [of J "jn_cfg N B" _ _ Q _ "jn_request N"]) (auto simp: reaches_def)
  then have "each (request_blocks ?E net freshB me B h) ?starts n =
      (Inr (), fold (\<lambda>s. plain_taken (publicKey B) (Req_Range (?m s)) ?ns) ?starts n)"
    by (intro each_runs) (simp only: request_blocks_def plain_json.simps node_env_simps)
  moreover have k: "unat ?k = length l" using assms(5) by (simp add: unat_of_nat take_bit_eq_mod)
  moreover have "unat ?k + unat BLOCKS_BATCH_SIZE \<le> 2 ^ 32" "0 < unat BLOCKS_BATCH_SIZE"
    using assms(5) k by (simp_all add: BLOCKS_BATCH_SIZE_def)
  ultimately show ?thesis
    using batch_starts_pages [of BLOCKS_BATCH_SIZE ?k l] assms(4)
    by (simp add: batch_loop_terminates fold_range_taken)
qed

end
