(* ===== verification/DC_JoinTheorems.thy ===== *)
theory DC_JoinTheorems
  imports DC_Join
begin

text \<open>Joining a network: what a node knows, and who knows it, when its start is over.\<close>

definition knows_me :: "'j json_lib \<Rightarrow> (bytes \<Rightarrow> bytes) \<Rightarrow> ICrypto \<Rightarrow> (text_message list \<Rightarrow> text_message list) \<Rightarrow>
   sqlite \<Rightarrow> join_net \<Rightarrow> (user_peer \<Rightarrow> string \<times> u64) \<Rightarrow> user_peer \<Rightarrow> user_peer \<Rightarrow> bool" where
  "knows_me J S C srt Q N fresh me p \<longleftrightarrow>
     me \<in> set (peers (n_peers (snd (onMessage (node_env J S C (jn_cfg N p) srt Q) (jn_request N)
       (wire J (plain_json J (Req_Connect (connect_request fresh me ''0'' p)))) (jn_node N p)))))"

lemma known_by:
  assumes "json_laws J" "json_text_laws J" "reaches J S C srt Q net N p p"
    and "exchange_fits J (publicKey p) (jn_request N) (Req_Connect (connect_request fresh me ''0'' p)) (jn_node N p)"
  shows "knows_me J S C srt Q N fresh me p"
proof -
  let ?r = "Req_Connect (connect_request fresh me ''0'' p)"
  obtain raw answer where raw: "json_dump J (plain_json J ?r) = Inr raw"
    and a: "json_dump J (plain_answer J (publicKey p) (jn_request N) ?r (jn_node N p)) = Inr answer"
    using assms(4) by (auto simp: exchange_fits_def fits_def)
  have "onMessage (node_env J S C (jn_cfg N p) srt Q) (jn_request N) raw (jn_node N p) =
      (Inr (Some answer), plain_node ?r (jn_node N p))"
    using assms(3) raw a by (intro plain_served [OF assms(1,2)]) (auto simp: reaches_def)
  then show ?thesis using raw by (simp add: knows_me_def wire_def)
qed


subsection \<open>Bob's node, joined by alice\<close>

definition joining :: "db node" where
  "joining = fresh_node\<lparr>n_peers := \<lparr> hosts = [\<lparr> host = ''127.0.0.1'', port = 8002 \<rparr>], peers = [] \<rparr>\<rparr>"

definition bob_node :: "db node" where
  "bob_node = fresh_node\<lparr>n_store := hello_db, n_peers := \<lparr> hosts = [], peers = [alice] \<rparr>\<rparr>"

definition bob_net :: join_net where
  "bob_net = \<lparr> jn_request = quiet, jn_cfg = (\<lambda>_. bob_cfg), jn_node = (\<lambda>_. bob_node) \<rparr>"

abbreviation bob_env :: "(db, jv) env" where
  "bob_env \<equiv> node_env jt_lib sha256_bytes tests_crypto bob_cfg (sort_key (\<lambda>m. unat (m_timestamp m))) lite"

abbreviation only_bob :: net where
  "only_bob \<equiv> (\<lambda>_ raw. Some (server_reply bob_env quiet bob_node raw))"

lemma number_text: "length (jv_text (JNum (unat (w :: u32)))) \<le> 30"
  using length_to_string_le [of "unat w" 20] unat_u32_bound [of w] by simp

lemma small_base:
  fixes m :: "'a message_scheme"
  assumes "length (jv_text (UserPeer_toJson jt_lib (m_from m))) \<le> 200" "length (jv_text (UserPeer_toJson jt_lib (m_to m))) \<le> 200"
    "length (m_id m) \<le> 36"
  shows "length (jv_text (getBasicSerialization jt_lib m)) \<le> 800"
  using assms length_word64_text [of "m_timestamp m"]
  by (cases "m_type m") (auto simp: getBasicSerialization_def Let_def)

lemma one_payload_fits:
  assumes "length (jv_text (getBasicSerialization jt_lib m)) \<le> 800" "length k \<le> 40" "length (jv_text v) \<le> 1000"
  shows "fits jt_lib (set_payload jt_lib (getBasicSerialization jt_lib m) k v)"
  using payload_text [of "getBasicSerialization jt_lib m" k v] assms
  by (intro small_text_fits) (simp add: BUFFER_SIZE_def)

lemma two_payloads_fit:
  assumes "length (jv_text (getBasicSerialization jt_lib m)) \<le> 800" "length k \<le> 40" "length k' \<le> 40"
    "length (jv_text v) \<le> 1000" "length (jv_text v') \<le> 1000"
  shows "fits jt_lib (set_payload jt_lib (set_payload jt_lib (getBasicSerialization jt_lib m) k v) k' v')"
  using payload_text [of "getBasicSerialization jt_lib m" k v]
    payload_text [of "set_payload jt_lib (getBasicSerialization jt_lib m) k v" k' v'] assms
  by (intro small_text_fits) (simp add: BUFFER_SIZE_def)

lemma two_numbers_fit:
  assumes "length (jv_text (getBasicSerialization jt_lib m)) \<le> 800" "length k \<le> 40" "length k' \<le> 40"
  shows "fits jt_lib (set_payload jt_lib (set_payload jt_lib (getBasicSerialization jt_lib m) k (JNum (unat (w :: u32))))
    k' (JNum (unat (w' :: u32))))"
  using number_text [of w] number_text [of w'] by (intro two_payloads_fit assms) linarith+

lemma bob_facts:
  "jn_request bob_net = quiet" "jn_cfg bob_net p = bob_cfg" "jn_node bob_net p = bob_node"
  "peers (n_peers bob_node) = [alice]" "n_store bob_node = hello_db" "config_get bob_cfg PUBLIC_KEY = Inr bob_key"
  "host bob = ''127.0.0.1''" "port bob = 8002" "chain_db_inv lite (n_store bob_node)"
  by (simp_all add: bob_net_def bob_node_def bob_cfg_def config_get_def bob_def UserPeer_def)

lemma bob_reaches:
  "reaches jt_lib sha256_bytes tests_crypto (sort_key (\<lambda>m. unat (m_timestamp m))) lite only_bob bob_net to bob"
  by (simp add: reaches_def bob_facts)

lemma bare_peer_text: "length (jv_text (UserPeer_toJson jt_lib (UserPeer ''127.0.0.1'' 8002 ''''))) \<le> 200"
  using length_to_string_le [of 8002 4] by (simp add: UserPeer_toJson_def Let_def UserPeer_def)

lemma bob_addressed: "UserPeer (host to) (port to) bob_key = bob" if "to \<in> {bob, UserPeer ''127.0.0.1'' 8002 ''''}"
  using that by (auto simp: bob_def UserPeer_def)

lemma connect_fits:
  assumes "to \<in> {bob, UserPeer ''127.0.0.1'' 8002 ''''}" "h = ''0''"
  shows "exchange_fits jt_lib bob_key quiet (Req_Connect (connect_request (\<lambda>_. (''r'', 0)) alice h to)) bob_node"
proof -
  have "length (jv_text (getBasicSerialization jt_lib (connect_request (\<lambda>_. (''r'', 0)) alice h to))) \<le> 800"
    using assms(1) bare_peer_text peer_texts
    by (intro small_base) (auto simp: connect_request_def ConnectionMessage_create_def Message_def message_ext_defs)
  moreover have "length (jv_text (getBasicSerialization jt_lib (ConnectionMessageResponse_create ''q'' 0 bob alice a b))) \<le> 800" for a b
    by (intro base_text) (simp_all add: ConnectionMessageResponse_create_def Message_def message_ext_defs)
  ultimately show ?thesis
    using assms(2)
    by (simp add: exchange_fits_def ConnectionMessage_serialize_def ConnectionMessageResponse_serialize_def Let_def
        bob_addressed [OF assms(1)] one_payload_fits two_numbers_fit)
qed

lemma pages_fit:
  "exchange_fits jt_lib bob_key quiet (Req_Peers (PeerListMessage_create ''r'' 0 alice bob 0 PEERS_BATCH_SIZE)) bob_node"
  "exchange_fits jt_lib bob_key quiet (Req_Range (BlockRangeMessage_create ''r'' 0 alice bob 0 BLOCKS_BATCH_SIZE ''0'')) bob_node"
proof -
  have "fits jt_lib (PeerListMessage_serialize jt_lib (PeerListMessage_create ''r'' 0 alice bob 0 PEERS_BATCH_SIZE))"
    unfolding PeerListMessage_serialize_def Let_def jv_nodes
    by (intro two_numbers_fit base_text) (simp_all add: PeerListMessage_create_def Message_def message_ext_defs)
  moreover have "fits jt_lib (PeerListMessageResponse_serialize jt_lib (PeerListMessageResponse_create ''q'' 0 bob alice []))"
    unfolding PeerListMessageResponse_serialize_def
    by (intro one_payload_fits base_text)
      (simp_all add: PeerListMessageResponse_create_def Message_def message_ext_defs)
  moreover have "peer_list_loop (n_peers bob_node) alice (unat PEERS_BATCH_SIZE) 0 = []"
    by (simp add: peer_list_loop_eq bob_facts take_Cons')
  moreover have "m_to (PeerListMessage_create ''r'' 0 alice bob 0 PEERS_BATCH_SIZE) = bob"
    by (simp add: PeerListMessage_create_def Message_def message_ext_defs)
  ultimately show "exchange_fits jt_lib bob_key quiet (Req_Peers (PeerListMessage_create ''r'' 0 alice bob 0 PEERS_BATCH_SIZE)) bob_node"
    by (simp add: exchange_fits_def)
  have "fits jt_lib (plain_json jt_lib (Req_Range (BlockRangeMessage_create ''r'' 0 alice bob 0 BLOCKS_BATCH_SIZE ''0'')))"
    using range_request_small [of "''0''" "''r''"] by (intro small_text_fits) (simp add: BLOCKS_BATCH_SIZE_def)
  moreover have "length (jv_text (getBasicSerialization jt_lib (BlockRangeMessageResponse_create ''q'' 0 bob alice [hello_block]))) \<le> 800"
    by (intro base_text) (simp_all add: BlockRangeMessageResponse_create_def Message_def message_ext_defs)
  ultimately show "exchange_fits jt_lib bob_key quiet (Req_Range (BlockRangeMessage_create ''r'' 0 alice bob 0 BLOCKS_BATCH_SIZE ''0'')) bob_node"
    using hello_text
    by (simp add: exchange_fits_def tail_after_def bob_facts BLOCKS_BATCH_SIZE_def BlockRangeMessageResponse_serialize_def
        one_payload_fits)
qed


end
