(* ===== verification/DC_Refusal.thy ===== *)
theory DC_Refusal
  imports DC_Answers
begin

text \<open>
  A text whose block a peer refuses (src/infra/network/TCPClient.cpp,
  src/domain/blockchain/BlockchainService.cpp): the broadcast stops at that peer, the sender takes its
  message back and tells the receiver to do the same.
\<close>

subsection \<open>The broadcast\<close>

text \<open>The callback always has an answer.\<close>

lemma callback_answers: "sendCallback E net raw p = Inr True \<or> sendCallback E net raw p = Inr False"
  by (auto simp: sendCallback_def split: option.split sum.split)

text \<open>The peers asked are those up to the first that refuses.\<close>

lemma broadcast_stops:
  assumes "\<forall>p \<in> set before. sendCallback E net raw p = Inr True" "sendCallback E net raw p = Inr False"
  shows "broadcast (sendCallback E net) raw (before @ p # after) = Inr (False, before @ [p])"
  using assms by (induction before) (auto simp: catch_std_def)

lemma first_refusal:
  assumes "p \<in> set ps" "sendCallback E net raw p = Inr False"
  shows "\<exists>before q after. ps = before @ q # after \<and> (\<forall>p \<in> set before. sendCallback E net raw p = Inr True) \<and>
    sendCallback E net raw q = Inr False"
proof -
  have "\<exists>p \<in> set ps. sendCallback E net raw p = Inr False" using assms by blast
  from split_list_first_prop [OF this] obtain before q after where
    "ps = before @ q # after" "sendCallback E net raw q = Inr False"
    "\<forall>p \<in> set before. \<not> sendCallback E net raw p = Inr False" by blast
  moreover from this(3) have "\<forall>p \<in> set before. sendCallback E net raw p = Inr True"
    using callback_answers by blast
  ultimately show ?thesis by blast
qed

subsection \<open>The sender\<close>

definition withdrawal :: "string \<Rightarrow> u64 \<Rightarrow> block \<Rightarrow> text_message \<Rightarrow> blockchain_error" where
  "withdrawal uuid ts b m = BlockchainErrorMessageResponse_create uuid ts (m_to m)
     ''Block was not stored (maybe duplicate  or fork)'' (hash b) (m_id m)"

lemma withdrawn:
  assumes E: "E = node_env J SHA256 C cfg srt Q" and n: "db_node_ok Q n"
    and ack: "handleOutgoingMessage E ack n = (Inr (), n)"
    and b: "json_dump J (Block_toJson J b) = Inr raw" "c_str (hash b) \<notin> st_block ` set (db_messages (n_store n))"
    and p: "p \<in> set (peers (n_peers n))" "sendCallback E net raw p = Inr False"
    and notice: "json_dump J (BlockchainErrorMessageResponse_serialize J (withdrawal uuid ts b m)) = Inr notice"
  shows "\<exists>n'. after_delivery E net uuid ts b m sent ack n = (Inr (Some notice), n') \<and> db_node_ok Q n' \<and>
    db_chain (n_store n') = db_chain (n_store n) \<and> db_messages (n_store n') = db_messages (n_store n) \<and>
    n_peers n' = n_peers n"
proof -
  have inv: "chain_db_inv Q (n_store n)" "message_db_inv (n_store n)" "peer_db_inv Q (n_store n)"
    "peers_inv (n_peers n)" using n by (simp_all add: db_node_ok_def node_ok_def)
  obtain ok d1 where d1: "insertSecretMessage (MessageDB J C cfg srt Q) m sent (hash b) (n_store n) = Inr (ok, d1)"
    "message_db_inv d1" "db_messages d1 = (if c_str (m_id m) \<in> st_id ` set (db_messages (n_store n))
      then db_messages (n_store n) else db_messages (n_store n) @ [stored m sent (hash b)])"
    using MessageDB_insert [OF inv(2), of Q m sent "hash b"] by (auto simp: MessageDB_def)
  note f1 = nst.insert_frame [OF d1(1)]
  obtain d2 where d2: "repoAddPeer (PeerDB Q) (m_to m) d1 = Inr d2" "peer_db_inv Q d2"
    using pdb.add [of Q d1 "m_to m"] f1 inv(3) by auto
  note f2 = nst.add_frame [OF d2(1)]
  have "message_db_inv d2" using f2 d1(2) by simp
  from MessageDB_remove_block [OF this, of Q "hash b"] obtain d3 where d3:
    "removeMessageByBlockHash (MessageDB J C cfg srt Q) (hash b) d2 = Inr (True, d3)" "message_db_inv d3"
    "db_messages d3 = filter (\<lambda>e. st_block e \<noteq> c_str (hash b)) (db_messages d2)" by (auto simp: MessageDB_def)
  note f3 = nst.remove_frame [OF d3(1)]
  have "filter (\<lambda>e. st_block e \<noteq> c_str (hash b)) (db_messages (n_store n)) = db_messages (n_store n)"
    using b(2) by (intro filter_True) (metis imageI)
  then have msgs: "db_messages d3 = db_messages (n_store n)"
    using d3(3) d1(3) f2 by (simp add: stored_def)
  obtain before q after where ps: "peers (n_peers n) = before @ q # after"
    "\<forall>p \<in> set before. sendCallback E net raw p = Inr True" "sendCallback E net raw q = Inr False"
    using first_refusal [OF p] by blast
  have "storeAndBroadcastBlock J (ChainDB Q) b (peers (n_peers n)) (sendCallback E net) d2 =
      Inr (False, before @ [q], d2)"
    using broadcast_stops [OF ps(2,3), of after] b(1) by (simp add: storeAndBroadcastBlock_def ps(1))
  then have "after_delivery E net uuid ts b m sent ack n = (Inr (Some notice), n\<lparr>n_store := d3\<rparr>)"
    using d1(1) d2(1) d3(1) notice
    unfolding E
    by (simp add: after_delivery_def act_simps ack [unfolded E] Service_insertSecretMessage_def undo_message_def
        addChatPeer_def store_and_broadcast_def getPeers_def removeMessageByBlockHashOrId_def withdrawal_def)
  moreover have "db_node_ok Q (n\<lparr>n_store := d3\<rparr>)"
    using inv d1(2) d2(2) d3(2) f1 f2 f3 by (simp add: db_node_ok_def node_ok_def)
  ultimately show ?thesis using msgs f1 f2 f3 by auto
qed

subsection \<open>The receiver\<close>

lemma withdrawal_serialized:
  assumes "json_laws J"
  shows "has_base J (message.truncate m) (BlockchainErrorMessageResponse_serialize J m)"
    and "\<not> is_block_json J (BlockchainErrorMessageResponse_serialize J m)"
  by (simp add: has_base_truncate BlockchainErrorMessageResponse_serialize_def Let_def has_base_payload
      has_base_basic assms)
    (simp add: BlockchainErrorMessageResponse_serialize_def Let_def is_block_json_def getBasicSerialization_def
      set_payload_def json_simps [OF assms])

lemma withdrawal_fields:
  "m_type (withdrawal uuid ts b m) = BLOCKCHAIN_ERROR_RESPONSE" "be_blockHash (withdrawal uuid ts b m) = hash b"
  by (simp_all add: withdrawal_def BlockchainErrorMessageResponse_create_def Message_def message_ext_defs)

text \<open>Told of it, a node removes the messages of the block and answers with the empty object.\<close>

lemma withdrawal_served:
  assumes J: "json_laws J" "json_text_laws J" and n: "db_node_ok Q n"
    and notice: "json_dump J (BlockchainErrorMessageResponse_serialize J (withdrawal uuid ts b m)) = Inr notice"
  shows "\<exists>n'. onMessage (node_env J SHA256 C cfg srt Q) q notice n = (Inr (Some ''{}''), n') \<and> db_node_ok Q n' \<and>
    db_messages (n_store n') = filter (\<lambda>e. st_block e \<noteq> c_str (hash b)) (db_messages (n_store n)) \<and>
    db_chain (n_store n') = db_chain (n_store n) \<and> n_peers n' = n_peers n"
proof -
  let ?E = "node_env J SHA256 C cfg srt Q" and ?w = "withdrawal uuid ts b m"
  let ?j = "BlockchainErrorMessageResponse_serialize J ?w"
  have inv: "message_db_inv (n_store n)" using n by (simp add: db_node_ok_def node_ok_def)
  obtain d where d: "removeMessageByBlockHash (MessageDB J C cfg srt Q) (hash b) (n_store n) = Inr (True, d)"
    "message_db_inv d" "db_messages d = filter (\<lambda>e. st_block e \<noteq> c_str (hash b)) (db_messages (n_store n))"
    using MessageDB_remove_block [OF inv, of Q "hash b"] by (auto simp: MessageDB_def)
  note f = nst.remove_frame [OF d(1)]
  have p: "json_parse J notice = Inr ?j" using J(2) notice by (auto simp: json_text_laws_def)
  have t: "json_at J ?j ''type'' = Inr (json_of_string J (fromMessageTypeToString BLOCKCHAIN_ERROR_RESPONSE))"
    using has_base_type [OF J(1) withdrawal_serialized(1) [OF J(1), of ?w]]
    by (simp add: withdrawal_fields message.truncate_def del: fromMessageTypeToString.simps)
  have "dispatch_incoming ?E (rq_clk q) (rq_uuid q) (rq_ts q) ?j ''{}'' n = (Inr ''{}'', n\<lparr>n_store := d\<rparr>)"
    using of_type_name [of ?E BLOCKCHAIN_ERROR_RESPONSE] J(1) d(1)
    by (simp add: dispatch_incoming_def Let_def act_simps t withdrawal_fields
        BlockchainErrorMessageResponse_roundtrip_aux [OF J(1)] handleOutgoingBlockchainErrorMessage_def
        removeMessageByBlockHashOrId_def del: fromMessageTypeToString.simps)
  then have "onMessage ?E q notice n = (Inr (Some ''{}''), n\<lparr>n_store := d\<rparr>)"
    using p withdrawal_serialized(2) [OF J(1), of ?w]
    by (simp add: onMessage_def serve_def act_simps handleIncomingMessage_def handle_def)
  moreover have "db_node_ok Q (n\<lparr>n_store := d\<rparr>)" using n d(2) f by (simp add: db_node_ok_def node_ok_def)
  ultimately show ?thesis using d(3) f by auto
qed

subsection \<open>A peer that is ahead\<close>

text \<open>The reasons to refuse a signed and hashed block that does not follow the tip.\<close>

definition refusals :: "string list" where
  "refusals = [''Block timestamp is too far in the future'', ''Previous block not found in local chain'',
     ''Block extends non-tip block (fork detected)'']"

lemma old_tip:
  assumes inv: "chain_db_inv Q d" "db_chain d = c @ l" "l \<noteq> []" and v: "valid_chain SHA256 C (c @ l)" "sha_len SHA256"
    and b: "previousHash b = tip_hash c"
  shows "\<not> extends_tip (c @ l) b"
proof -
  have tip: "tip_hash (c @ l) = hash (last l)" using inv(3) by (simp add: tip_hash_def)
  have neq: "tip_hash c \<noteq> tip_hash (c @ l)"
  proof (cases "c = []")
    case True
    then show ?thesis using valid_chain_tip [OF v(1) _ v(2)] inv(3) by auto
  next
    case False
    have "distinct (map hash c @ map hash l)" using cdb.distinct_hashes [OF inv(1)] inv(2) by simp
    moreover have "hash (last c) \<in> set (map hash c)" "hash (last l) \<in> set (map hash l)"
      using False inv(3) by (simp_all add: image_eqI)
    ultimately have "hash (last c) \<noteq> hash (last l)" unfolding distinct_append by (metis disjoint_iff)
    then show ?thesis using False unfolding tip by (simp add: tip_hash_def)
  qed
  have "c_str (tip_hash c) = tip_hash c"
  proof (cases "c = []")
    case False
    then show ?thesis using cdb.stored_clean [OF inv(1), of "last c"] inv(2) by (simp add: tip_hash_def)
  qed (simp add: c_str_def)
  then show ?thesis using neq b by (simp add: extends_tip_def)
qed

lemma ahead_refuses:
  assumes inv: "chain_db_inv Q d" "db_chain d = c @ l" "l \<noteq> []" and v: "valid_chain SHA256 C (c @ l)" "sha_len SHA256"
    and b: "valid_block SHA256 C b" "previousHash b = tip_hash c"
  shows "\<exists>e \<in> set refusals. validateIncomingBlock SHA256 C (ChainDB Q) now b d = Inr (Some e)"
proof -
  obtain f t where t: "findTip (ChainDB Q) Block d = Inr (f, t)" "hash t = tip_hash (c @ l)"
    using cdb.tip_default [OF inv(1)] inv(2) by auto
  have "previousHash b \<noteq> hash t"
    using old_tip [OF inv v b(2)] t(2) by (auto simp: extends_tip_def)
  moreover obtain g x where x: "findBlockByHash (ChainDB Q) (previousHash b) Block d = Inr (g, x)"
    using cdb.find_hash [OF inv(1), of "previousHash b" Block] by (auto split: option.splits)
  moreover have "g \<longrightarrow> hash x \<noteq> hash t"
  proof
    assume g
    then have "hash x = c_str (previousHash b)" using cdb.find_tip_only [OF inv(1)] x by simp
    moreover have "c_str (previousHash b) \<noteq> tip_hash (c @ l)"
      using old_tip [OF inv v b(2)] inv(3) by (auto simp: extends_tip_def)
    ultimately show "hash x \<noteq> hash t" using t(2) by simp
  qed
  ultimately show ?thesis
    using validateSingleBlock_None [of SHA256 C b] b(1)
    by (auto simp: validateIncomingBlock_def t(1) x refusals_def)
qed

text \<open>Its server answers with the error, changes nothing, and the callback of the sender fails.\<close>

definition refusal_fits :: "('j, 'x) json_lib_scheme \<Rightarrow> config_data \<Rightarrow> request_env \<Rightarrow> block \<Rightarrow> bool" where
  "refusal_fits J cfg q b \<longleftrightarrow> (\<exists>me. local_peer cfg = Inr me \<and> (\<forall>e \<in> set refusals.
     fits J (BlockchainErrorMessageResponse_serialize J
       (BlockchainErrorMessageResponse_create (rq_uuid q) (rq_ts q) me e (hash b) ''-1''))))"

lemma ahead_answers:
  assumes J: "json_laws J" "json_text_laws J" "json_dump J (Block_toJson J b) = Inr raw"
    and inv: "chain_db_inv Q (n_store s)" "db_chain (n_store s) = c @ l" "l \<noteq> []"
    and v: "valid_chain SHA256 C (c @ l)" "sha_len SHA256"
    and b: "valid_block SHA256 C b" "previousHash b = tip_hash c" and f: "refusal_fits J cfg q b"
  shows "\<exists>m answer. m_type m = BLOCKCHAIN_ERROR_RESPONSE \<and> length answer < BUFFER_SIZE \<and>
    json_dump J (BlockchainErrorMessageResponse_serialize J m) = Inr answer \<and>
    onMessage (node_env J SHA256 C cfg srt Q) q raw s = (Inr (Some answer), s)"
proof -
  obtain e where e: "e \<in> set refusals" "validateIncomingBlock SHA256 C (ChainDB Q) (rq_now q) b (n_store s) = Inr (Some e)"
    using ahead_refuses [OF inv v b] by blast
  obtain me where me: "local_peer cfg = Inr me" "fits J (BlockchainErrorMessageResponse_serialize J
      (BlockchainErrorMessageResponse_create (rq_uuid q) (rq_ts q) me e (hash b) ''-1''))"
    using f e(1) by (auto simp: refusal_fits_def)
  let ?m = "BlockchainErrorMessageResponse_create (rq_uuid q) (rq_ts q) me e (hash b) ''-1''"
  obtain answer where a: "json_dump J (BlockchainErrorMessageResponse_serialize J ?m) = Inr answer" "length answer < BUFFER_SIZE"
    using me(2) by (auto simp: fits_def)
  have p: "json_parse J raw = Inr (Block_toJson J b)" using J(2,3) by (auto simp: json_text_laws_def)
  have "onIncomingBlock J SHA256 C (ChainDB Q) cfg (rq_now q) (rq_uuid q) (rq_ts q) (Block_toJson J b) (n_store s) =
      Inr (answer, n_store s)"
    using e(2) a(1) me(1)
    by (simp add: onIncomingBlock_def Block_json_roundtrip_aux [OF J(1)] block_error_response_def)
  then have "onMessage (node_env J SHA256 C cfg srt Q) q raw s = (Inr (Some answer), s)"
    using p block_json [OF J(1), of b] by (simp add: onMessage_def serve_def act_simps)
  moreover have "m_type ?m = BLOCKCHAIN_ERROR_RESPONSE"
    by (simp add: BlockchainErrorMessageResponse_create_def Message_def message_ext_defs)
  ultimately show ?thesis using a by blast
qed

lemma callback_refused:
  assumes J: "json_laws (e_json E)" "json_text_laws (e_json E)"
    and a: "m_type m = BLOCKCHAIN_ERROR_RESPONSE" "length answer < BUFFER_SIZE"
      "json_dump (e_json E) (BlockchainErrorMessageResponse_serialize (e_json E) m) = Inr answer"
    and s: "onMessage E' q raw s = (Inr (Some answer), s')" "raw \<noteq> ''''" "length raw < BUFFER_SIZE"
      "net p raw = Some (server_reply E' q s raw)"
  shows "sendCallback E net raw p = Inr False"
proof -
  let ?j = "BlockchainErrorMessageResponse_serialize (e_json E) m"
  have "server_reply E' q s raw = answer"
    using server_reply_answer [OF s(1-3) a(2)] J(2) a(3) by (auto simp: json_text_laws_def)
  moreover have "json_parse (e_json E) answer = Inr ?j" using J(2) a(3) by (auto simp: json_text_laws_def)
  moreover have "has_field (e_json E) ?j ''type'' (json_of_string (e_json E) (fromMessageTypeToString BLOCKCHAIN_ERROR_RESPONSE))"
    using withdrawal_serialized(1) [OF J(1), of m] a(1)
    by (simp add: has_base_def message.truncate_def del: fromMessageTypeToString.simps)
  ultimately show ?thesis
    using s(4) of_type_name [OF J(1)] json_at_ref [OF J(1)]
    by (auto simp: sendCallback_def has_field_def simp del: fromMessageTypeToString.simps)
qed

end
