(* ===== verification/DC_RefusalTheorems.thy ===== *)
theory DC_RefusalTheorems
  imports DC_Refusal DC_JoinTheorems "HOL-Library.Sublist"
begin

text \<open>Properties of texts whose block a peer refuses. Each is followed by a witness.\<close>


subsection \<open>A sender that is behind\<close>

text \<open>
  \<open>sent_behind\<close>: a text of a node in state \<open>n\<close> that is delivered and acknowledged, while the chain of the
  peer \<open>p\<close> in state \<open>s\<close> is a proper extension of that of \<open>n\<close>, and all texts involved fit their buffers.
\<close>

definition sent_behind ::
  "'j json_lib \<Rightarrow> (bytes \<Rightarrow> bytes) \<Rightarrow> ICrypto \<Rightarrow> config_data \<Rightarrow> (text_message list \<Rightarrow> text_message list) \<Rightarrow> sqlite \<Rightarrow>
   string \<Rightarrow> user_peer \<Rightarrow> config_data \<Rightarrow> db node \<Rightarrow>
   net \<times> request_env \<times> db node \<times> string \<times> u64 \<times> text_message \<Rightarrow> bool" where
  "sent_behind J SHA256 C cfg srt Q priv p cfgP n = (\<lambda>(net, q, s, uuid, ts, m).
     chain_db_inv Q (n_store s) \<and> strict_prefix (db_chain (n_store n)) (db_chain (n_store s)) \<and>
     valid_chain SHA256 C (db_chain (n_store s)) \<and>
     net p = (\<lambda>raw. Some (server_reply (node_env J SHA256 C cfgP srt Q) q s raw)) \<and>
     (\<exists>b j rawText ack notice.
        createBlockFromMessage SHA256 C (ChainDB Q) cfg m Block (n_store n) = Inr b \<and>
        hash b \<notin> st_block ` set (db_messages (n_store n)) \<and>
        TextMessage_serialize J C (TextMessage_setBlockHash (hash b) m) priv = Inr j \<and> json_dump J j = Inr rawText \<and>
        length rawText \<le> BUFFER_SIZE \<and> net (m_to m) rawText = Some ack \<and>
        (\<forall>n'. handleOutgoingMessage (node_env J SHA256 C cfg srt Q) ack n' = (Inr (), n')) \<and>
        fits J (Block_toJson J b) \<and> refusal_fits J cfgP q b \<and>
        json_dump J (BlockchainErrorMessageResponse_serialize J (withdrawal uuid ts b m)) = Inr notice))"

abbreviation send_one ::
  "(db, 'j) env \<Rightarrow> net \<times> request_env \<times> db node \<times> string \<times> u64 \<times> text_message \<Rightarrow> db node \<Rightarrow> string option res \<times> db node" where
  "send_one E x n \<equiv> (case x of (net, q, s, uuid, ts, m) \<Rightarrow> sendSecretMessage E net uuid ts m n)"

lemma created_on_chain:
  assumes "chain_db_inv Q d" "chain_db_inv Q d'" "db_chain d' = db_chain d"
  shows "createBlockFromMessage SHA256 C (ChainDB Q) cfg m b d' = createBlockFromMessage SHA256 C (ChainDB Q) cfg m b d"
  using cdb.tip [OF assms(1)] cdb.tip [OF assms(2)] assms(3) by (simp add: createBlockFromMessage_def)

text \<open>One such text, sent from a state that shows the same.\<close>

lemma sent_behind_refused:
  assumes C: "icrypto C key_pair session_key" and J: "json_laws J" "json_text_laws J" and S: "sha_len SHA256"
    and cfg: "cfg PRIVATE_KEY = Some priv" and n: "db_node_ok Q n" "p \<in> set (peers (n_peers n))"
    and x: "sent_behind J SHA256 C cfg srt Q priv p cfgP n (net, q, s, uuid, ts, m)"
      "text_keys C key_pair priv (publicKey (m_from m))"
    and k: "db_node_ok Q k" "db_chain (n_store k) = db_chain (n_store n)" "db_messages (n_store k) = db_messages (n_store n)"
      "n_peers k = n_peers n"
  shows "\<exists>notice k'. sendSecretMessage (node_env J SHA256 C cfg srt Q) net uuid ts m k = (Inr (Some notice), k') \<and>
    db_node_ok Q k' \<and> db_chain (n_store k') = db_chain (n_store n) \<and> db_messages (n_store k') = db_messages (n_store n) \<and>
    n_peers k' = n_peers n"
proof -
  let ?E = "node_env J SHA256 C cfg srt Q" and ?EP = "node_env J SHA256 C cfgP srt Q"
  obtain b j rawText ack notice where b: "createBlockFromMessage SHA256 C (ChainDB Q) cfg m Block (n_store n) = Inr b"
    "hash b \<notin> st_block ` set (db_messages (n_store n))"
    and j: "TextMessage_serialize J C (TextMessage_setBlockHash (hash b) m) priv = Inr j" "json_dump J j = Inr rawText"
      "length rawText \<le> BUFFER_SIZE" "net (m_to m) rawText = Some ack"
      "\<forall>n'. handleOutgoingMessage ?E ack n' = (Inr (), n')"
    and f: "fits J (Block_toJson J b)" "refusal_fits J cfgP q b"
      "json_dump J (BlockchainErrorMessageResponse_serialize J (withdrawal uuid ts b m)) = Inr notice"
    using x(1) unfolding sent_behind_def prod.case by (elim conjE exE)
  have s: "chain_db_inv Q (n_store s)" "strict_prefix (db_chain (n_store n)) (db_chain (n_store s))"
    "valid_chain SHA256 C (db_chain (n_store s))" "net p = (\<lambda>raw. Some (server_reply ?EP q s raw))"
    using x(1) by (simp_all add: sent_behind_def)
  obtain l where l: "db_chain (n_store s) = db_chain (n_store n) @ l" "l \<noteq> []"
    using s(2) by (auto simp: strict_prefix_def prefix_def)
  have inv: "chain_db_inv Q (n_store n)" "chain_db_inv Q (n_store k)"
    using n(1) k(1) by (simp_all add: db_node_ok_def node_ok_def)
  have v: "valid_block SHA256 C b" "previousHash b = tip_hash (db_chain (n_store n))"
    using created_block [of C key_pair session_key Q "n_store n" cfg priv m SHA256 Block] C inv(1) cfg x(2) b(1) by auto
  obtain raw where raw: "json_dump J (Block_toJson J b) = Inr raw" "raw \<noteq> ''''" "length raw < BUFFER_SIZE"
    using f(1) by (auto simp: fits_def)
  obtain e answer where a: "m_type e = BLOCKCHAIN_ERROR_RESPONSE" "length answer < BUFFER_SIZE"
    "json_dump J (BlockchainErrorMessageResponse_serialize J e) = Inr answer"
    "onMessage ?EP q raw s = (Inr (Some answer), s)"
    using ahead_answers [OF J raw(1) s(1) l _ S v f(2), of srt] s(3) l(1) by auto
  have "sendCallback ?E net raw p = Inr False"
    using callback_refused [of ?E e answer ?EP q raw s s net p] J a raw(2,3) s(4) by simp
  moreover have "withdrawal uuid ts b (TextMessage_setBlockHash (hash b) m) = withdrawal uuid ts b m"
    by (simp add: withdrawal_def)
  ultimately obtain k' where k': "after_delivery ?E net uuid ts b (TextMessage_setBlockHash (hash b) m) rawText ack k =
      (Inr (Some notice), k')" "db_node_ok Q k'" "db_chain (n_store k') = db_chain (n_store k)"
    "db_messages (n_store k') = db_messages (n_store k)" "n_peers k' = n_peers k"
    using withdrawn [OF refl k(1), of J SHA256 C cfg srt ack b raw p net uuid ts "TextMessage_setBlockHash (hash b) m" notice rawText]
      j(5) raw(1) b(2) valid_block_hash_clean [OF v(1)] n(2) f(3) k(3,4) by auto
  have "sendSecretMessage ?E net uuid ts m k =
      after_delivery ?E net uuid ts b (TextMessage_setBlockHash (hash b) m) rawText ack k"
    using created_on_chain [OF inv k(2), of SHA256 C cfg m Block] b(1) cfg j
    by (simp add: sendSecretMessage_def act_simps Let_def config_get_def not_less)
  then show ?thesis using k' k(2-4) by (intro exI [of _ notice] exI [of _ k']) simp
qed

text \<open>
  C16. A node whose chain is behind that of a peer it knows cannot publish: whatever texts it sends, one after
  the other, each of them is taken back, and its chain and its messages stay as they are. Nothing in a
  running node asks for the blocks it misses.
\<close>

theorem behind_cannot_publish:
  assumes "icrypto C key_pair session_key" "json_laws J" "json_text_laws J" "sha_len SHA256"
    and "cfg PRIVATE_KEY = Some priv" "db_node_ok Q n" "p \<in> set (peers (n_peers n))"
    and "\<forall>x \<in> set xs. sent_behind J SHA256 C cfg srt Q priv p cfgP n x \<and>
      text_keys C key_pair priv (publicKey (m_from (snd (snd (snd (snd (snd x)))))))"
  shows "let n' = fold (\<lambda>x n. snd (send_one (node_env J SHA256 C cfg srt Q) x n)) xs n in
    db_node_ok Q n' \<and> db_chain (n_store n') = db_chain (n_store n) \<and> db_messages (n_store n') = db_messages (n_store n) \<and>
    (\<forall>x \<in> set xs. \<exists>notice. fst (send_one (node_env J SHA256 C cfg srt Q) x n') = Inr (Some notice))"
proof -
  let ?E = "node_env J SHA256 C cfg srt Q"
  let ?same = "\<lambda>k. db_node_ok Q k \<and> db_chain (n_store k) = db_chain (n_store n) \<and>
    db_messages (n_store k) = db_messages (n_store n) \<and> n_peers k = n_peers n"
  have one: "\<exists>notice k'. send_one ?E x k = (Inr (Some notice), k') \<and> ?same k'" if "x \<in> set xs" "?same k" for x k
  proof -
    obtain net q s uuid ts m where x: "x = (net, q, s, uuid, ts, m)" by (cases x)
    show ?thesis
      using sent_behind_refused [where cfg = cfg and priv = priv and n = n and net = net and q = q and s = s and uuid = uuid and ts = ts and m = m and k = k,
          OF assms(1-7)] assms(8) that by (auto simp: x)
  qed
  have "set ys \<subseteq> set xs \<Longrightarrow> ?same k \<Longrightarrow> ?same (fold (\<lambda>x n. snd (send_one ?E x n)) ys k)" for ys k
  proof (induction ys arbitrary: k)
    case (Cons y ys)
    then obtain notice k' where "send_one ?E y k = (Inr (Some notice), k')" "?same k'" using one [of y k] by auto
    then show ?case using Cons by simp
  qed simp
  from this [of xs n] have "?same (fold (\<lambda>x n. snd (send_one ?E x n)) xs n)" using assms(6) by simp
  moreover from this have "\<forall>x \<in> set xs. \<exists>notice. fst (send_one ?E x (fold (\<lambda>x n. snd (send_one ?E x n)) xs n)) = Inr (Some notice)"
    using one by fastforce
  ultimately show ?thesis by (simp add: Let_def)
qed

subsection \<open>The refusals on alice's first text\<close>

text \<open>A peer on bob's host whose chain has the block already.\<close>

definition carol :: user_peer where
  "carol = UserPeer ''127.0.0.1'' 8003 alice_key"

definition knows_two :: "db node" where
  "knows_two = fresh_node\<lparr>n_peers := \<lparr> hosts = [], peers = [bob, carol] \<rparr>\<rparr>"

abbreviation ahead_carol :: net where
  "ahead_carol \<equiv> (\<lambda>p raw. Some (if p = carol then server_reply bob_env quiet bob_node raw
     else server_reply bob_env (quiet\<lparr>rq_now := 1700000000000\<rparr>) fresh_node raw))"

lemma carol_fields: "carol \<noteq> bob"
  by (simp add: carol_def bob_def UserPeer_def)

lemma knows_two_facts:
  "db_node_ok lite knows_two" "db_chain (n_store knows_two) = []" "peers (n_peers knows_two) = [bob, carol]"
  "db_messages (n_store knows_two) = []" "n_store knows_two = fresh_db"
  using fresh_node_ok by (simp_all add: knows_two_def db_node_ok_def node_ok_def peers_inv_def carol_fields [symmetric])

lemma error_text_fits:
  assumes "m_from m = UserPeer ''127.0.0.1'' w bob_key" "m_to m = UserPeer_default" "length (m_id m) \<le> 36"
    and "length (jv_text (JStr (be_error m))) \<le> 1000" "be_blockHash m = hash hello_block" "be_messageId m = ''-1''"
  shows "fits jt_lib (BlockchainErrorMessageResponse_serialize jt_lib m)"
proof -
  have "unat w < 2 ^ 16" using unsigned_less [of w] by simp
  then have "length (to_string (unat w)) \<le> 5" by (intro length_to_string_le) simp_all
  then have "length (jv_text (UserPeer_toJson jt_lib (m_from m))) \<le> 200"
    by (simp add: assms(1) UserPeer_toJson_def Let_def UserPeer_def bob_key_def)
  moreover have "length (jv_text (UserPeer_toJson jt_lib (m_to m))) \<le> 200"
    by (simp add: assms(2) UserPeer_default_def UserPeer_toJson_def Let_def UserPeer_def to_string.simps)
  ultimately have b: "length (jv_text (getBasicSerialization jt_lib m)) \<le> 800" using assms(3) by (rule small_base)
  let ?b = "getBasicSerialization jt_lib m"
  let ?p = "set_payload jt_lib ?b ''error'' (JStr (be_error m))"
  let ?q = "set_payload jt_lib ?p ''blockHash'' (JStr (hash hello_block))"
  have "length (hash hello_block) = 64" using hello_block(2) sha256_length [OF xor_digest] by (simp add: valid_block_def)
  then have "length (jv_text (set_payload jt_lib ?q ''messageId'' (JStr ''-1''))) < BUFFER_SIZE"
    using payload_text [of ?b "''error''" "JStr (be_error m)"] payload_text [of ?p "''blockHash''" "JStr (hash hello_block)"]
      payload_text [of ?q "''messageId''" "JStr ''-1''"] b assms(4) by (simp add: BUFFER_SIZE_def)
  then show ?thesis
    by (intro small_text_fits) (simp add: BlockchainErrorMessageResponse_serialize_def Let_def assms(5,6))
qed

lemma hello_refusal_fits: "refusal_fits jt_lib bob_cfg quiet hello_block"
proof -
  have "\<exists>p. stoi ''8001'' = Inr p"
    using alice_local by (auto simp: local_peer_def alice_cfg_def config_get_def)
  then obtain p where me: "local_peer bob_cfg = Inr (UserPeer ''127.0.0.1'' (word_of_int p) bob_key)"
    by (auto simp: local_peer_def bob_cfg_def alice_cfg_def config_get_def)
  have "fits jt_lib (BlockchainErrorMessageResponse_serialize jt_lib (BlockchainErrorMessageResponse_create (rq_uuid quiet)
      (rq_ts quiet) (UserPeer ''127.0.0.1'' (word_of_int p) bob_key) e (hash hello_block) ''-1''))" if "e \<in> set refusals" for e
    using that by (intro error_text_fits [where w = "word_of_int p"])
      (auto simp: BlockchainErrorMessageResponse_create_def Message_def message_ext_defs refusals_def)
  then show ?thesis using me by (auto simp: refusal_fits_def)
qed

text \<open>Carol refuses the block; the text itself is acknowledged.\<close>

lemma carol_refuses:
  assumes "json_dump jt_lib (Block_toJson jt_lib hello_block) = Inr raw" "net p raw = Some (server_reply bob_env quiet bob_node raw)"
  shows "sendCallback alice_env net raw p = Inr False"
proof -
  have raw: "raw \<noteq> ''''" "length raw < BUFFER_SIZE"
    using hello_block_fits assms(1) by (auto simp: fits_def)
  have "valid_chain sha256_bytes tests_crypto ([] @ [hello_block])" by simp
  then obtain m answer where "m_type m = BLOCKCHAIN_ERROR_RESPONSE" "length answer < BUFFER_SIZE"
    "json_dump jt_lib (BlockchainErrorMessageResponse_serialize jt_lib m) = Inr answer"
    "onMessage bob_env quiet raw bob_node = (Inr (Some answer), bob_node)"
    using ahead_answers [OF jt_laws jt_text_laws assms(1), of lite bob_node "[]" "[hello_block]" sha256_bytes tests_crypto
        bob_cfg quiet "sort_key (\<lambda>m. unat (m_timestamp m))"] hello_refusal_fits
    by (auto simp: bob_facts hello_block xor_digest)
  then show ?thesis
    using raw assms(2) by (intro callback_refused [where E' = bob_env and q = quiet and s = bob_node and s' = bob_node]) (auto simp: jt_laws jt_text_laws)
qed


text \<open>Bob acknowledges the text, whatever his chain.\<close>

lemma bob_acknowledges:
  "\<exists>j ack. TextMessage_serialize jt_lib tests_crypto (TextMessage_setBlockHash (hash hello_block) hello) alice_key = Inr j \<and>
    length (jv_text j) \<le> BUFFER_SIZE \<and> only_bob bob (jv_text j) = Some ack \<and>
    (\<forall>n. handleOutgoingMessage alice_env ack n = (Inr (), n))"
proof -
  obtain j where j: "TextMessage_serialize jt_lib tests_crypto (TextMessage_setBlockHash (hash hello_block) hello) alice_key = Inr j"
    "fits jt_lib j" using hello_json by blast
  then have raw: "jv_text j \<noteq> ''''" "length (jv_text j) < BUFFER_SIZE" by (auto simp: fits_def)
  let ?r = "TextMessageResponse_create ''q'' 0 (UserPeer (host bob) (port bob) bob_key) alice"
  let ?ack = "jv_text (TextMessageResponse_serialize jt_lib ?r)"
  have ack: "json_dump jt_lib (TextMessageResponse_serialize jt_lib ?r) = Inr ?ack" "length ?ack < BUFFER_SIZE"
    using ack_fits by (auto simp: fits_def)
  have n: "db_node_ok lite bob_node"
    using nst.chain_frame [OF hello_db(1)] fresh_node_ok by (simp add: db_node_ok_def node_ok_def bob_node_def peers_inv_def)
  obtain t where t: "timestampToString test_clock 1700000000000 = Inr t" using hello_clock by blast
  have "\<exists>n'. onMessage bob_env quiet (jv_text j) bob_node = (Inr (Some ?ack), n')"
    using text_stored [where m = "TextMessage_setBlockHash (hash hello_block) hello" and privA = alice_key and privB = bob_key
        and q = quiet and cfg = bob_cfg and k = bob_key and j = j and raw = "jv_text j" and ack = ?ack
        and srt = "sort_key (\<lambda>m. unat (m_timestamp m))" and ?SHA256.0 = sha256_bytes, OF tests_crypto_meets jt_laws jt_text_laws n]
      j(1) ack(1) by (auto simp: bob_cfg_def t)
  then obtain n' where "onMessage bob_env quiet (jv_text j) bob_node = (Inr (Some ?ack), n')" by blast
  moreover have "CHR 0x00 \<notin> set ?ack" using jt_text_laws ack(1) unfolding json_text_laws_def by blast
  ultimately have "server_reply bob_env quiet bob_node (jv_text j) = ?ack"
    using raw ack(2) by (intro server_reply_answer)
  moreover have "handleOutgoingMessage alice_env ?ack n = (Inr (), n)" for n
    using jt_laws jt_text_laws by (intro ack_taken [where r = ?r]) (simp_all add: TextMessageResponse_create_def Message_def)
  ultimately show ?thesis using j(1) raw(2) by (intro exI [of _ j] exI [of _ ?ack]) simp
qed

theorem behind_cannot_publish_witness:
  "let n' = snd (sendSecretMessage alice_env only_bob ''u'' 0 hello (fresh_node\<lparr>n_peers := \<lparr> hosts = [], peers = [bob] \<rparr>\<rparr>)) in
    db_chain (n_store n') = [] \<and> db_messages (n_store n') = [] \<and>
    (\<exists>notice. fst (sendSecretMessage alice_env only_bob ''u'' 0 hello n') = Inr (Some notice))"
proof -
  let ?n = "fresh_node\<lparr>n_peers := \<lparr> hosts = [], peers = [bob] \<rparr>\<rparr>" and ?x = "(only_bob, quiet, bob_node, ''u'', 0 :: u64, hello)"
  have n: "db_node_ok lite ?n" "bob \<in> set (peers (n_peers ?n))" "n_store ?n = fresh_db"
    using fresh_node_ok by (simp_all add: db_node_ok_def node_ok_def peers_inv_def)
  have f: "db_chain fresh_db = []" "db_messages fresh_db = []" using knows_two_facts by simp_all
  obtain j ack where j: "TextMessage_serialize jt_lib tests_crypto (TextMessage_setBlockHash (hash hello_block) hello) alice_key = Inr j"
    "length (jv_text j) \<le> BUFFER_SIZE" "only_bob bob (jv_text j) = Some ack"
    "\<forall>n. handleOutgoingMessage alice_env ack n = (Inr (), n)"
    using bob_acknowledges by (elim exE conjE)
  have "sent_behind jt_lib sha256_bytes tests_crypto alice_cfg (sort_key (\<lambda>m. unat (m_timestamp m))) lite alice_key bob bob_cfg ?n ?x"
    unfolding sent_behind_def prod.case n(3)
    using j hello_block(1) hello_block_fits hello_refusal_fits
    by (intro conjI exI [of _ hello_block] exI [of _ j] exI [of _ "jv_text j"] exI [of _ ack] exI) (simp_all add: f bob_facts)
  then have "\<forall>x \<in> set [?x]. sent_behind jt_lib sha256_bytes tests_crypto alice_cfg (sort_key (\<lambda>m. unat (m_timestamp m)))
      lite alice_key bob bob_cfg ?n x \<and>
    text_keys tests_crypto xor_key_pair alice_key (publicKey (m_from (snd (snd (snd (snd (snd x)))))))" by simp
  moreover have "alice_cfg PRIVATE_KEY = Some alice_key" by (simp add: alice_cfg_def)
  ultimately show ?thesis
    using behind_cannot_publish [where cfg = alice_cfg and priv = alice_key and xs = "[?x]" and cfgP = bob_cfg,
        OF tests_crypto_meets jt_laws jt_text_laws xor_digest _ n(1,2)]
    by (simp add: Let_def n(3) f)
qed

end
