(* ===== verification/Spec2Isabelle.thy ===== *)
theory Spec2Isabelle
  imports DC_ChainTheorems DC_MessageTheorems DC_NodeTheorems DC_AppTheorems DC_ConsoleTheorems
    DC_ThreadTheorems DC_AnswerTheorems DC_JoinTheorems DC_RefusalTheorems
begin

text \<open>
  d-chat (src/src/): a peer-to-peer chat whose nodes keep a block chain of the digests of their messages.
  A node stores blocks, messages and contacts in one SQLite file, answers the requests of its peers on
  a socket, and sends the texts its user types. This development models the whole program as functions
  on explicit states and proves what makes its parts correct, alone and together.

  \<^bold>\<open>The parts and where they are modelled.\<close>

  \<^item> Vocabulary. \<open>DC_Prelude\<close>: machine words, bytes, C++ exceptions as the type \<open>exc\<close> and results as
    \<open>'a res = exc + 'a\<close> (\<open>bnd\<close> sequences, \<open>catch_std\<close> catches, \<open>Undefined\<close> stands for undefined behaviour
    and is never caught), the collection \<open>res_simps\<close>. \<open>DC_Text\<close>: \<open>std::to_string\<close>, \<open>stoi\<close> and its kin,
    \<open>find\<close>. \<open>DC_Hex\<close>: utils/hex.hpp, utils/sha256.hpp. \<open>DC_Util\<close>: utils/uuid.hpp, utils/timestamp.hpp.
  \<^item> Third-party interfaces, as records of operations with their documented laws. \<open>DC_Json\<close>: the JSON
    library (\<open>json_laws\<close>, \<open>json_item_laws\<close>, \<open>json_text_laws\<close>; \<open>jv_lib\<close> meets them, and \<open>DC_JsonText\<close> adds
    a printer and a parser). \<open>DC_Db\<close>: SQLite as a record of what the program cannot see (whether
    the file opens, the error text, the text an integer column gives back) and \<open>db::DBFile\<close>
    (service/db/DBFile.cpp) with its mutex.
  \<^item> Cryptography. \<open>DC_Crypto\<close>: \<open>ICrypto\<close> and its contract, the locale \<open>icrypto\<close>. \<open>DC_XorCrypto\<close>: the one
    of the tests, an interpretation of it. \<open>DC_OpenSSL\<close>: service/crypto/OpenSSLCrypto.cpp over the
    values OpenSSL computes; the locale \<open>documented_openssl\<close> states what OpenSSL documents, and is a
    sublocale of \<open>icrypto\<close> and of \<open>blockchain_service\<close> over the SQLite chain.
  \<^item> The chain. \<open>DC_Block\<close>: domain/blockchain/Block.cpp. \<open>DC_ChainRepo\<close>: \<open>IChainRepo\<close> and the locale
    \<open>chain_repo\<close>, which views a repository as a list of blocks. \<open>DC_ChainDB\<close>:
    infra/blockchain/ChainDB.cpp, every SQL text as the function on the table it denotes, and the
    interpretation \<open>cdb\<close>. \<open>DC_Blockchain\<close>, \<open>DC_ChainProofs\<close>: domain/blockchain/BlockchainService.cpp over
    any repository, and the locale \<open>blockchain_service\<close>, the promises it makes, with its interpretation
    \<open>bsv\<close>.
  \<^item> Messages. \<open>DC_Message\<close>, \<open>DC_TextMessage\<close>: domain/message/Message.cpp and the seven message files of
    infra/message/. \<open>DC_MessageRepo\<close>, \<open>DC_MessageDB\<close>: \<open>IMessageRepo\<close>, the locale \<open>message_repo\<close>, and
    infra/message/MessageDB.cpp as \<open>mdb\<close>. \<open>DC_MessageService\<close>: domain/message/MessageService.cpp; the
    locale \<open>message_service\<close> extends the two repositories, with the interpretation \<open>msv\<close>.
  \<^item> Peers. \<open>DC_Peer\<close>: domain/peer/. \<open>DC_PeerRepo\<close>: \<open>IPeerRepo\<close>, the locale \<open>peer_repo\<close>, and
    infra/peer/PeerDB.cpp as \<open>pdb\<close>.
  \<^item> Configuration. \<open>DC_Config\<close>, \<open>DC_ConfigProofs\<close>: domain/config/, infra/config/JsonConfig.cpp,
    service/json/JsonFile.hpp.
  \<^item> The node. \<open>DC_Node\<close>: the record \<open>node\<close> of everything that changes while a node runs (the database,
    the list of peers, the received blocks, the counters), the record \<open>env\<close> of what does not, and
    computations \<open>act\<close>, which keep their changes when they throw. The locale \<open>node_store\<close> states what
    every computation keeps; \<open>nst\<close> interprets it. \<open>DC_ChatService\<close>: domain/chat/ChatService.cpp.
    \<open>DC_Network\<close>: infra/network/TCPServer.cpp and TCPClient.cpp. \<open>DC_Sockets\<close>: service/network/.
    \<open>DC_App\<close>: app/ChatApplication.cpp.
  \<^item> The console. \<open>DC_ConsoleUI\<close>: the line and its history in ui/cli/ConsoleUI.cpp; \<open>DC_Screen\<close>: what the
    same file draws.

  \<^bold>\<open>How they interact.\<close> \<open>ChatApplication::init\<close> (\<open>init_services\<close>, \<open>synchronize\<close>) opens the tables, asks the
  trusted peers for their peers and for the blocks it misses, and stores them; \<open>run\<close> (\<open>application_run\<close>)
  starts the server and the editor. The server (\<open>listen_loop\<close>, \<open>onMessage\<close>) hands a request that is a
  block to \<open>onIncomingBlock\<close> and any other to \<open>ChatService\<close>. A command \<open>/send\<close> (\<open>sendSecretMessage\<close>) sends
  the text, then broadcasts its block and stores it. The peers of a node are the argument \<open>net\<close>: the text
  that comes back for a text sent, or none. In \<open>DC_Sync\<close>, \<open>DC_Exchange\<close> and \<open>DC_Mesh\<close> that argument is
  the servers of other modelled nodes: one that is synchronized with, the receiver and the peers of one
  text, and a network in which any user writes to any other; in \<open>DC_Join\<close> the trusted peer of a node that
  starts and the peers that one knows; in \<open>DC_Refusal\<close> the peers of a text some of which refuse its block.

  \<^bold>\<open>Threads.\<close> The server handles requests on one thread while the editor runs commands on another. A
  method of a repository is one function in the theories above. \<open>DC_Calls\<close> has the other view, a method
  as a \<open>call\<close>: a tree of statements, each atomic because the wrapper locks its mutex for one, with
  \<open>thread_step\<close> for a pool of threads and the locale \<open>rely_guarantee\<close>. \<open>DC_Threads\<close> gives the methods
  that consist of several statements as calls (\<open>insertBlock_call\<close>, \<open>onIncomingBlock_call\<close> and so on), shows
  that without interruption they are the functions, and interprets the locale as \<open>db_pool\<close>.

  \<^bold>\<open>What the lemmas show.\<close> Each locale states a contract and proves its consequences once; the
  interpretations discharge it for the code. \<open>DC_NodeProofs\<close>, \<open>DC_Reach\<close> and \<open>DC_Steps\<close> show that everything
  a node does, whatever its peers send and wherever it throws, is a sequence of the steps of
  \<open>node_step\<close>, that each of these keeps the invariants of the three tables and of the peer list, and
  that the chain only grows. The properties are in this theory and in
  \<open>DC_ChainTheorems\<close> (one chain: checks, creation, ranges, faults of the store),
  \<open>DC_MessageTheorems\<close> (texts, their store, formats, cryptography),
  \<open>DC_NodeTheorems\<close> (synchronization, the exchange of one text and of many, pages of peers, the editor),
  \<open>DC_AppTheorems\<close> (first start, commands, shutdown, restart, identifiers and times),
  \<open>DC_ConsoleTheorems\<close> (the screen), \<open>DC_ThreadTheorems\<close> (statements of two threads interleaved),
  \<open>DC_AnswerTheorems\<close> (the type of an answer, and that requests are answered; over \<open>DC_Answers\<close>),
  \<open>DC_JoinTheorems\<close> (a node that joins a network) and \<open>DC_RefusalTheorems\<close> (texts that are taken back). \<open>DC_Fixtures\<close> holds the concrete nodes their witnesses run on.

  \<^bold>\<open>Bounds and termination.\<close> Integers have their width: ports 16 bits, counts and indices 32, times 64.
  Every loop of the program is a structural recursion, or \<open>peer_list_loop\<close> with the distance to its
  bound as measure, but the one over the batches: its counter can wrap, so \<open>batch_loop\<close> is a
  \<open>partial_function (option)\<close> and \<open>None\<close> is a loop without end. It ends for every count up
  to \<open>2 ^ 32 - 12\<close> (by induction on the batches left) and, if no request throws, does not for the last
  three values of a word. The listening loop runs over the finite list of what its \<open>accept\<close> meets, the editor
  over the finite list of keys; no fuel is used anywhere. A table numbers its rows with
  unbounded integers, where SQLite stops at \<open>2 ^ 63\<close>.

  \<^bold>\<open>What is left out.\<close> The clock, random draws, the outcome of every call of Winsock, OpenSSL and the
  file system, and the order \<open>std::sort\<close> gives to equal times are arguments. SQLite reports
  constraint violations, but no full disk and no broken file. Calls that overlap are treated for what
  they do to the database (\<open>DC_ThreadTheorems\<close>); elsewhere a call of a repository runs to its end
  before the next one starts. Data races (\<open>currentInput\<close>, the random generator)
  are undefined in C++ and recorded as findings. Printed lines are modelled for the commands and the
  editor, not for the log of the start and of the handlers, where only the local time of a received text
  is converted, because that can fail. Default constructors of messages and constructors that only
  share pointers have no definition. The console neither scrolls nor resizes. The test
  suites under src/tests are not modelled, but for their cryptography.

  \<^bold>\<open>Next.\<close> Statement-level threads for the list of peers and the received blocks; networks in which not
  all nodes know each other or texts cross; messages longer than the buffer between two nodes; a console
  that scrolls.
\<close>

section \<open>The chain of a node\<close>





text \<open>
  C10. \<open>validateIncomingBlock\<close> accepts just the blocks that are signed by their author and carry their
  own hash, are at most five minutes ahead of the clock, extend the tip, and are not stored yet.
\<close>

theorem incoming_block_decision:
  assumes "chain_db_inv Q d"
  shows "validateIncomingBlock SHA256 C (ChainDB Q) now b d = Inr None \<longleftrightarrow>
    verifyBlockSignature C b = Inr True \<and> hash b = sha256 SHA256 (toStringForHash b) \<and>
    timestamp b \<le> now + 300000 \<and>
    (previousHash b = tip_hash (db_chain d) \<or>
     (db_chain d \<noteq> [] \<and> c_str (previousHash b) = tip_hash (db_chain d))) \<and>
    hash b \<notin> hash ` set (db_chain d)"
  using cdb.validateIncomingBlock_None [OF assms]
  by (auto simp: accepts_def valid_block_def extends_tip_def)

theorem incoming_block_decision_witness:
  "validateIncomingBlock sha256_bytes tests_crypto (ChainDB lite) (m_timestamp hello) hello_block fresh_db =
     Inr None"
proof -
  have "m_timestamp hello \<le> m_timestamp hello + 300000"
    by (simp add: hello_def TextMessage_create_def TextMessage_def Message_def secret_message.defs
        text_message.defs message_ext_defs)
  then show ?thesis
    using hello_block by (simp add: incoming_block_decision [OF fresh_db_inv(1)] valid_block_def)
qed

end
